(* ===== verification/Prelude.thy ===== *)
theory Prelude
  imports Complex_Main "HOL-Library.Sublist" "HOL-Library.List_Lexorder" "HOL-Library.Char_ord"
begin

text \<open>
  Shared vocabulary of the development: the theorem collections the component proofs use, the
  list operations that ECMAScript and Go strings are built from (\<open>split\<close>, \<open>join\<close>, trimming both
  ends, removing duplicates while keeping the first occurrence, the nested search loop with an
  early return), and their generic lemmas.

  Text is a list of \<^typ>\<open>char\<close>, read as code units U+0000 to U+00FF: on that range a UTF-16 code
  unit, a Unicode code point and a \<^typ>\<open>char\<close> are the same thing, so ECMAScript's
  \<open>length\<close> is \<^const>\<open>length\<close>.
\<close>

section \<open>Theorem collections\<close>

named_theorems text_simps \<open>equations of the text operations\<close>
named_theorems api_defs \<open>definitions of the HTTP client operations\<close>
named_theorems ui_defs \<open>definitions of the page handlers\<close>

section \<open>List operations\<close>

fun split_on :: "('a \<Rightarrow> bool) \<Rightarrow> 'a list \<Rightarrow> 'a list list" where
  "split_on p [] = [[]]"
| "split_on p (x # xs) =
     (if p x then [] # split_on p xs
      else (case split_on p xs of [] \<Rightarrow> [[x]] | y # ys \<Rightarrow> (x # y) # ys))"

fun join :: "'a list \<Rightarrow> 'a list list \<Rightarrow> 'a list" where
  "join sep [] = []"
| "join sep [x] = x"
| "join sep (x # y # ys) = x @ sep @ join sep (y # ys)"

definition strip :: "('a \<Rightarrow> bool) \<Rightarrow> 'a list \<Rightarrow> 'a list" where
  "strip p xs = rev (dropWhile p (rev (dropWhile p xs)))"

definition dedup :: "'a list \<Rightarrow> 'a list" where
  "dedup xs = rev (remdups (rev xs))"

fun first_pair :: "('a \<Rightarrow> 'b \<Rightarrow> bool) \<Rightarrow> 'a list \<Rightarrow> 'b list \<Rightarrow> ('a \<times> 'b) option" where
  "first_pair p [] ys = None"
| "first_pair p (x # xs) ys =
     (case List.find (p x) ys of Some y \<Rightarrow> Some (x, y) | None \<Rightarrow> first_pair p xs ys)"

fun assoc_upd :: "'k \<Rightarrow> 'v \<Rightarrow> ('k \<times> 'v) list \<Rightarrow> ('k \<times> 'v) list" where
  "assoc_upd k v [] = [(k, v)]"
| "assoc_upd k v ((k', v') # kvs) =
     (if k = k' then (k, v) # kvs else (k', v') # assoc_upd k v kvs)"

section \<open>Splitting and joining\<close>

lemma split_on_not_Nil [simp]: "split_on p xs \<noteq> []"
  by (induction xs) (auto split: list.splits)

lemma split_on_Cons_sep [text_simps]: "p x \<Longrightarrow> split_on p (x # xs) = [] # split_on p xs"
  by simp

lemma split_on_Cons_other:
  "\<not> p x \<Longrightarrow> split_on p (x # xs) = (x # hd (split_on p xs)) # tl (split_on p xs)"
  by (simp split: list.split)

lemma split_on_no_sep: "(\<forall>x \<in> set xs. \<not> p x) \<Longrightarrow> split_on p xs = [xs]"
  by (induction xs) auto

lemma split_on_append_sep:
  "(\<forall>x \<in> set xs. \<not> p x) \<Longrightarrow> p s \<Longrightarrow> split_on p (xs @ s # ys) = xs # split_on p ys"
  by (induction xs) auto

lemma split_on_parts: "ys \<in> set (split_on p xs) \<Longrightarrow> \<forall>y \<in> set ys. \<not> p y"
proof (induction xs arbitrary: ys)
  case Nil
  then show ?case by simp
next
  case (Cons x xs)
  show ?case
  proof (cases "p x")
    case True
    with Cons show ?thesis by auto
  next
    case False
    have "\<forall>zs \<in> set (split_on p xs). \<forall>z \<in> set zs. \<not> p z"
      using Cons.IH by blast
    with False Cons.prems show ?thesis
      by (cases "split_on p xs") auto
  qed
qed

lemma split_on_chars: "ys \<in> set (split_on p xs) \<Longrightarrow> set ys \<subseteq> set xs"
proof (induction xs arbitrary: ys)
  case Nil
  then show ?case by simp
next
  case (Cons x xs)
  have IH: "\<forall>zs \<in> set (split_on p xs). set zs \<subseteq> set xs"
    using Cons.IH by blast
  with Cons.prems show ?case
    by (cases "split_on p xs") (auto split: if_splits)
qed

lemma join_Cons_Cons: "join s ((x # y) # ys) = x # join s (y # ys)"
  by (cases ys) auto

lemma join_Nil_Cons: "zs \<noteq> [] \<Longrightarrow> join s ([] # zs) = s @ join s zs"
  by (cases zs) auto

lemma join_split_on: "join [s] (split_on (\<lambda>c. c = s) xs) = xs"
proof (induction xs)
  case Nil
  then show ?case by simp
next
  case (Cons x xs)
  show ?case
  proof (cases "x = s")
    case True
    with Cons.IH show ?thesis by (simp add: join_Nil_Cons)
  next
    case False
    obtain y ys where yys: "split_on (\<lambda>c. c = s) xs = y # ys"
      by (meson neq_Nil_conv split_on_not_Nil)
    with False Cons.IH show ?thesis by (simp add: join_Cons_Cons)
  qed
qed

lemma split_on_join:
  "(\<forall>x \<in> set parts. \<forall>c \<in> set x. \<not> p c) \<Longrightarrow> p s \<Longrightarrow> parts \<noteq> [] \<Longrightarrow>
     split_on p (join [s] parts) = parts"
proof (induction parts)
  case (Cons x parts)
  then have "\<forall>c \<in> set x. \<not> p c" by auto
  with Cons show ?case
    by (cases parts) (auto simp: split_on_append_sep split_on_no_sep)
qed simp

section \<open>Trimming\<close>

lemma strip_Nil [simp]: "strip p [] = []"
  by (simp add: strip_def)

lemma dropWhile_id: "(xs \<noteq> [] \<Longrightarrow> \<not> p (hd xs)) \<Longrightarrow> dropWhile p xs = xs"
  by (cases xs) auto

lemma hd_dropWhile_not: "dropWhile p xs \<noteq> [] \<Longrightarrow> \<not> p (hd (dropWhile p xs))"
  by (rule hd_dropWhile)

lemma strip_hd: "strip p xs \<noteq> [] \<Longrightarrow> \<not> p (hd (strip p xs))"
proof -
  assume ne: "strip p xs \<noteq> []"
  let ?d = "dropWhile p xs"
  have eq: "strip p xs = take (length (strip p xs)) ?d"
    unfolding strip_def
    by (metis append_eq_conv_conj rev_append rev_rev_ident takeWhile_dropWhile_id)
  with ne have "?d \<noteq> []" and "hd (strip p xs) = hd ?d"
    by (metis take_Nil, metis hd_take length_greater_0_conv)
  then show ?thesis by (simp add: hd_dropWhile)
qed

lemma strip_last: "strip p xs \<noteq> [] \<Longrightarrow> \<not> p (last (strip p xs))"
  unfolding strip_def by (metis hd_dropWhile last_rev rev_is_Nil_conv)

lemma strip_id:
  "(xs \<noteq> [] \<Longrightarrow> \<not> p (hd xs) \<and> \<not> p (last xs)) \<Longrightarrow> strip p xs = xs"
  unfolding strip_def by (cases "xs = []") (auto simp: dropWhile_id hd_rev)

lemma strip_idem [simp]: "strip p (strip p xs) = strip p xs"
  by (rule strip_id) (auto dest: strip_hd strip_last)

lemma set_strip: "set (strip p xs) \<subseteq> set xs"
  unfolding strip_def by (auto dest!: set_dropWhileD)

lemma strip_none: "\<forall>x \<in> set xs. \<not> p x \<Longrightarrow> strip p xs = xs"
  by (rule strip_id) auto

lemma strip_Nil_iff: "strip p xs = [] \<longleftrightarrow> (\<forall>x \<in> set xs. p x)"
proof -
  have "strip p xs = [] \<longleftrightarrow> (\<forall>x \<in> set (dropWhile p xs). p x)"
    by (simp add: strip_def)
  also have "\<dots> \<longleftrightarrow> (\<forall>x \<in> set xs. p x)"
    by (metis dropWhile_eq_Nil_conv hd_dropWhile hd_in_set set_dropWhileD)
  finally show ?thesis .
qed

lemma strip_cong: "(\<And>x. x \<in> set xs \<Longrightarrow> p x = q x) \<Longrightarrow> strip p xs = strip q xs"
proof -
  assume eq: "\<And>x. x \<in> set xs \<Longrightarrow> p x = q x"
  then have 1: "dropWhile p xs = dropWhile q xs"
    by (intro dropWhile_cong) auto
  have "dropWhile p (rev (dropWhile q xs)) = dropWhile q (rev (dropWhile q xs))"
    using eq by (intro dropWhile_cong) (auto dest: set_dropWhileD)
  with 1 show ?thesis by (simp add: strip_def)
qed

section \<open>Duplicates and searching\<close>

lemma set_dedup [simp]: "set (dedup xs) = set xs"
  by (simp add: dedup_def)

lemma distinct_dedup [simp]: "distinct (dedup xs)"
  by (simp add: dedup_def)

lemma find_None_iff': "List.find p xs = None \<longleftrightarrow> (\<forall>x \<in> set xs. \<not> p x)"
  by (auto simp: find_None_iff)

lemma find_SomeD: "List.find p xs = Some x \<Longrightarrow> x \<in> set xs \<and> p x"
  by (auto simp: find_Some_iff)

lemma first_pair_None_iff: "first_pair p xs ys = None \<longleftrightarrow> (\<forall>x \<in> set xs. \<forall>y \<in> set ys. \<not> p x y)"
  by (induction p xs ys rule: first_pair.induct) (auto simp: find_None_iff' dest!: find_SomeD split: option.splits)

lemma first_pair_head:
  "first_pair p (x # xs) ys = Some (d, w) \<Longrightarrow> y \<in> set ys \<Longrightarrow> p x y \<Longrightarrow> d = x"
  by (auto simp: find_None_iff split: option.splits)

lemma first_pair_SomeD:
  "first_pair p xs ys = Some (x, y) \<Longrightarrow> x \<in> set xs \<and> y \<in> set ys \<and> p x y"
  by (induction p xs ys rule: first_pair.induct) (auto dest: find_SomeD split: option.splits)

lemma first_pair_first:
  "first_pair p xs ys = Some (x, y) \<Longrightarrow>
     \<exists>us vs. xs = us @ x # vs \<and> (\<forall>u \<in> set us. \<forall>z \<in> set ys. \<not> p u z)"
proof (induction p xs ys rule: first_pair.induct)
  case (2 p x' xs ys)
  show ?case
  proof (cases "List.find (p x') ys")
    case None
    with 2 obtain us vs where "xs = us @ x # vs" "\<forall>u \<in> set us. \<forall>z \<in> set ys. \<not> p u z"
      by auto
    with None show ?thesis
      by (intro exI [of _ "x' # us"] exI [of _ vs]) (auto simp: find_None_iff)
  next
    case (Some z)
    with 2 show ?thesis by (intro exI [of _ "[]"] exI [of _ xs]) auto
  qed
qed simp

section \<open>Association lists with in-place update\<close>

lemma map_of_assoc_upd [simp]: "map_of (assoc_upd k v kvs) = (map_of kvs)(k \<mapsto> v)"
  by (induction k v kvs rule: assoc_upd.induct) (auto simp: fun_upd_twist)

lemma keys_assoc_upd: "fst ` set (assoc_upd k v kvs) = insert k (fst ` set kvs)"
  by (induction k v kvs rule: assoc_upd.induct) auto

lemma distinct_assoc_upd:
  "distinct (map fst kvs) \<Longrightarrow> distinct (map fst (assoc_upd k v kvs))"
proof (induction k v kvs rule: assoc_upd.induct)
  case (2 k v k' v' kvs)
  then show ?case using keys_assoc_upd [of k v kvs] by (auto simp del: set_map simp: set_map)
qed simp

lemma assoc_upd_new: "k \<notin> fst ` set kvs \<Longrightarrow> assoc_upd k v kvs = kvs @ [(k, v)]"
  by (induction k v kvs rule: assoc_upd.induct) auto

end
