(* ===== verification/Js_Text.thy ===== *)
theory Js_Text
  imports Prelude
begin

text \<open>
  The parts of ECMAScript's and the browser's text library that \<open>web/src\<close> uses, as executable
  functions on code-unit lists: \<open>trim\<close>, \<open>toLowerCase\<close>, \<open>startsWith\<close>, \<open>endsWith\<close>,
  \<open>includes\<close>, \<open>padStart\<close>, \<open>Number\<close> on the strings that number and time inputs produce,
  number printing, \<open>encodeURIComponent\<close> and \<open>URLSearchParams\<close>; and the two Go counterparts
  whose difference matters, \<open>strings.TrimSpace\<close> and \<open>len\<close> (bytes of the UTF-8 encoding).
\<close>

section \<open>Character classes\<close>

definition code :: "char \<Rightarrow> nat" where
  "code c = of_char c"

definition js_space :: "char \<Rightarrow> bool" where
  "js_space c \<longleftrightarrow> code c \<in> {9, 10, 11, 12, 13, 32, 160}"

definition go_space :: "char \<Rightarrow> bool" where
  "go_space c \<longleftrightarrow> code c \<in> {9, 10, 11, 12, 13, 32, 133, 160}"

definition is_digit :: "char \<Rightarrow> bool" where
  "is_digit c \<longleftrightarrow> 48 \<le> code c \<and> code c \<le> 57"

definition is_lower_ascii :: "char \<Rightarrow> bool" where
  "is_lower_ascii c \<longleftrightarrow> 97 \<le> code c \<and> code c \<le> 122"

definition is_upper_ascii :: "char \<Rightarrow> bool" where
  "is_upper_ascii c \<longleftrightarrow> 65 \<le> code c \<and> code c \<le> 90"

definition lower_char :: "char \<Rightarrow> char" where
  "lower_char c =
     (if (65 \<le> code c \<and> code c \<le> 90) \<or> (192 \<le> code c \<and> code c \<le> 222 \<and> code c \<noteq> 215)
      then char_of (code c + 32) else c)"

section \<open>String methods\<close>

definition trim :: "string \<Rightarrow> string" where
  "trim s = strip js_space s"

definition go_TrimSpace :: "string \<Rightarrow> string" where
  "go_TrimSpace s = strip go_space s"

definition toLowerCase :: "string \<Rightarrow> string" where
  "toLowerCase s = map lower_char s"

definition startsWith :: "string \<Rightarrow> string \<Rightarrow> bool" where
  "startsWith s p \<longleftrightarrow> prefix p s"

definition endsWith :: "string \<Rightarrow> string \<Rightarrow> bool" where
  "endsWith s p \<longleftrightarrow> suffix p s"

definition js_includes :: "string \<Rightarrow> string \<Rightarrow> bool" where
  "js_includes s p \<longleftrightarrow> sublist p s"

definition padStart2 :: "string \<Rightarrow> string" where
  "padStart2 s = replicate (2 - length s) (CHR ''0'') @ s"

definition utf8_char :: "char \<Rightarrow> char list" where
  "utf8_char c =
     (if code c < 128 then [c] else [char_of (192 + code c div 64), char_of (128 + code c mod 64)])"

definition utf8 :: "string \<Rightarrow> string" where
  "utf8 s = concat (map utf8_char s)"

definition go_len :: "string \<Rightarrow> nat" where
  "go_len s = length (utf8 s)"

section \<open>Numbers\<close>

datatype js_number = NaN | Fin rat

definition digit_char :: "nat \<Rightarrow> char" where
  "digit_char n = char_of (48 + n)"

definition digit_val :: "char \<Rightarrow> nat" where
  "digit_val c = code c - 48"

fun show_nat :: "nat \<Rightarrow> string" where
  "show_nat n = (if n < 10 then [digit_char n] else show_nat (n div 10) @ [digit_char (n mod 10)])"

declare show_nat.simps [simp del]

definition show_int :: "int \<Rightarrow> string" where
  "show_int i = (if i < 0 then CHR ''-'' # show_nat (nat (- i)) else show_nat (nat i))"

definition nat_of_digits :: "string \<Rightarrow> nat" where
  "nat_of_digits s = foldl (\<lambda>n c. 10 * n + digit_val c) 0 s"

text \<open>
  \<open>Number(text)\<close> on the values of number and time inputs: surrounding white space is ignored, the
  empty string is 0, otherwise a decimal literal with optional sign, fraction and exponent;
  anything else is \<open>NaN\<close>. Rounding to a double is not modelled.
\<close>

definition digits_ok :: "string \<Rightarrow> bool" where
  "digits_ok s \<longleftrightarrow> s \<noteq> [] \<and> list_all is_digit s"

definition parse_sign :: "string \<Rightarrow> rat \<times> string" where
  "parse_sign s =
     (case s of
        [] \<Rightarrow> (1, [])
      | c # r \<Rightarrow>
          if c = CHR ''-'' then (- 1, r) else if c = CHR ''+'' then (1, r) else (1, s))"

definition parse_mantissa :: "string \<Rightarrow> rat option" where
  "parse_mantissa s =
     (case split_on (\<lambda>c. c = CHR ''.'') s of
        [i] \<Rightarrow> if digits_ok i then Some (of_nat (nat_of_digits i)) else None
      | [i, f] \<Rightarrow>
          if list_all is_digit (i @ f) \<and> i @ f \<noteq> []
          then Some (of_nat (nat_of_digits (i @ f)) / 10 ^ length f) else None
      | _ \<Rightarrow> None)"

definition parse_exponent :: "string \<Rightarrow> int option" where
  "parse_exponent s =
     (let (sg, r) = parse_sign s
      in if digits_ok r then Some (if sg < 0 then - int (nat_of_digits r) else int (nat_of_digits r))
         else None)"

definition scale10 :: "rat \<Rightarrow> int \<Rightarrow> rat" where
  "scale10 q e = (if 0 \<le> e then q * 10 ^ nat e else q / 10 ^ nat (- e))"

definition js_Number :: "string \<Rightarrow> js_number" where
  "js_Number s =
     (let t = trim s in
      if t = [] then Fin 0
      else (let (sg, r) = parse_sign t in
        case split_on (\<lambda>c. c = CHR ''e'' \<or> c = CHR ''E'') r of
          [m] \<Rightarrow> (case parse_mantissa m of Some q \<Rightarrow> Fin (sg * q) | None \<Rightarrow> NaN)
        | [m, x] \<Rightarrow>
            (case (parse_mantissa m, parse_exponent x) of
               (Some q, Some e) \<Rightarrow> Fin (scale10 (sg * q) e)
             | _ \<Rightarrow> NaN)
        | _ \<Rightarrow> NaN))"

text \<open>
  \<open>String(number)\<close>: integers, and fractions of at most 17 decimal places; the exponent form that
  ECMAScript uses from 1e21 on and below 1e-6 is outside the model.
\<close>

fun frac_digits :: "nat \<Rightarrow> rat \<Rightarrow> string" where
  "frac_digits 0 r = []"
| "frac_digits (Suc n) r =
     (if r = 0 then []
      else digit_char (nat \<lfloor>10 * r\<rfloor>) # frac_digits n (10 * r - of_int \<lfloor>10 * r\<rfloor>))"

definition js_number_text :: "js_number \<Rightarrow> string" where
  "js_number_text x =
     (case x of
        NaN \<Rightarrow> ''NaN''
      | Fin q \<Rightarrow>
          if q = of_int \<lfloor>q\<rfloor> then show_int \<lfloor>q\<rfloor>
          else (if q < 0 then ''-'' else []) @ show_nat (nat \<lfloor>\<bar>q\<bar>\<rfloor>) @ ''.''
               @ frac_digits 17 (\<bar>q\<bar> - of_int \<lfloor>\<bar>q\<bar>\<rfloor>))"

section \<open>URL encoding\<close>

definition hex_digit :: "nat \<Rightarrow> char" where
  "hex_digit n = (if n < 10 then char_of (48 + n) else char_of (55 + n))"

definition hex_val :: "char \<Rightarrow> nat" where
  "hex_val c =
     (if code c < 65 then code c - 48 else if code c < 97 then code c - 55 else code c - 87)"

definition pct :: "char \<Rightarrow> string" where
  "pct b = [CHR ''%'', hex_digit (code b div 16), hex_digit (code b mod 16)]"

definition is_alnum :: "char \<Rightarrow> bool" where
  "is_alnum c \<longleftrightarrow> is_digit c \<or> is_lower_ascii c \<or> is_upper_ascii c"

definition uri_unreserved :: "char \<Rightarrow> bool" where
  "uri_unreserved c \<longleftrightarrow> is_alnum c \<or> code c \<in> {33, 39, 40, 41, 42, 45, 46, 95, 126}"

definition encode_char :: "char \<Rightarrow> string" where
  "encode_char c = (if uri_unreserved c then [c] else concat (map pct (utf8_char c)))"

definition encodeURIComponent :: "string \<Rightarrow> string" where
  "encodeURIComponent s = concat (map encode_char s)"

definition form_char :: "char \<Rightarrow> string" where
  "form_char c =
     (if c = CHR '' '' then ''+''
      else if is_alnum c \<or> code c \<in> {42, 45, 46, 95} then [c]
      else concat (map pct (utf8_char c)))"

definition form_encode :: "string \<Rightarrow> string" where
  "form_encode s = concat (map form_char s)"

definition urlSearchParams :: "(string \<times> string) list \<Rightarrow> string" where
  "urlSearchParams kvs = join ''&'' (map (\<lambda>(k, v). form_encode k @ ''='' @ form_encode v) kvs)"

text \<open>The reading side, as the server's URL library does it.\<close>

fun pct_decode :: "string \<Rightarrow> string" where
  "pct_decode (CHR ''%'' # a # b # r) = char_of (16 * hex_val a + hex_val b) # pct_decode r"
| "pct_decode (c # r) = c # pct_decode r"
| "pct_decode [] = []"

fun utf8_decode :: "string \<Rightarrow> string" where
  "utf8_decode [] = []"
| "utf8_decode [a] = [a]"
| "utf8_decode (a # b # r) =
     (if code a < 128 then a # utf8_decode (b # r)
      else char_of (64 * (code a - 192) + (code b - 128)) # utf8_decode r)"

definition decodeURIComponent :: "string \<Rightarrow> string" where
  "decodeURIComponent s = utf8_decode (pct_decode s)"

section \<open>Characters\<close>

lemma code_bound [simp]: "code c < 256"
  by (simp add: code_def)

lemma code_char_of: "n < 256 \<Longrightarrow> code (char_of n) = n"
  by (simp add: code_def)

lemma char_of_code [simp]: "char_of (code c) = c"
  by (simp add: code_def)

lemma code_eq_iff: "code c = code d \<longleftrightarrow> c = d"
  by (metis char_of_code)

lemma code_lower_char:
  "code (lower_char c) =
     (if (65 \<le> code c \<and> code c \<le> 90) \<or> (192 \<le> code c \<and> code c \<le> 222 \<and> code c \<noteq> 215)
      then code c + 32 else code c)"
  by (simp add: lower_char_def code_char_of)

lemma lower_char_idem [simp]: "lower_char (lower_char c) = lower_char c"
  by (rule code_eq_iff [THEN iffD1]) (auto simp: code_lower_char)

lemma js_space_lower [simp]: "js_space (lower_char c) = js_space c"
  by (auto simp: js_space_def code_lower_char)

lemma code_46 [simp]: "code c = 46 \<longleftrightarrow> c = CHR ''.''"
  using code_eq_iff [of c "CHR ''.''"] by (simp add: code_def)

lemma code_42 [simp]: "code c = 42 \<longleftrightarrow> c = CHR ''*''"
  using code_eq_iff [of c "CHR ''*''"] by (simp add: code_def)

lemma lower_char_dot [simp]: "lower_char c = CHR ''.'' \<longleftrightarrow> c = CHR ''.''"
  by (auto simp flip: code_46 simp: code_lower_char simp del: code_46)

lemma lower_char_star [simp]: "lower_char c = CHR ''*'' \<longleftrightarrow> c = CHR ''*''"
  by (auto simp flip: code_42 simp: code_lower_char simp del: code_42)

section \<open>Trimming and case\<close>

lemma trim_Nil [simp]: "trim [] = []"
  by (simp add: trim_def)

lemma trim_idem [simp]: "trim (trim s) = trim s"
  by (simp add: trim_def)

lemma set_trim: "set (trim s) \<subseteq> set s"
  by (simp add: trim_def set_strip)

lemma toLowerCase_idem [simp]: "toLowerCase (toLowerCase s) = toLowerCase s"
  by (simp add: toLowerCase_def)

lemma toLowerCase_Nil_iff [simp]: "toLowerCase s = [] \<longleftrightarrow> s = []"
  by (simp add: toLowerCase_def)

lemma dot_in_toLowerCase [simp]: "CHR ''.'' \<in> set (toLowerCase s) \<longleftrightarrow> CHR ''.'' \<in> set s"
  by (metis (no_types, lifting) imageE image_eqI list.set_map lower_char_dot toLowerCase_def)

lemma dropWhile_lower:
  "dropWhile js_space (map lower_char s) = map lower_char (dropWhile js_space s)"
  by (simp add: dropWhile_map comp_def)

lemma trim_toLowerCase: "trim (toLowerCase s) = toLowerCase (trim s)"
  by (simp add: trim_def toLowerCase_def strip_def dropWhile_lower rev_map)

lemma go_TrimSpace_eq_trim: "CHR 0x85 \<notin> set s \<Longrightarrow> go_TrimSpace s = trim s"
proof -
  assume nel: "CHR 0x85 \<notin> set s"
  have "go_space c = js_space c" if "c \<in> set s" for c
  proof -
    have "code c \<noteq> 133"
      using that nel code_eq_iff [of c "CHR 0x85"] by (auto simp: code_def)
    then show ?thesis by (auto simp: go_space_def js_space_def)
  qed
  then show ?thesis unfolding go_TrimSpace_def trim_def by (rule strip_cong)
qed

section \<open>Byte length\<close>

lemma length_utf8_char: "length (utf8_char c) = (if code c < 128 then 1 else 2)"
  by (simp add: utf8_char_def)

lemma go_len_Cons [simp]: "go_len (c # s) = (if code c < 128 then 1 else 2) + go_len s"
  by (simp add: go_len_def utf8_def length_utf8_char)

lemma go_len_Nil [simp]: "go_len [] = 0"
  by (simp add: go_len_def utf8_def)

lemma length_le_go_len: "length s \<le> go_len s"
  by (induction s) auto

lemma go_len_le: "go_len s \<le> 2 * length s"
  by (induction s) auto

lemma go_len_ascii: "\<forall>c \<in> set s. code c < 128 \<Longrightarrow> go_len s = length s"
  by (induction s) auto

section \<open>Decimal digits\<close>

lemma code_digit_char: "n < 10 \<Longrightarrow> code (digit_char n) = 48 + n"
  by (simp add: digit_char_def code_char_of)

lemma digit_val_char [simp]: "n < 10 \<Longrightarrow> digit_val (digit_char n) = n"
  by (simp add: digit_val_def code_digit_char)

lemma is_digit_char [simp]: "n < 10 \<Longrightarrow> is_digit (digit_char n)"
  by (simp add: is_digit_def code_digit_char)

lemma show_nat_digits: "list_all is_digit (show_nat n) \<and> show_nat n \<noteq> []"
proof (induction n rule: show_nat.induct)
  case (1 n)
  then show ?case by (subst (1 2) show_nat.simps) auto
qed

lemma nat_of_digits_snoc: "nat_of_digits (s @ [c]) = 10 * nat_of_digits s + digit_val c"
  by (simp add: nat_of_digits_def)

lemma nat_of_digits_show [simp]: "nat_of_digits (show_nat n) = n"
proof (induction n rule: show_nat.induct)
  case (1 n)
  show ?case
  proof (cases "n < 10")
    case True
    then show ?thesis by (subst show_nat.simps) (simp add: nat_of_digits_def)
  next
    case False
    with 1 show ?thesis by (subst show_nat.simps) (simp add: nat_of_digits_snoc)
  qed
qed

lemma digit_chars:
  "is_digit c \<Longrightarrow> c \<noteq> CHR ''.'' \<and> c \<noteq> CHR ''e'' \<and> c \<noteq> CHR ''E'' \<and> c \<noteq> CHR ''-'' \<and> c \<noteq> CHR ''+''
     \<and> c \<noteq> CHR '' '' \<and> c \<noteq> CHR '':'' \<and> c \<noteq> CHR ''*'' \<and> \<not> js_space c"
  by (auto simp: is_digit_def js_space_def code_def)

lemma parse_sign_other:
  "c \<noteq> CHR ''-'' \<Longrightarrow> c \<noteq> CHR ''+'' \<Longrightarrow> parse_sign (c # s) = (1, c # s)"
  by (simp add: parse_sign_def)

lemma parse_sign_digits: "digits_ok s \<Longrightarrow> parse_sign s = (1, s)"
  by (cases s) (auto simp: digits_ok_def dest: digit_chars intro!: parse_sign_other)

lemma js_Number_digits:
  assumes "digits_ok s"
  shows "js_Number s = Fin (of_nat (nat_of_digits s))"
proof -
  have all: "\<forall>c \<in> set s. is_digit c" and ne: "s \<noteq> []"
    using assms by (auto simp: digits_ok_def list_all_iff)
  have "trim s = s"
    unfolding trim_def by (rule strip_none) (use all digit_chars in blast)
  moreover have "split_on (\<lambda>c. c = CHR ''e'' \<or> c = CHR ''E'') s = [s]"
    by (rule split_on_no_sep) (use all digit_chars in blast)
  moreover have "split_on (\<lambda>c. c = CHR ''.'') s = [s]"
    by (rule split_on_no_sep) (use all digit_chars in blast)
  ultimately show ?thesis
    using ne assms by (simp add: js_Number_def parse_sign_digits parse_mantissa_def)
qed

lemma js_Number_show_nat [simp]: "js_Number (show_nat n) = Fin (of_nat n)"
  using show_nat_digits [of n] by (simp add: js_Number_digits digits_ok_def)

lemma js_number_text_of_nat [simp]: "js_number_text (Fin (of_nat n)) = show_nat n"
  by (simp add: js_number_text_def show_int_def)

section \<open>URL encoding\<close>

lemma hex_val_digit [simp]: "n < 16 \<Longrightarrow> hex_val (hex_digit n) = n"
  by (auto simp: hex_val_def hex_digit_def code_char_of)

lemma pct_decode_pct: "pct_decode (pct b @ r) = b # pct_decode r"
proof -
  have "code b div 16 < 16" using code_bound [of b] by linarith
  moreover have "16 * (code b div 16) + code b mod 16 = code b" by simp
  ultimately show ?thesis by (simp add: pct_def)
qed

lemma pct_decode_concat: "pct_decode (concat (map pct bs) @ r) = bs @ pct_decode r"
  by (induction bs) (simp_all add: pct_decode_pct)

lemma pct_decode_other: "c \<noteq> CHR ''%'' \<Longrightarrow> pct_decode (c # r) = c # pct_decode r"
  by (cases "c # r" rule: pct_decode.cases) auto

lemma uri_unreserved_ascii: "uri_unreserved c \<Longrightarrow> code c < 128 \<and> c \<noteq> CHR ''%''"
  by (auto simp: uri_unreserved_def is_alnum_def is_digit_def is_lower_ascii_def is_upper_ascii_def
      code_def)

lemma pct_decode_encode: "pct_decode (encodeURIComponent s) = utf8 s"
proof (induction s)
  case Nil
  then show ?case by (simp add: encodeURIComponent_def utf8_def)
next
  case (Cons c s)
  have "encodeURIComponent (c # s) = encode_char c @ encodeURIComponent s"
    by (simp add: encodeURIComponent_def)
  moreover have "pct_decode (encode_char c @ r) = utf8_char c @ pct_decode r" for r
    using uri_unreserved_ascii [of c]
    by (cases "uri_unreserved c")
      (simp_all add: encode_char_def pct_decode_other pct_decode_concat, simp add: utf8_char_def)
  moreover have "utf8 (c # s) = utf8_char c @ utf8 s"
    by (simp add: utf8_def)
  ultimately show ?case using Cons.IH by simp
qed

lemma utf8_decode_char: "utf8_decode (utf8_char c @ r) = c # utf8_decode r"
proof (cases "code c < 128")
  case True
  then show ?thesis by (cases r) (auto simp: utf8_char_def)
next
  case False
  have b: "code c < 256" by (rule code_bound)
  then have "code c div 64 < 4" by linarith
  then have "code (char_of (192 + code c div 64)) = 192 + code c div 64"
    by (intro code_char_of) linarith
  moreover have "code (char_of (128 + code c mod 64)) = 128 + code c mod 64"
    by (rule code_char_of) (use mod_less_divisor [of 64 "code c"] in linarith)
  moreover have "64 * (code c div 64) + code c mod 64 = code c" by simp
  ultimately show ?thesis using False by (simp add: utf8_char_def)
qed

lemma utf8_decode_utf8 [simp]: "utf8_decode (utf8 s) = s"
proof (induction s)
  case Nil
  then show ?case by (simp add: utf8_def)
next
  case (Cons c s)
  then show ?case
    using utf8_decode_char [of c "utf8 s"] by (simp add: utf8_def)
qed

lemma decode_encodeURIComponent [simp]: "decodeURIComponent (encodeURIComponent s) = s"
  by (simp add: decodeURIComponent_def pct_decode_encode)

lemma encodeURIComponent_inj: "encodeURIComponent s = encodeURIComponent t \<Longrightarrow> s = t"
  by (metis decode_encodeURIComponent)

lemma encodeURIComponent_Nil_iff [simp]: "encodeURIComponent s = [] \<longleftrightarrow> s = []"
  using encodeURIComponent_inj [of s "[]"] by (auto simp: encodeURIComponent_def)

lemma encode_chars:
  "d \<in> set (encodeURIComponent s) \<Longrightarrow> uri_unreserved d \<or> d = CHR ''%''"
proof -
  have hex: "uri_unreserved (hex_digit n)" if "n < 16" for n
    using that by (auto simp: hex_digit_def uri_unreserved_def is_alnum_def is_digit_def
        is_upper_ascii_def code_char_of)
  have p: "e = CHR ''%'' \<or> uri_unreserved e" if "e \<in> set (pct b)" for e b
  proof -
    have "code b div 16 < 16" using code_bound [of b] by linarith
    then show ?thesis
      using that hex [of "code b div 16"] hex [of "code b mod 16"] by (auto simp: pct_def)
  qed
  assume "d \<in> set (encodeURIComponent s)"
  then obtain c where "d \<in> set (encode_char c)"
    by (auto simp: encodeURIComponent_def)
  then show ?thesis using p by (auto simp: encode_char_def split: if_splits)
qed

lemma encode_no_delimiter:
  "CHR ''/'' \<notin> set (encodeURIComponent s) \<and> CHR ''?'' \<notin> set (encodeURIComponent s)
     \<and> CHR ''#'' \<notin> set (encodeURIComponent s)"
  using encode_chars [of _ s]
  by (auto simp: uri_unreserved_def is_alnum_def is_digit_def is_lower_ascii_def is_upper_ascii_def
      code_def dest!: encode_chars)

end
