(* ===== verification/Http_Io.thy ===== *)
theory Http_Io
  imports Js_Text
begin

text \<open>
  ECMAScript values as \<open>response.json()\<close> delivers them, the exceptions the client code can see,
  HTTP requests and responses, and asynchronous client programs as a datatype of commands: a
  program reads or writes the module variable \<open>csrfToken\<close>, sends a request and continues with
  what \<open>fetch\<close> delivers, touches the browser, or ends with a value or an exception. A program is
  run alone against a server function (\<open>run\<close>), or interleaved with any number of others
  (\<open>pool_step\<close>), because each \<open>await\<close> of the source lets other code run.
\<close>

section \<open>Values\<close>

datatype jsval =
    JUndef | JNull | JBool bool | JNum js_number | JStr string
  | JArr "jsval list" | JObj "(string \<times> jsval) list"

text \<open>
  Texts shown to the user. The fixed Chinese messages are constructors; a message that comes out
  of a response body is the value found there.
\<close>

datatype message = MsgRequestFailed | MsgArchiveFailed | MsgServer jsval

datatype js_error =
    ApiError (err_status: nat) (err_code: jsval) (err_message: message)
  | TypeErr | SyntaxErr | NetworkErr

fun truthy :: "jsval \<Rightarrow> bool" where
  "truthy JUndef = False"
| "truthy JNull = False"
| "truthy (JBool b) = b"
| "truthy (JNum x) = (x \<noteq> NaN \<and> x \<noteq> Fin 0)"
| "truthy (JStr s) = (s \<noteq> [])"
| "truthy (JArr _) = True"
| "truthy (JObj _) = True"

fun nullish :: "jsval \<Rightarrow> bool" where
  "nullish JUndef = True"
| "nullish JNull = True"
| "nullish _ = False"

fun lookup_prop :: "jsval \<Rightarrow> string \<Rightarrow> jsval" where
  "lookup_prop (JObj fs) k = (case map_of fs k of Some v \<Rightarrow> v | None \<Rightarrow> JUndef)"
| "lookup_prop _ k = JUndef"

definition get_prop :: "jsval \<Rightarrow> string \<Rightarrow> js_error + jsval" where
  "get_prop v k = (if nullish v then Inl TypeErr else Inr (lookup_prop v k))"

definition opt_prop :: "jsval \<Rightarrow> string \<Rightarrow> jsval" where
  "opt_prop v k = (if nullish v then JUndef else lookup_prop v k)"

definition spread :: "jsval \<Rightarrow> (string \<times> jsval) list" where
  "spread v =
     (case v of
        JObj fs \<Rightarrow> fs
      | JArr vs \<Rightarrow> map (\<lambda>(i, w). (show_nat i, w)) (enumerate 0 vs)
      | JStr s \<Rightarrow> map (\<lambda>(i, c). (show_nat i, JStr [c])) (enumerate 0 s)
      | _ \<Rightarrow> [])"

text \<open>
  \<open>JSON.stringify\<close>, as the value that parsing its text gives back: properties that are
  \<open>undefined\<close> disappear, and \<open>undefined\<close> or \<open>NaN\<close> elsewhere becomes \<open>null\<close>.
\<close>

fun stringify :: "jsval \<Rightarrow> jsval" where
  "stringify JUndef = JNull"
| "stringify JNull = JNull"
| "stringify (JBool b) = JBool b"
| "stringify (JNum x) = (if x = NaN then JNull else JNum x)"
| "stringify (JStr s) = JStr s"
| "stringify (JArr vs) = JArr (map stringify vs)"
| "stringify (JObj fs) =
     JObj (map (\<lambda>(k, v). (k, stringify v)) (filter (\<lambda>(k, v). v \<noteq> JUndef) fs))"

section \<open>Requests and responses\<close>

datatype http_method = GET | POST | PUT | PATCH | DELETE

record http_request =
  rq_url :: string
  rq_method :: http_method
  rq_credentials :: string
  rq_contentType :: "string option"
  rq_csrf :: "jsval option"
  rq_body :: "jsval option"

record http_response =
  rs_status :: nat
  rs_json :: "jsval option"
  rs_text :: "string option"

datatype fetch_result = NetworkFailure | Response http_response

definition rs_ok :: "http_response \<Rightarrow> bool" where
  "rs_ok r \<longleftrightarrow> 200 \<le> rs_status r \<and> rs_status r \<le> 299"

definition get_request :: "string \<Rightarrow> http_request" where
  "get_request url = \<lparr>rq_url = url, rq_method = GET, rq_credentials = ''same-origin'',
     rq_contentType = None, rq_csrf = None, rq_body = None\<rparr>"

section \<open>Programs\<close>

datatype browser_op = CreateObjectURL | ClickDownload string | ScheduleRevokeURL

datatype 'a io =
    Done 'a
  | Raise js_error
  | ReadToken "jsval \<Rightarrow> 'a io"
  | WriteToken jsval "'a io"
  | Fetch http_request "fetch_result \<Rightarrow> 'a io"
  | Browser browser_op "'a io"

primrec bind :: "'a io \<Rightarrow> ('a \<Rightarrow> 'b io) \<Rightarrow> 'b io" where
  "bind (Done v) f = f v"
| "bind (Raise e) f = Raise e"
| "bind (ReadToken k) f = ReadToken (\<lambda>t. bind (k t) f)"
| "bind (WriteToken t m) f = WriteToken t (bind m f)"
| "bind (Fetch rq k) f = Fetch rq (\<lambda>res. bind (k res) f)"
| "bind (Browser b m) f = Browser b (bind m f)"

primrec try_catch :: "'a io \<Rightarrow> (js_error \<Rightarrow> 'a io) \<Rightarrow> 'a io" where
  "try_catch (Done v) h = Done v"
| "try_catch (Raise e) h = h e"
| "try_catch (ReadToken k) h = ReadToken (\<lambda>t. try_catch (k t) h)"
| "try_catch (WriteToken t m) h = WriteToken t (try_catch m h)"
| "try_catch (Fetch rq k) h = Fetch rq (\<lambda>res. try_catch (k res) h)"
| "try_catch (Browser b m) h = Browser b (try_catch m h)"

definition lift_sum :: "js_error + 'a \<Rightarrow> 'a io" where
  "lift_sum s = (case s of Inl e \<Rightarrow> Raise e | Inr v \<Rightarrow> Done v)"

section \<open>Running one program\<close>

record 'w client =
  csrfToken :: jsval
  exchanges :: "(http_request \<times> fetch_result) list"
  browser_log :: "browser_op list"
  net :: 'w

primrec run :: "('w \<Rightarrow> http_request \<Rightarrow> fetch_result \<times> 'w) \<Rightarrow> 'a io \<Rightarrow> 'w client
    \<Rightarrow> (js_error + 'a) \<times> 'w client" where
  "run srv (Done v) c = (Inr v, c)"
| "run srv (Raise e) c = (Inl e, c)"
| "run srv (ReadToken k) c = run srv (k (csrfToken c)) c"
| "run srv (WriteToken t m) c = run srv m (c\<lparr>csrfToken := t\<rparr>)"
| "run srv (Fetch rq k) c =
     (let (res, w) = srv (net c) rq
      in run srv (k res) (c\<lparr>exchanges := exchanges c @ [(rq, res)], net := w\<rparr>))"
| "run srv (Browser b m) c = run srv m (c\<lparr>browser_log := browser_log c @ [b]\<rparr>)"

section \<open>Interleaving\<close>

datatype thread =
    Running "jsval io"
  | Awaiting http_request "fetch_result \<Rightarrow> jsval io"
  | Ended "js_error + jsval"

datatype net_event = Sent http_request | Received http_request fetch_result

record pool =
  threads :: "thread list"
  cell :: jsval
  net_log :: "net_event list"

definition empty_pool :: pool where
  "empty_pool = \<lparr>threads = [], cell = JUndef, net_log = []\<rparr>"

inductive pool_step :: "(jsval io \<Rightarrow> bool) \<Rightarrow> pool \<Rightarrow> pool \<Rightarrow> bool" for calls where
  start: "calls m \<Longrightarrow> pool_step calls p (p\<lparr>threads := threads p @ [Running m]\<rparr>)"
| finish: "i < length (threads p) \<Longrightarrow> threads p ! i = Running (Done v) \<Longrightarrow>
    pool_step calls p (p\<lparr>threads := (threads p)[i := Ended (Inr v)]\<rparr>)"
| fail: "i < length (threads p) \<Longrightarrow> threads p ! i = Running (Raise e) \<Longrightarrow>
    pool_step calls p (p\<lparr>threads := (threads p)[i := Ended (Inl e)]\<rparr>)"
| read_cell: "i < length (threads p) \<Longrightarrow> threads p ! i = Running (ReadToken k) \<Longrightarrow>
    pool_step calls p (p\<lparr>threads := (threads p)[i := Running (k (cell p))]\<rparr>)"
| write_cell: "i < length (threads p) \<Longrightarrow> threads p ! i = Running (WriteToken t m) \<Longrightarrow>
    pool_step calls p (p\<lparr>threads := (threads p)[i := Running m], cell := t\<rparr>)"
| send: "i < length (threads p) \<Longrightarrow> threads p ! i = Running (Fetch rq k) \<Longrightarrow>
    pool_step calls p
      (p\<lparr>threads := (threads p)[i := Awaiting rq k], net_log := net_log p @ [Sent rq]\<rparr>)"
| receive: "i < length (threads p) \<Longrightarrow> threads p ! i = Awaiting rq k \<Longrightarrow>
    pool_step calls p
      (p\<lparr>threads := (threads p)[i := Running (k res)],
         net_log := net_log p @ [Received rq res]\<rparr>)"
| browser: "i < length (threads p) \<Longrightarrow> threads p ! i = Running (Browser b m) \<Longrightarrow>
    pool_step calls p (p\<lparr>threads := (threads p)[i := Running m]\<rparr>)"

inductive pool_reach :: "(jsval io \<Rightarrow> bool) \<Rightarrow> pool \<Rightarrow> bool" for calls where
  reach_empty: "pool_reach calls empty_pool"
| reach_step: "pool_reach calls p \<Longrightarrow> pool_step calls p q \<Longrightarrow> pool_reach calls q"

text \<open>An executable scheduler: a list of choices drives the pool, and reaches only reachable pools.\<close>

datatype choice = Start "jsval io" | Advance nat | Deliver nat fetch_result

fun pool_advance :: "nat \<Rightarrow> pool \<Rightarrow> pool option" where
  "pool_advance i p =
     (if length (threads p) \<le> i then None
      else case threads p ! i of
        Running (Done v) \<Rightarrow> Some (p\<lparr>threads := (threads p)[i := Ended (Inr v)]\<rparr>)
      | Running (Raise e) \<Rightarrow> Some (p\<lparr>threads := (threads p)[i := Ended (Inl e)]\<rparr>)
      | Running (ReadToken k) \<Rightarrow> Some (p\<lparr>threads := (threads p)[i := Running (k (cell p))]\<rparr>)
      | Running (WriteToken t m) \<Rightarrow> Some (p\<lparr>threads := (threads p)[i := Running m], cell := t\<rparr>)
      | Running (Fetch rq k) \<Rightarrow>
          Some (p\<lparr>threads := (threads p)[i := Awaiting rq k], net_log := net_log p @ [Sent rq]\<rparr>)
      | Running (Browser b m) \<Rightarrow> Some (p\<lparr>threads := (threads p)[i := Running m]\<rparr>)
      | _ \<Rightarrow> None)"

fun pool_choose :: "choice \<Rightarrow> pool \<Rightarrow> pool option" where
  "pool_choose (Start m) p = Some (p\<lparr>threads := threads p @ [Running m]\<rparr>)"
| "pool_choose (Advance i) p = pool_advance i p"
| "pool_choose (Deliver i res) p =
     (if length (threads p) \<le> i then None
      else case threads p ! i of
        Awaiting rq k \<Rightarrow> Some (p\<lparr>threads := (threads p)[i := Running (k res)],
          net_log := net_log p @ [Received rq res]\<rparr>)
      | _ \<Rightarrow> None)"

fun pool_exec :: "choice list \<Rightarrow> pool \<Rightarrow> pool option" where
  "pool_exec [] p = Some p"
| "pool_exec (ch # chs) p =
     (case pool_choose ch p of None \<Rightarrow> None | Some q \<Rightarrow> pool_exec chs q)"

lemma pool_choose_step:
  "pool_choose ch p = Some q \<Longrightarrow> (\<forall>m. ch = Start m \<longrightarrow> calls m) \<Longrightarrow> pool_step calls p q"
  by (cases ch)
    (auto simp: not_le intro: pool_step.intros split: if_splits thread.split_asm io.split_asm)

lemma pool_exec_reach:
  "pool_exec chs p = Some q \<Longrightarrow> pool_reach calls p \<Longrightarrow> (\<forall>m. Start m \<in> set chs \<longrightarrow> calls m) \<Longrightarrow>
     pool_reach calls q"
proof (induction chs arbitrary: p)
  case (Cons ch chs)
  then obtain r where r: "pool_choose ch p = Some r" and q: "pool_exec chs r = Some q"
    by (auto split: option.splits)
  have "pool_reach calls r"
    by (rule reach_step [OF Cons.prems(2) pool_choose_step [OF r]]) (use Cons.prems(3) in auto)
  with Cons.IH [OF q] Cons.prems(3) show ?case by simp
qed simp

section \<open>Programs: laws\<close>

lemma bind_Done [simp]: "bind m Done = m"
  by (induction m) auto

lemma bind_assoc: "bind (bind m f) g = bind m (\<lambda>v. bind (f v) g)"
  by (induction m) auto

lemma run_bind:
  "run srv (bind m f) c =
     (case run srv m c of (Inl e, c') \<Rightarrow> (Inl e, c') | (Inr v, c') \<Rightarrow> run srv (f v) c')"
  by (induction m arbitrary: c) (auto simp: Let_def split: prod.splits)

lemma run_try_catch:
  "run srv (try_catch m h) c =
     (case run srv m c of (Inl e, c') \<Rightarrow> run srv (h e) c' | (Inr v, c') \<Rightarrow> (Inr v, c'))"
  by (induction m arbitrary: c) (auto simp: Let_def split: prod.splits)

lemma lift_sum_simps [simp]: "lift_sum (Inl e) = Raise e" "lift_sum (Inr v) = Done v"
  by (simp_all add: lift_sum_def)

lemma run_exchanges_prefix: "\<exists>xs. exchanges (snd (run srv m c)) = exchanges c @ xs"
proof (induction m arbitrary: c)
  case (Fetch rq k)
  obtain res w where res: "srv (net c) rq = (res, w)" by fastforce
  let ?c = "c\<lparr>exchanges := exchanges c @ [(rq, res)], net := w\<rparr>"
  have "\<exists>xs. exchanges (snd (run srv (k res) ?c)) = exchanges ?c @ xs"
    using Fetch.IH [OF rangeI] by blast
  with res show ?case by auto
next
  case (ReadToken k)
  then show ?case using rangeI by auto
next
  case (WriteToken t m)
  then show ?case using WriteToken.IH [of "c\<lparr>csrfToken := t\<rparr>"] by simp
next
  case (Browser b m)
  then show ?case using Browser.IH [of "c\<lparr>browser_log := browser_log c @ [b]\<rparr>"] by simp
qed auto

section \<open>Which requests a program can send\<close>

text \<open>\<open>sends m rq\<close>: some run of \<open>m\<close> sends \<open>rq\<close>, whatever the token and the responses are.\<close>

primrec sends :: "'a io \<Rightarrow> http_request \<Rightarrow> bool" where
  "sends (Done v) rq = False"
| "sends (Raise e) rq = False"
| "sends (ReadToken k) rq = (\<exists>t. sends (k t) rq)"
| "sends (WriteToken t m) rq = sends m rq"
| "sends (Fetch rq' k) rq = (rq = rq' \<or> (\<exists>res. sends (k res) rq))"
| "sends (Browser b m) rq = sends m rq"

lemma sends_bind: "sends (bind m f) rq \<Longrightarrow> sends m rq \<or> (\<exists>v. sends (f v) rq)"
  by (induction m) auto

lemma sends_try_catch: "sends (try_catch m h) rq \<Longrightarrow> sends m rq \<or> (\<exists>e. sends (h e) rq)"
  by (induction m) auto

lemma sends_lift_sum [simp]: "\<not> sends (lift_sum s) rq"
  by (cases s) auto

lemma run_new_exchanges:
  "\<exists>xs. exchanges (snd (run srv m c)) = exchanges c @ xs \<and> (\<forall>x \<in> set xs. sends m (fst x))"
proof (induction m arbitrary: c)
  case (Fetch rq k)
  obtain res w where res: "srv (net c) rq = (res, w)" by fastforce
  let ?c = "c\<lparr>exchanges := exchanges c @ [(rq, res)], net := w\<rparr>"
  obtain xs where xs: "exchanges (snd (run srv (k res) ?c)) = exchanges ?c @ xs"
    "\<forall>x \<in> set xs. sends (k res) (fst x)"
    using Fetch.IH [OF rangeI [of k res], of ?c] by blast
  then show ?case
    by (intro exI [of _ "(rq, res) # xs"]) (auto simp: res)
next
  case (ReadToken k)
  obtain xs where "exchanges (snd (run srv (k (csrfToken c)) c)) = exchanges c @ xs"
    "\<forall>x \<in> set xs. sends (k (csrfToken c)) (fst x)"
    using ReadToken.IH [OF rangeI [of k "csrfToken c"], of c] by blast
  then show ?case by (intro exI [of _ xs]) auto
next
  case (WriteToken t m)
  then show ?case using WriteToken.IH [of "c\<lparr>csrfToken := t\<rparr>"] by simp
next
  case (Browser b m)
  then show ?case using Browser.IH [of "c\<lparr>browser_log := browser_log c @ [b]\<rparr>"] by simp
qed auto

end
