(* ===== verification/Api_Types.thy ===== *)
theory Api_Types
  imports Http_Io
begin

text \<open>
  The data types of \<open>web/src/api.ts\<close>: what the server's JSON is taken to be and what the client
  sends. Optional properties are \<open>option\<close>s, string-literal unions are datatypes with the text of
  each literal, numbers are \<^typ>\<open>js_number\<close>. The \<open>_js\<close> functions are the object literals
  that the client passes to \<open>JSON.stringify\<close>.
\<close>

section \<open>Application and session\<close>

record appMeta =
  am_app_name :: string
  am_environment :: string
  am_enable_acme :: bool
  am_enable_self_signed :: bool

record currentUser =
  us_username :: string
  us_authenticated :: bool
  us_reauthenticated :: bool

section \<open>Certificates\<close>

datatype cert_mode = Acme | SelfSigned

datatype challenge = Dns01 | Http01

datatype file_type = FCert | FChain | FFullchain | FPrivateKey

datatype key_type = Ec256 | Rsa2048 | Rsa3072

fun mode_text :: "cert_mode \<Rightarrow> string" where
  "mode_text Acme = ''acme''"
| "mode_text SelfSigned = ''self_signed''"

fun challenge_text :: "challenge \<Rightarrow> string" where
  "challenge_text Dns01 = ''dns-01''"
| "challenge_text Http01 = ''http-01''"

fun file_type_text :: "file_type \<Rightarrow> string" where
  "file_type_text FCert = ''cert''"
| "file_type_text FChain = ''chain''"
| "file_type_text FFullchain = ''fullchain''"
| "file_type_text FPrivateKey = ''private-key''"

fun key_type_text :: "key_type \<Rightarrow> string" where
  "key_type_text Ec256 = ''ec-256''"
| "key_type_text Rsa2048 = ''rsa-2048''"
| "key_type_text Rsa3072 = ''rsa-3072''"

record certificate =
  ct_id :: string
  ct_name :: string
  ct_mode :: cert_mode
  ct_primary_domain :: string
  ct_domains :: "string list"
  ct_key_type :: string
  ct_status :: string
  ct_output_directory :: string
  ct_issuer :: string
  ct_serial_number :: string
  ct_not_before :: "string option"
  ct_not_after :: "string option"
  ct_fingerprint_sha256 :: string
  ct_auto_renew_enabled :: bool
  ct_renew_before_days :: js_number
  ct_self_signed_valid_days :: "js_number option"
  ct_challenge_type :: "challenge option"
  ct_dns_credential_id :: "string option"
  ct_ca_directory_url :: "string option"
  ct_acme_email :: "string option"
  ct_create_renewed_marker :: bool
  ct_created_at :: string
  ct_updated_at :: string
  ct_last_renewed_at :: "string option"
  ct_last_error :: "string option"

record certificateFile =
  cf_type :: file_type
  cf_filename :: string
  cf_private :: bool
  cf_container_path :: string

record createCommon =
  cc_name :: string
  cc_primary_domain :: string
  cc_sans :: "string list"
  cc_key_type :: key_type
  cc_output_directory :: string
  cc_auto_renew_enabled :: bool
  cc_renew_before_days :: js_number
  cc_create_renewed_marker :: bool

record createSelfSigned = createCommon +
  cs_valid_days :: js_number

record createACME = createCommon +
  ca_challenge_type :: challenge
  ca_dns_credential_id :: string
  ca_ca_directory_url :: string
  ca_acme_email :: string

record certificateUpdate =
  cu_name :: string
  cu_auto_renew_enabled :: bool
  cu_renew_before_days :: js_number
  cu_create_renewed_marker :: bool

section \<open>DNS credentials\<close>

datatype source_mode = Encrypted | Environment

fun source_mode_text :: "source_mode \<Rightarrow> string" where
  "source_mode_text Encrypted = ''encrypted''"
| "source_mode_text Environment = ''environment''"

type_synonym string_record = "(string \<times> string) list"

record dnsProviderField =
  pf_name :: string
  pf_label :: string
  pf_required :: bool
  pf_secret :: bool
  pf_placeholder :: "string option"
  pf_description :: "string option"

record dnsProvider =
  dp_provider_code :: string
  dp_display_name :: string
  dp_acme_dns_code :: string
  dp_fields :: "dnsProviderField list"
  dp_documentation_hint :: string
  dp_custom :: bool

record dnsCredential =
  dc_id :: string
  dc_name :: string
  dc_provider :: string
  dc_acme_dns_code :: string
  dc_source_mode :: source_mode
  dc_masked_fields :: "string list"
  dc_environment_refs :: "string_record option"
  dc_created_at :: string
  dc_updated_at :: string

record dnsCredentialInput =
  di_name :: string
  di_provider :: string
  di_custom_acme_code :: "string option"
  di_source_mode :: source_mode
  di_values :: "string_record option"
  di_environment_refs :: "string_record option"

record dnsCredentialReference =
  cr_id :: string
  cr_name :: string
  cr_primary_domain :: string
  cr_status :: string

section \<open>Renewal policy and scheduler\<close>

record renewalPolicy =
  rp_enabled :: bool
  rp_cron_expression :: string
  rp_timezone :: string
  rp_max_concurrency :: js_number
  rp_retry_count :: js_number
  rp_retry_interval_seconds :: js_number
  rp_updated_at :: "string option"

record schedulerStatus =
  ss_running :: bool
  ss_last_run_at :: "string option"
  ss_next_run_at :: "string option"
  ss_last_error :: "string option"
  ss_active_runs :: js_number

record jobFilters =
  jf_certificateId :: "string option"
  jf_status :: "string option"
  jf_jobType :: "string option"
  jf_since :: "string option"

record jobRun =
  jr_id :: string
  jr_certificate_id :: "string option"
  jr_job_type :: string
  jr_status :: string
  jr_started_at :: string
  jr_finished_at :: "string option"
  jr_exit_code :: "js_number option"
  jr_sanitized_output :: "string option"
  jr_error_message :: "string option"
  jr_attempt :: js_number

record auditEvent =
  ae_id :: string
  ae_certificate_id :: "string option"
  ae_event_type :: string
  ae_actor :: string
  ae_client_ip :: "string option"
  ae_result :: string
  ae_detail :: "(string \<times> jsval) list option"
  ae_created_at :: string

record dashboardCounts =
  dn_total :: js_number
  dn_active :: js_number
  dn_expiring :: js_number
  dn_expired :: js_number
  dn_failed :: js_number

record dashboard =
  db_counts :: dashboardCounts
  db_recent_jobs :: "jobRun list"
  db_expiring_certificates :: "certificate list"

record systemInfo =
  si_application_version :: string
  si_go_version :: string
  si_acme_sh_version :: string
  si_openssl_version :: string
  si_sqlite_status :: string
  si_data_directory :: string
  si_certificate_directory :: string
  si_timezone :: string
  si_scheduler :: schedulerStatus

section \<open>Request bodies\<close>

definition opt_js :: "('a \<Rightarrow> jsval) \<Rightarrow> 'a option \<Rightarrow> jsval" where
  "opt_js f x = (case x of None \<Rightarrow> JUndef | Some v \<Rightarrow> f v)"

definition record_js :: "string_record \<Rightarrow> jsval" where
  "record_js kvs = JObj (map (\<lambda>(k, v). (k, JStr v)) kvs)"

definition common_js :: "'a createCommon_scheme \<Rightarrow> (string \<times> jsval) list" where
  "common_js v =
     [(''name'', JStr (cc_name v)), (''primary_domain'', JStr (cc_primary_domain v)),
      (''sans'', JArr (map JStr (cc_sans v))), (''key_type'', JStr (key_type_text (cc_key_type v))),
      (''output_directory'', JStr (cc_output_directory v)),
      (''auto_renew_enabled'', JBool (cc_auto_renew_enabled v)),
      (''renew_before_days'', JNum (cc_renew_before_days v)),
      (''create_renewed_marker'', JBool (cc_create_renewed_marker v))]"

definition self_signed_js :: "createSelfSigned \<Rightarrow> jsval" where
  "self_signed_js v =
     JObj (common_js v @ [(''mode'', JStr ''self_signed''), (''valid_days'', JNum (cs_valid_days v))])"

definition acme_js :: "createACME \<Rightarrow> jsval" where
  "acme_js v =
     JObj (common_js v @
       [(''mode'', JStr ''acme''), (''challenge_type'', JStr (challenge_text (ca_challenge_type v))),
        (''dns_credential_id'', JStr (ca_dns_credential_id v)),
        (''ca_directory_url'', JStr (ca_ca_directory_url v)),
        (''acme_email'', JStr (ca_acme_email v))])"

definition certificateUpdate_js :: "certificateUpdate \<Rightarrow> jsval" where
  "certificateUpdate_js v =
     JObj [(''name'', JStr (cu_name v)), (''auto_renew_enabled'', JBool (cu_auto_renew_enabled v)),
       (''renew_before_days'', JNum (cu_renew_before_days v)),
       (''create_renewed_marker'', JBool (cu_create_renewed_marker v))]"

definition dnsCredentialInput_js :: "dnsCredentialInput \<Rightarrow> jsval" where
  "dnsCredentialInput_js v =
     JObj [(''name'', JStr (di_name v)), (''provider'', JStr (di_provider v)),
       (''custom_acme_code'', opt_js JStr (di_custom_acme_code v)),
       (''source_mode'', JStr (source_mode_text (di_source_mode v))),
       (''values'', opt_js record_js (di_values v)),
       (''environment_refs'', opt_js record_js (di_environment_refs v))]"

definition renewalPolicy_js :: "renewalPolicy \<Rightarrow> jsval" where
  "renewalPolicy_js p =
     JObj [(''enabled'', JBool (rp_enabled p)), (''cron_expression'', JStr (rp_cron_expression p)),
       (''timezone'', JStr (rp_timezone p)), (''max_concurrency'', JNum (rp_max_concurrency p)),
       (''retry_count'', JNum (rp_retry_count p)),
       (''retry_interval_seconds'', JNum (rp_retry_interval_seconds p)),
       (''updated_at'', opt_js JStr (rp_updated_at p))]"

end
