(* ===== verification/Api.thy ===== *)
theory Api
  imports Api_Types
begin

text \<open>
  \<open>web/src/api.ts\<close>: the fetch helpers with their error handling, the CSRF token cache, and every
  operation the pages call. TypeScript types are erased, so an operation delivers the
  \<^typ>\<open>jsval\<close> it got; \<open>Promise<void>\<close> delivers \<^const>\<open>JUndef\<close>.
\<close>

section \<open>Fetch helpers\<close>

definition apiFailure :: "http_response \<Rightarrow> message \<Rightarrow> js_error" where
  "apiFailure r fallback =
     (let body = (case rs_json r of Some v \<Rightarrow> v | None \<Rightarrow> JObj []) in
      case get_prop body ''error'' of
        Inl e \<Rightarrow> e
      | Inr err \<Rightarrow>
          (let code = opt_prop err ''code''; msg = opt_prop err ''message''
           in ApiError (rs_status r)
                (if nullish code then JStr ''REQUEST_FAILED'' else code)
                (if nullish msg then fallback else MsgServer msg)))"

definition readJson :: "http_response \<Rightarrow> jsval io" where
  "readJson r = (case rs_json r of Some v \<Rightarrow> Done v | None \<Rightarrow> Raise SyntaxErr)"

definition request :: "http_request \<Rightarrow> jsval io" where
  "request rq = Fetch rq (\<lambda>res. case res of
     NetworkFailure \<Rightarrow> Raise NetworkErr
   | Response r \<Rightarrow> if \<not> rs_ok r then Raise (apiFailure r MsgRequestFailed) else readJson r)"

definition csrf_request :: http_request where
  "csrf_request = get_request ''/api/v1/auth/csrf''"

definition getCSRFToken :: "jsval io" where
  "getCSRFToken = ReadToken (\<lambda>csrfToken.
     if truthy csrfToken then Done csrfToken
     else bind (request csrf_request) (\<lambda>result.
       bind (lift_sum (get_prop result ''csrf_token'')) (\<lambda>t. WriteToken t (Done t))))"

definition json_request :: "http_method \<Rightarrow> string \<Rightarrow> jsval \<Rightarrow> jsval option \<Rightarrow> http_request" where
  "json_request m url token body = \<lparr>rq_url = url, rq_method = m, rq_credentials = ''same-origin'',
     rq_contentType = Some ''application/json'', rq_csrf = Some token,
     rq_body = map_option stringify body\<rparr>"

definition writeJson :: "string \<Rightarrow> jsval \<Rightarrow> jsval io" where
  "writeJson url body = bind getCSRFToken (\<lambda>token.
     request (json_request POST url token (Some (if nullish body then JObj [] else body))))"

definition writeMethod :: "http_method \<Rightarrow> string \<Rightarrow> jsval \<Rightarrow> jsval io" where
  "writeMethod m url body = bind getCSRFToken (\<lambda>token.
     Fetch (json_request m url token (if body = JUndef then None else Some body)) (\<lambda>res. case res of
       NetworkFailure \<Rightarrow> Raise NetworkErr
     | Response r \<Rightarrow>
         if \<not> rs_ok r then Raise (apiFailure r MsgRequestFailed)
         else if rs_status r = 204 then Done JUndef
         else readJson r))"

definition textFailure :: "http_response \<Rightarrow> js_error" where
  "textFailure r = ApiError (rs_status r) (JStr ''REQUEST_FAILED'')
     (case rs_json r of
        None \<Rightarrow> MsgRequestFailed
      | Some body \<Rightarrow>
          (case get_prop body ''error'' of
             Inl _ \<Rightarrow> MsgRequestFailed
           | Inr err \<Rightarrow>
               (let msg = opt_prop err ''message''
                in if nullish msg then MsgRequestFailed else MsgServer msg)))"

definition requestText :: "http_request \<Rightarrow> jsval io" where
  "requestText rq = Fetch rq (\<lambda>res. case res of
     NetworkFailure \<Rightarrow> Raise NetworkErr
   | Response r \<Rightarrow>
       if \<not> rs_ok r then Raise (textFailure r)
       else (case rs_text r of Some s \<Rightarrow> Done (JStr s) | None \<Rightarrow> Raise NetworkErr))"

definition get_items :: "string \<Rightarrow> jsval io" where
  "get_items url = bind (request (get_request url)) (\<lambda>result. lift_sum (get_prop result ''items''))"

definition void :: "jsval io \<Rightarrow> jsval io" where
  "void m = bind m (\<lambda>_. Done JUndef)"

section \<open>Session and lists\<close>

definition getMeta :: "jsval io" where
  "getMeta = request (get_request ''/api/v1/meta'')"

definition getCurrentUser :: "jsval io" where
  "getCurrentUser = try_catch (request (get_request ''/api/v1/auth/me''))
     (\<lambda>error. case error of
        ApiError status _ _ \<Rightarrow> if status = 401 then Done JNull else Raise error
      | _ \<Rightarrow> Raise error)"

definition login :: "string \<Rightarrow> string \<Rightarrow> jsval io" where
  "login username password =
     bind (writeJson ''/api/v1/auth/login''
             (JObj [(''username'', JStr username), (''password'', JStr password)]))
       (\<lambda>result. Done (JObj (assoc_upd ''reauthenticated'' (JBool False) (spread result))))"

definition logout :: "jsval io" where
  "logout = void (writeJson ''/api/v1/auth/logout'' JUndef)"

definition reauthenticate :: "string \<Rightarrow> jsval io" where
  "reauthenticate password =
     void (writeJson ''/api/v1/auth/reauthenticate'' (JObj [(''password'', JStr password)]))"

definition listCertificates :: "jsval io" where
  "listCertificates = get_items ''/api/v1/certificates''"

definition getDashboard :: "jsval io" where
  "getDashboard = request (get_request ''/api/v1/dashboard'')"

definition query_param :: "string \<Rightarrow> string option \<Rightarrow> (string \<times> string) list" where
  "query_param k v = (case v of None \<Rightarrow> [] | Some s \<Rightarrow> if s = [] then [] else [(k, s)])"

definition jobs_query :: "jobFilters \<Rightarrow> (string \<times> string) list" where
  "jobs_query filters =
     query_param ''certificate_id'' (jf_certificateId filters)
     @ query_param ''status'' (jf_status filters)
     @ query_param ''job_type'' (jf_jobType filters)
     @ query_param ''since'' (jf_since filters)"

definition listJobs :: "jobFilters \<Rightarrow> jsval io" where
  "listJobs filters = get_items (''/api/v1/jobs?'' @ urlSearchParams (jobs_query filters))"

definition listAuditEvents :: "string option \<Rightarrow> jsval io" where
  "listAuditEvents certificateId =
     get_items (''/api/v1/audit-events?'' @
       urlSearchParams (query_param ''certificate_id'' certificateId))"

definition getSystemInfo :: "jsval io" where
  "getSystemInfo = request (get_request ''/api/v1/system/info'')"

section \<open>DNS credentials and the renewal policy\<close>

definition credential_url :: "string \<Rightarrow> string" where
  "credential_url cid = ''/api/v1/dns-credentials/'' @ encodeURIComponent cid"

definition listDNSProviders :: "jsval io" where
  "listDNSProviders = get_items ''/api/v1/dns-providers''"

definition listDNSCredentials :: "jsval io" where
  "listDNSCredentials = get_items ''/api/v1/dns-credentials''"

definition createDNSCredential :: "dnsCredentialInput \<Rightarrow> jsval io" where
  "createDNSCredential value = writeJson ''/api/v1/dns-credentials'' (dnsCredentialInput_js value)"

definition updateDNSCredential :: "string \<Rightarrow> dnsCredentialInput \<Rightarrow> jsval io" where
  "updateDNSCredential cid value = writeMethod PATCH (credential_url cid) (dnsCredentialInput_js value)"

definition renameDNSCredential :: "string \<Rightarrow> string \<Rightarrow> jsval io" where
  "renameDNSCredential cid name =
     writeMethod PATCH (credential_url cid) (JObj [(''name'', JStr name)])"

definition testDNSCredential :: "string \<Rightarrow> jsval io" where
  "testDNSCredential cid = void (writeJson (credential_url cid @ ''/test'') JUndef)"

definition listDNSCredentialReferences :: "string \<Rightarrow> jsval io" where
  "listDNSCredentialReferences cid = get_items (credential_url cid @ ''/references'')"

definition deleteDNSCredential :: "string \<Rightarrow> jsval io" where
  "deleteDNSCredential cid = void (writeMethod DELETE (credential_url cid) JUndef)"

definition getRenewalPolicy :: "jsval io" where
  "getRenewalPolicy = request (get_request ''/api/v1/renewal-policy'')"

definition updateRenewalPolicy :: "renewalPolicy \<Rightarrow> jsval io" where
  "updateRenewalPolicy policy = writeMethod PUT ''/api/v1/renewal-policy'' (renewalPolicy_js policy)"

definition runRenewalNow :: "jsval io" where
  "runRenewalNow = void (writeJson ''/api/v1/renewal-policy/run-now'' JUndef)"

section \<open>Certificates\<close>

definition certificate_url :: "string \<Rightarrow> string" where
  "certificate_url cid = ''/api/v1/certificates/'' @ encodeURIComponent cid"

definition createSelfSignedCertificate :: "createSelfSigned \<Rightarrow> jsval io" where
  "createSelfSignedCertificate value = writeJson ''/api/v1/certificates'' (self_signed_js value)"

definition createACMECertificate :: "createACME \<Rightarrow> jsval io" where
  "createACMECertificate value = writeJson ''/api/v1/certificates'' (acme_js value)"

definition renewCertificate :: "string \<Rightarrow> bool \<Rightarrow> jsval io" where
  "renewCertificate cid force =
     writeJson (certificate_url cid @ ''/'' @ (if force then ''force-renew'' else ''renew'')) JUndef"

definition issueCertificate :: "string \<Rightarrow> jsval io" where
  "issueCertificate cid = writeJson (certificate_url cid @ ''/issue'') JUndef"

definition revokeCertificate :: "string \<Rightarrow> string \<Rightarrow> jsval io" where
  "revokeCertificate cid password =
     writeJson (certificate_url cid @ ''/revoke'') (JObj [(''password'', JStr password)])"

definition deleteCertificate :: "string \<Rightarrow> string \<Rightarrow> string \<Rightarrow> bool \<Rightarrow> jsval io" where
  "deleteCertificate cid password confirmName deleteFiles =
     void (writeMethod DELETE (certificate_url cid)
       (JObj [(''password'', JStr password), (''confirm_name'', JStr confirmName),
              (''delete_files'', JBool deleteFiles)]))"

definition getCertificate :: "string \<Rightarrow> jsval io" where
  "getCertificate cid = request (get_request (certificate_url cid))"

definition updateCertificate :: "string \<Rightarrow> certificateUpdate \<Rightarrow> jsval io" where
  "updateCertificate cid value = writeMethod PATCH (certificate_url cid) (certificateUpdate_js value)"

definition listCertificateFiles :: "string \<Rightarrow> jsval io" where
  "listCertificateFiles cid = get_items (certificate_url cid @ ''/files'')"

definition getCertificateFile :: "string \<Rightarrow> file_type \<Rightarrow> jsval io" where
  "getCertificateFile cid type =
     requestText (get_request
       (certificate_url cid @ ''/files/'' @ encodeURIComponent (file_type_text type)))"

definition revealPrivateKey :: "string \<Rightarrow> string \<Rightarrow> jsval io" where
  "revealPrivateKey cid password = bind getCSRFToken (\<lambda>token.
     requestText (json_request POST (certificate_url cid @ ''/files/private-key/reveal'') token
       (Some (JObj [(''password'', JStr password)]))))"

definition auditPrivateKeyCopy :: "string \<Rightarrow> jsval io" where
  "auditPrivateKeyCopy cid =
     void (writeMethod POST (certificate_url cid @ ''/files/private-key/copy-audit'') JUndef)"

definition downloadCertificateArchive :: "string \<Rightarrow> bool \<Rightarrow> string \<Rightarrow> jsval io" where
  "downloadCertificateArchive cid includePrivateKey password = bind getCSRFToken (\<lambda>token.
     Fetch (json_request POST (certificate_url cid @ ''/files/archive'') token
         (Some (JObj [(''include_private_key'', JBool includePrivateKey),
                      (''password'', JStr password)]))) (\<lambda>res. case res of
       NetworkFailure \<Rightarrow> Raise NetworkErr
     | Response r \<Rightarrow>
         if \<not> rs_ok r then Raise (apiFailure r MsgArchiveFailed)
         else (case rs_text r of
             None \<Rightarrow> Raise NetworkErr
           | Some blob \<Rightarrow>
               Browser CreateObjectURL (Browser (ClickDownload ''certificate-bundle.zip'')
                 (Browser ScheduleRevokeURL (Done JUndef))))))"

definition certificateDownloadURL :: "string \<Rightarrow> file_type \<Rightarrow> string" where
  "certificateDownloadURL cid type =
     certificate_url cid @ ''/files/'' @ encodeURIComponent (file_type_text type) @ ''/download''"

section \<open>All operations\<close>

datatype api_call =
    GetMeta | GetCurrentUser | Login string string | Logout | Reauthenticate string
  | ListCertificates | GetDashboard | ListJobs jobFilters | ListAuditEvents "string option"
  | GetSystemInfo | CreateSelfSigned createSelfSigned | CreateACME createACME
  | ListDNSProviders | ListDNSCredentials | CreateDNSCredential dnsCredentialInput
  | UpdateDNSCredential string dnsCredentialInput | RenameDNSCredential string string
  | TestDNSCredential string | ListDNSCredentialReferences string | DeleteDNSCredential string
  | GetRenewalPolicy | UpdateRenewalPolicy renewalPolicy | RunRenewalNow
  | RenewCertificate string bool | IssueCertificate string | RevokeCertificate string string
  | DeleteCertificate string string string bool | GetCertificate string
  | UpdateCertificate string certificateUpdate | ListCertificateFiles string
  | GetCertificateFile string file_type | RevealPrivateKey string string
  | AuditPrivateKeyCopy string | DownloadCertificateArchive string bool string

fun api_program :: "api_call \<Rightarrow> jsval io" where
  "api_program GetMeta = getMeta"
| "api_program GetCurrentUser = getCurrentUser"
| "api_program (Login u p) = login u p"
| "api_program Logout = logout"
| "api_program (Reauthenticate p) = reauthenticate p"
| "api_program ListCertificates = listCertificates"
| "api_program GetDashboard = getDashboard"
| "api_program (ListJobs f) = listJobs f"
| "api_program (ListAuditEvents c) = listAuditEvents c"
| "api_program GetSystemInfo = getSystemInfo"
| "api_program (CreateSelfSigned v) = createSelfSignedCertificate v"
| "api_program (CreateACME v) = createACMECertificate v"
| "api_program ListDNSProviders = listDNSProviders"
| "api_program ListDNSCredentials = listDNSCredentials"
| "api_program (CreateDNSCredential v) = createDNSCredential v"
| "api_program (UpdateDNSCredential i v) = updateDNSCredential i v"
| "api_program (RenameDNSCredential i n) = renameDNSCredential i n"
| "api_program (TestDNSCredential i) = testDNSCredential i"
| "api_program (ListDNSCredentialReferences i) = listDNSCredentialReferences i"
| "api_program (DeleteDNSCredential i) = deleteDNSCredential i"
| "api_program GetRenewalPolicy = getRenewalPolicy"
| "api_program (UpdateRenewalPolicy p) = updateRenewalPolicy p"
| "api_program RunRenewalNow = runRenewalNow"
| "api_program (RenewCertificate i f) = renewCertificate i f"
| "api_program (IssueCertificate i) = issueCertificate i"
| "api_program (RevokeCertificate i p) = revokeCertificate i p"
| "api_program (DeleteCertificate i p n f) = deleteCertificate i p n f"
| "api_program (GetCertificate i) = getCertificate i"
| "api_program (UpdateCertificate i v) = updateCertificate i v"
| "api_program (ListCertificateFiles i) = listCertificateFiles i"
| "api_program (GetCertificateFile i t) = getCertificateFile i t"
| "api_program (RevealPrivateKey i p) = revealPrivateKey i p"
| "api_program (AuditPrivateKeyCopy i) = auditPrivateKeyCopy i"
| "api_program (DownloadCertificateArchive i k p) = downloadCertificateArchive i k p"

lemmas [api_defs] =
  getMeta_def getCurrentUser_def login_def logout_def reauthenticate_def listCertificates_def
  getDashboard_def listJobs_def listAuditEvents_def getSystemInfo_def
  createSelfSignedCertificate_def createACMECertificate_def listDNSProviders_def
  listDNSCredentials_def createDNSCredential_def updateDNSCredential_def renameDNSCredential_def
  testDNSCredential_def listDNSCredentialReferences_def deleteDNSCredential_def
  getRenewalPolicy_def updateRenewalPolicy_def runRenewalNow_def renewCertificate_def
  issueCertificate_def revokeCertificate_def deleteCertificate_def getCertificate_def
  updateCertificate_def listCertificateFiles_def getCertificateFile_def revealPrivateKey_def
  auditPrivateKeyCopy_def downloadCertificateArchive_def

section \<open>Laws of the fetch helpers\<close>

lemma sends_readJson [simp]: "\<not> sends (readJson r) rq"
  by (simp add: readJson_def split: option.split)

lemma sends_request: "sends (request rq') rq \<Longrightarrow> rq = rq'"
  unfolding request_def sends.simps
  by (elim disjE exE) (auto split: fetch_result.split_asm if_splits)

lemma sends_requestText: "sends (requestText rq') rq \<Longrightarrow> rq = rq'"
  unfolding requestText_def sends.simps
  by (elim disjE exE) (auto split: fetch_result.split_asm if_splits option.split_asm)

lemma sends_getCSRFToken: "sends getCSRFToken rq \<Longrightarrow> rq = csrf_request"
  by (auto simp: getCSRFToken_def dest!: sends_bind sends_request split: if_splits)

lemma run_request_ok:
  assumes "run srv (request rq) c = (Inr v, c')"
  obtains r where "exchanges c' = exchanges c @ [(rq, Response r)]" "rs_ok r"
proof -
  obtain res w where res: "srv (net c) rq = (res, w)" by fastforce
  show ?thesis
    using assms that res
    by (cases res) (auto simp: request_def readJson_def split: if_splits option.splits)
qed

lemma run_writeJson_ok:
  assumes "run srv (writeJson url b) c = (Inr v, c')"
  obtains xs t r where
    "exchanges c' = exchanges c @ xs @ [(json_request POST url t (Some (if nullish b then JObj [] else b)), Response r)]"
    "rs_ok r"
proof -
  let ?rq = "\<lambda>t. json_request POST url t (Some (if nullish b then JObj [] else b))"
  obtain t c1 where t: "run srv getCSRFToken c = (Inr t, c1)"
    and w: "run srv (request (?rq t)) c1 = (Inr v, c')"
    using assms by (auto simp: writeJson_def run_bind split: prod.splits sum.splits)
  obtain xs where "exchanges c1 = exchanges c @ xs"
    using run_exchanges_prefix [of srv getCSRFToken c] t by auto
  moreover obtain r where "exchanges c' = exchanges c1 @ [(?rq t, Response r)]" "rs_ok r"
    using w by (rule run_request_ok)
  ultimately show ?thesis using that [of xs t r] by simp
qed

end
