(* ===== verification/Csrf.thy ===== *)
theory Csrf
  imports Api
begin

text \<open>
  The CSRF discipline of \<open>web/src/api.ts\<close>. \<open>issued\<close> collects the tokens that successful
  responses to the token request have carried; \<open>token_wp\<close> is a weakest precondition over programs
  that tracks a growing set of issued tokens, and the interleaving of any number of operations
  keeps the invariant that every request other than a GET carries an issued token.
\<close>

section \<open>Definitions\<close>

definition issued_by :: "http_request \<Rightarrow> fetch_result \<Rightarrow> jsval set" where
  "issued_by rq res =
     (case res of
        NetworkFailure \<Rightarrow> {}
      | Response r \<Rightarrow>
          (case rs_json r of
             Some v \<Rightarrow> if rq = csrf_request \<and> rs_ok r \<and> \<not> nullish v
                       then {lookup_prop v ''csrf_token''} else {}
           | None \<Rightarrow> {}))"

fun issued :: "net_event list \<Rightarrow> jsval set" where
  "issued [] = {}"
| "issued (Sent rq # es) = issued es"
| "issued (Received rq res # es) = issued_by rq res \<union> issued es"

definition carries_token :: "jsval set \<Rightarrow> http_request \<Rightarrow> bool" where
  "carries_token T rq \<longleftrightarrow> rq_method rq = GET \<or> (\<exists>t \<in> T. rq_csrf rq = Some t)"

primrec token_wp :: "'a io \<Rightarrow> jsval set \<Rightarrow> ('a \<Rightarrow> jsval set \<Rightarrow> bool) \<Rightarrow> bool" where
  "token_wp (Done v) T Q = (\<forall>T'. T \<subseteq> T' \<longrightarrow> Q v T')"
| "token_wp (Raise e) T Q = True"
| "token_wp (ReadToken k) T Q =
     (\<forall>T'. T \<subseteq> T' \<longrightarrow> (\<forall>v \<in> insert JUndef T'. token_wp (k v) T' Q))"
| "token_wp (WriteToken t m) T Q = (t \<in> T \<and> token_wp m T Q)"
| "token_wp (Fetch rq k) T Q =
     (carries_token T rq \<and> (\<forall>res. \<forall>T'. T \<union> issued_by rq res \<subseteq> T' \<longrightarrow> token_wp (k res) T' Q))"
| "token_wp (Browser b m) T Q = token_wp m T Q"

definition sent_ok :: "net_event list \<Rightarrow> bool" where
  "sent_ok es \<longleftrightarrow> (\<forall>xs rq ys. es = xs @ Sent rq # ys \<longrightarrow> carries_token (issued xs) rq)"

abbreviation any_result :: "'a \<Rightarrow> jsval set \<Rightarrow> bool" where
  "any_result v T \<equiv> True"

definition token_safe :: "jsval io \<Rightarrow> bool" where
  "token_safe m \<longleftrightarrow> (\<forall>T. token_wp m T any_result)"

fun thread_ok :: "jsval set \<Rightarrow> thread \<Rightarrow> bool" where
  "thread_ok T (Running m) = token_wp m T any_result"
| "thread_ok T (Awaiting rq k) =
     (\<forall>res. \<forall>T'. T \<union> issued_by rq res \<subseteq> T' \<longrightarrow> token_wp (k res) T' any_result)"
| "thread_ok T (Ended r) = True"

definition pool_inv :: "pool \<Rightarrow> bool" where
  "pool_inv p \<longleftrightarrow>
     sent_ok (net_log p) \<and> cell p \<in> insert JUndef (issued (net_log p))
     \<and> (\<forall>th \<in> set (threads p). thread_ok (issued (net_log p)) th)"

section \<open>Issued tokens grow\<close>

lemma issued_append [simp]: "issued (xs @ ys) = issued xs \<union> issued ys"
  by (induction xs rule: issued.induct) auto

lemma carries_token_mono: "carries_token T rq \<Longrightarrow> T \<subseteq> T' \<Longrightarrow> carries_token T' rq"
  by (auto simp: carries_token_def)

lemma token_wp_mono: "token_wp m T Q \<Longrightarrow> T \<subseteq> T' \<Longrightarrow> token_wp m T' Q"
proof (induction m arbitrary: T T')
  case (Fetch rq k)
  then show ?case by (auto intro: carries_token_mono)
next
  case (WriteToken t m)
  then show ?case by (meson subsetD token_wp.simps(4))
next
  case (Browser b m)
  then show ?case by (metis token_wp.simps(6))
qed auto

lemma token_wp_conseq:
  "token_wp m T Q \<Longrightarrow> (\<And>v T'. T \<subseteq> T' \<Longrightarrow> Q v T' \<Longrightarrow> R v T') \<Longrightarrow> token_wp m T R"
proof (induction m arbitrary: T)
  case (ReadToken k)
  then show ?case by simp
next
  case (Fetch rq k)
  then show ?case by simp (meson rangeI order_trans Un_subset_iff)
qed auto

lemma token_wp_bind:
  "token_wp m T (\<lambda>v T'. token_wp (f v) T' Q) \<Longrightarrow> token_wp (bind m f) T Q"
  by (induction m arbitrary: T) auto

lemma token_wp_try_catch:
  "token_wp m T Q \<Longrightarrow> (\<And>e T'. T \<subseteq> T' \<Longrightarrow> token_wp (h e) T' Q) \<Longrightarrow> token_wp (try_catch m h) T Q"
proof (induction m arbitrary: T)
  case (ReadToken k)
  then show ?case by simp
next
  case (Fetch rq k)
  then show ?case by simp (meson rangeI order_trans Un_subset_iff)
qed auto

section \<open>The interleaving keeps the invariant\<close>

lemma thread_ok_mono: "thread_ok T th \<Longrightarrow> T \<subseteq> T' \<Longrightarrow> thread_ok T' th"
  by (cases th) (auto intro: token_wp_mono)

lemma sent_ok_snoc:
  "sent_ok (es @ [e]) \<longleftrightarrow> sent_ok es \<and> (case e of Sent rq \<Rightarrow> carries_token (issued es) rq | _ \<Rightarrow> True)"
proof (intro iffI conjI)
  assume s: "sent_ok (es @ [e])"
  show "sent_ok es"
    unfolding sent_ok_def
  proof (intro allI impI)
    fix xs rq ys
    assume "es = xs @ Sent rq # ys"
    then have "es @ [e] = xs @ Sent rq # (ys @ [e])" by simp
    then show "carries_token (issued xs) rq" using s unfolding sent_ok_def by blast
  qed
  show "case e of Sent rq \<Rightarrow> carries_token (issued es) rq | _ \<Rightarrow> True"
    using s by (auto simp: sent_ok_def split: net_event.split)
next
  assume s: "sent_ok es \<and> (case e of Sent rq \<Rightarrow> carries_token (issued es) rq | _ \<Rightarrow> True)"
  show "sent_ok (es @ [e])"
    unfolding sent_ok_def
  proof (intro allI impI)
    fix xs rq ys
    assume eq: "es @ [e] = xs @ Sent rq # ys"
    show "carries_token (issued xs) rq"
    proof (cases ys rule: rev_cases)
      case Nil
      with eq s show ?thesis by auto
    next
      case (snoc ys' y)
      with eq have "es = xs @ Sent rq # ys'" by auto
      with s show ?thesis unfolding sent_ok_def by blast
    qed
  qed
qed

lemma pool_inv_update:
  assumes inv: "pool_inv p" and i: "i < length (threads p)"
    and th: "thread_ok T' th"
    and T': "T' = issued (net_log q)" "issued (net_log p) \<subseteq> T'"
    and q: "threads q = (threads p)[i := th]" "cell q \<in> insert JUndef T'" "sent_ok (net_log q)"
  shows "pool_inv q"
proof -
  have "thread_ok T' u" if "u \<in> set (threads q)" for u
    using that inv th T'(2) set_update_subset_insert [of "threads p" i th]
    by (auto simp: pool_inv_def q(1) intro: thread_ok_mono)
  with q T' show ?thesis by (auto simp: pool_inv_def)
qed

lemma pool_inv_thread: "pool_inv p \<Longrightarrow> i < length (threads p) \<Longrightarrow>
    thread_ok (issued (net_log p)) (threads p ! i)"
  by (auto simp: pool_inv_def)

lemma pool_step_inv:
  assumes "pool_step calls p q" and inv: "pool_inv p" and safe: "\<And>m. calls m \<Longrightarrow> token_safe m"
  shows "pool_inv q"
  using assms(1)
proof (cases rule: pool_step.cases)
  case (start m)
  then show ?thesis using inv safe [of m] by (auto simp: pool_inv_def token_safe_def)
next
  case (finish i v)
  then show ?thesis
    using inv by (intro pool_inv_update [OF inv, of i]) (auto simp: pool_inv_def)
next
  case (fail i e)
  then show ?thesis
    using inv by (intro pool_inv_update [OF inv, of i]) (auto simp: pool_inv_def)
next
  case (read_cell i k)
  then have "token_wp (k (cell p)) (issued (net_log p)) any_result"
    using pool_inv_thread [OF inv, of i] inv by (auto simp: pool_inv_def)
  with read_cell show ?thesis
    using inv by (intro pool_inv_update [OF inv, of i]) (auto simp: pool_inv_def)
next
  case (write_cell i t m)
  then have "t \<in> issued (net_log p)" "token_wp m (issued (net_log p)) any_result"
    using pool_inv_thread [OF inv, of i] by auto
  with write_cell show ?thesis
    using inv by (intro pool_inv_update [OF inv, of i]) (auto simp: pool_inv_def)
next
  case (send i rq k)
  then have "carries_token (issued (net_log p)) rq"
    "\<forall>res. \<forall>T'. issued (net_log p) \<union> issued_by rq res \<subseteq> T' \<longrightarrow> token_wp (k res) T' any_result"
    using pool_inv_thread [OF inv, of i] by auto
  with send show ?thesis
    using inv
    by (intro pool_inv_update [OF inv, of i]) (auto simp: pool_inv_def sent_ok_snoc)
next
  case (receive i rq k res)
  then have "token_wp (k res) (issued (net_log p) \<union> issued_by rq res) any_result"
    using pool_inv_thread [OF inv, of i] by auto
  with receive show ?thesis
    using inv
    by (intro pool_inv_update [OF inv, of i]) (auto simp: pool_inv_def sent_ok_snoc)
next
  case (browser i b m)
  then have "token_wp m (issued (net_log p)) any_result"
    using pool_inv_thread [OF inv, of i] by auto
  with browser show ?thesis
    using inv by (intro pool_inv_update [OF inv, of i]) (auto simp: pool_inv_def)
qed

lemma pool_reach_inv:
  assumes "pool_reach calls p" and "\<And>m. calls m \<Longrightarrow> token_safe m"
  shows "pool_inv p"
  using assms(1)
proof (induction rule: pool_reach.induct)
  case reach_empty
  show ?case by (simp add: pool_inv_def empty_pool_def sent_ok_def)
next
  case (reach_step p q)
  then show ?case using pool_step_inv assms(2) by blast
qed

section \<open>Every operation is safe\<close>

lemma token_wp_readJson: "(\<And>v T'. T \<subseteq> T' \<Longrightarrow> Q v T') \<Longrightarrow> token_wp (readJson r) T Q"
  by (auto simp: readJson_def split: option.splits)

lemma token_wp_lift_sum: "(\<And>v T'. T \<subseteq> T' \<Longrightarrow> s = Inr v \<Longrightarrow> Q v T') \<Longrightarrow> token_wp (lift_sum s) T Q"
  by (cases s) auto

lemma token_wp_request:
  "carries_token T rq \<Longrightarrow> (\<And>v T'. T \<subseteq> T' \<Longrightarrow> Q v T') \<Longrightarrow> token_wp (request rq) T Q"
  by (auto simp: request_def intro!: token_wp_readJson split: fetch_result.splits)

lemma token_wp_requestText:
  "carries_token T rq \<Longrightarrow> (\<And>v T'. T \<subseteq> T' \<Longrightarrow> Q v T') \<Longrightarrow> token_wp (requestText rq) T Q"
  by (auto simp: requestText_def split: fetch_result.splits option.splits)

lemma carries_get [simp]: "carries_token T (get_request url)"
  by (simp add: carries_token_def get_request_def)

lemma carries_json: "t \<in> T \<Longrightarrow> carries_token T (json_request m url t body)"
  by (auto simp: carries_token_def json_request_def)

lemma token_wp_csrf_request:
  assumes "\<And>v T'. T \<subseteq> T' \<Longrightarrow> (nullish v \<or> lookup_prop v ''csrf_token'' \<in> T') \<Longrightarrow> Q v T'"
  shows "token_wp (request csrf_request) T Q"
  using assms
  by (auto simp: request_def readJson_def issued_by_def csrf_request_def
      split: fetch_result.splits option.splits if_splits)

lemma token_wp_getCSRFToken:
  assumes Q: "\<And>v T'. T \<subseteq> T' \<Longrightarrow> v \<in> T' \<Longrightarrow> Q v T'"
  shows "token_wp getCSRFToken T Q"
proof -
  have fresh: "token_wp (bind (request csrf_request) (\<lambda>result.
       bind (lift_sum (get_prop result ''csrf_token'')) (\<lambda>t. WriteToken t (Done t)))) T' Q"
    if "T \<subseteq> T'" for T'
  proof (intro token_wp_bind token_wp_csrf_request token_wp_lift_sum)
    fix v T1 t T2
    assume "T' \<subseteq> T1" "nullish v \<or> lookup_prop v ''csrf_token'' \<in> T1" "T1 \<subseteq> T2"
      "get_prop v ''csrf_token'' = Inr t"
    then have "t \<in> T2" "T \<subseteq> T2"
      using that by (auto simp: get_prop_def split: if_splits)
    then show "token_wp (WriteToken t (Done t)) T2 Q"
      using Q by (simp add: subset_iff)
  qed
  show ?thesis
    unfolding getCSRFToken_def token_wp.simps
  proof (intro allI impI ballI)
    fix T' v
    assume T': "T \<subseteq> T'" and v: "v \<in> insert JUndef T'"
    show "token_wp (if truthy v then Done v else bind (request csrf_request) (\<lambda>result.
       bind (lift_sum (get_prop result ''csrf_token'')) (\<lambda>t. WriteToken t (Done t)))) T' Q"
    proof (cases "truthy v")
      case True
      then have v': "v \<in> T'" using v by auto
      have "Q v T1" if "T' \<subseteq> T1" for T1
        by (rule Q) (use T' v' that in auto)
      with True show ?thesis by simp
    next
      case False
      with fresh [OF T'] show ?thesis by simp
    qed
  qed
qed

lemma token_wp_writeJson:
  "(\<And>v T'. T \<subseteq> T' \<Longrightarrow> Q v T') \<Longrightarrow> token_wp (writeJson url body) T Q"
  unfolding writeJson_def
  by (intro token_wp_bind token_wp_getCSRFToken token_wp_request carries_json) auto

lemma token_wp_writeMethod:
  "(\<And>v T'. T \<subseteq> T' \<Longrightarrow> Q v T') \<Longrightarrow> token_wp (writeMethod m url body) T Q"
  unfolding writeMethod_def
  by (intro token_wp_bind token_wp_getCSRFToken)
    (auto intro!: carries_json token_wp_readJson split: fetch_result.splits)

lemma token_wp_void: "token_wp m T any_result \<Longrightarrow> token_wp (void m) T any_result"
  unfolding void_def by (intro token_wp_bind) (auto elim: token_wp_conseq)

lemma token_wp_get_items: "token_wp (get_items url) T any_result"
  unfolding get_items_def
  by (intro token_wp_bind token_wp_request) (auto intro: token_wp_lift_sum)

lemmas token_wp_rules =
  token_wp_bind token_wp_request token_wp_requestText token_wp_getCSRFToken token_wp_writeJson
  token_wp_writeMethod token_wp_void token_wp_get_items token_wp_try_catch carries_json carries_get

lemma api_program_safe: "token_safe (api_program c)"
  unfolding token_safe_def
  by (cases c)
    (auto simp: api_defs intro!: token_wp_rules split: fetch_result.splits option.splits js_error.splits)

section \<open>The cached token\<close>

text \<open>Programs that, started with the token \<open>t\<close>, never replace it and never ask for another.\<close>

primrec keeps :: "jsval \<Rightarrow> 'a io \<Rightarrow> bool" where
  "keeps t (Done v) = True"
| "keeps t (Raise e) = True"
| "keeps t (ReadToken k) = keeps t (k t)"
| "keeps t (WriteToken t' m) = (t' = t \<and> keeps t m)"
| "keeps t (Fetch rq k) = (rq \<noteq> csrf_request \<and> (\<forall>res. keeps t (k res)))"
| "keeps t (Browser b m) = keeps t m"

lemma keeps_bind: "keeps t m \<Longrightarrow> (\<And>v. keeps t (f v)) \<Longrightarrow> keeps t (bind m f)"
  by (induction m) auto

lemma keeps_try_catch: "keeps t m \<Longrightarrow> (\<And>e. keeps t (h e)) \<Longrightarrow> keeps t (try_catch m h)"
  by (induction m) auto

lemma run_keeps:
  "keeps (csrfToken c) m \<Longrightarrow>
     csrfToken (snd (run srv m c)) = csrfToken c
     \<and> (\<exists>xs. exchanges (snd (run srv m c)) = exchanges c @ xs \<and> csrf_request \<notin> fst ` set xs)"
proof (induction m arbitrary: c)
  case (Fetch rq k)
  obtain res w where res: "srv (net c) rq = (res, w)" by fastforce
  let ?c = "c\<lparr>exchanges := exchanges c @ [(rq, res)], net := w\<rparr>"
  obtain xs where xs: "exchanges (snd (run srv (k res) ?c)) = exchanges ?c @ xs"
      "csrf_request \<notin> fst ` set xs" and "csrfToken (snd (run srv (k res) ?c)) = csrfToken ?c"
    using Fetch.IH [OF rangeI [of k res], of ?c] Fetch.prems by auto
  moreover have "exchanges ?c @ xs = exchanges c @ ((rq, res) # xs)" by simp
  moreover have "csrf_request \<notin> fst ` set ((rq, res) # xs)" using xs(2) Fetch.prems by auto
  ultimately show ?case using res by auto
next
  case (WriteToken t m)
  then show ?case using WriteToken.IH [of "c\<lparr>csrfToken := t\<rparr>"] by auto
next
  case (Browser b m)
  then show ?case using Browser.IH [of "c\<lparr>browser_log := browser_log c @ [b]\<rparr>"] by auto
qed auto

lemma keeps_readJson [simp]: "keeps t (readJson r)"
  by (simp add: readJson_def split: option.split)

lemma keeps_lift_sum [simp]: "keeps t (lift_sum s)"
  by (cases s) auto

lemma keeps_request: "rq \<noteq> csrf_request \<Longrightarrow> keeps t (request rq)"
  by (auto simp: request_def split: fetch_result.split)

lemma keeps_requestText: "rq \<noteq> csrf_request \<Longrightarrow> keeps t (requestText rq)"
  by (auto simp: requestText_def split: fetch_result.split option.split)

lemma keeps_getCSRFToken: "truthy t \<Longrightarrow> keeps t getCSRFToken"
  by (simp add: getCSRFToken_def)

lemma get_not_csrf: "url \<noteq> ''/api/v1/auth/csrf'' \<Longrightarrow> get_request url \<noteq> csrf_request"
  by (simp add: csrf_request_def get_request_def)

lemma json_not_csrf: "json_request m url t b \<noteq> csrf_request"
  by (simp add: csrf_request_def get_request_def json_request_def)

lemma keeps_writeJson: "truthy t \<Longrightarrow> keeps t (writeJson url b)"
  unfolding writeJson_def by (intro keeps_bind keeps_getCSRFToken keeps_request json_not_csrf)

lemma keeps_writeMethod: "truthy t \<Longrightarrow> keeps t (writeMethod m url b)"
  unfolding writeMethod_def
  by (intro keeps_bind keeps_getCSRFToken) (auto simp: json_not_csrf split: fetch_result.split)

lemma keeps_get_items: "url \<noteq> ''/api/v1/auth/csrf'' \<Longrightarrow> keeps t (get_items url)"
  unfolding get_items_def by (intro keeps_bind keeps_request get_not_csrf) auto

lemma keeps_void: "keeps t m \<Longrightarrow> keeps t (void m)"
  unfolding void_def by (intro keeps_bind) auto

lemmas keeps_rules =
  keeps_bind keeps_try_catch keeps_request keeps_requestText keeps_getCSRFToken keeps_writeJson
  keeps_writeMethod keeps_get_items keeps_void get_not_csrf json_not_csrf

lemma api_program_keeps: "truthy t \<Longrightarrow> keeps t (api_program c)"
  by (cases c)
    (auto simp: api_defs certificate_url_def credential_url_def json_not_csrf intro!: keeps_rules
      split: fetch_result.split option.split js_error.split)

section \<open>Properties\<close>

definition api_client :: "jsval io \<Rightarrow> bool" where
  "api_client m \<longleftrightarrow> (\<exists>c. m = api_program c)"

text \<open>
  C7. Whatever operations of the client run at the same time, in whatever order their requests are
  answered and with whatever answers, a request that is not a GET carries as its CSRF header the
  \<open>csrf_token\<close> of a successful answer to the token request that arrived before it was sent.
\<close>

theorem writes_carry_issued_token:
  assumes "pool_reach api_client p" and "net_log p = xs @ Sent rq # ys" and "rq_method rq \<noteq> GET"
  shows "\<exists>t \<in> issued xs. rq_csrf rq = Some t"
proof -
  have "pool_inv p"
    using assms(1) by (rule pool_reach_inv) (auto simp: api_client_def api_program_safe)
  then have "carries_token (issued xs) rq"
    using assms(2) unfolding pool_inv_def sent_ok_def by blast
  with assms(3) show ?thesis by (simp add: carries_token_def)
qed

definition token_response :: http_response where
  "token_response =
     \<lparr>rs_status = 200, rs_json = Some (JObj [(''csrf_token'', JStr ''t1'')]), rs_text = None\<rparr>"

definition demo_choices :: "choice list" where
  "demo_choices =
     [Start (api_program Logout), Start (api_program RunRenewalNow), Advance 0, Advance 1, Advance 0,
      Advance 1, Deliver 0 (Response token_response), Advance 0, Advance 0]"

text \<open>Two operations started with an empty cache; the first one's write goes out.\<close>

theorem writes_carry_issued_token_witness:
  "\<exists>p xs rq. pool_exec demo_choices empty_pool = Some p \<and> net_log p = xs @ [Sent rq]
     \<and> rq_url rq = ''/api/v1/auth/logout'' \<and> (\<exists>t \<in> issued xs. rq_csrf rq = Some t)"
proof -
  let ?rq = "json_request POST ''/api/v1/auth/logout'' (JStr ''t1'') (Some (JObj []))"
  let ?xs = "[Sent csrf_request, Sent csrf_request,
    Received csrf_request (Response token_response)]"
  obtain p where p: "pool_exec demo_choices empty_pool = Some p" and log: "net_log p = ?xs @ [Sent ?rq]"
    by (auto simp: demo_choices_def empty_pool_def token_response_def api_defs writeJson_def
        void_def getCSRFToken_def request_def readJson_def get_prop_def rs_ok_def)
  have "pool_reach api_client p"
    by (rule pool_exec_reach [OF p reach_empty])
      (auto simp: demo_choices_def api_client_def simp del: api_program.simps)
  then have "\<exists>t \<in> issued ?xs. rq_csrf ?rq = Some t"
    by (rule writes_carry_issued_token [where ys = "[]"]) (simp_all add: log json_request_def)
  with p log show ?thesis
    by (intro exI [of _ p] exI [of _ ?xs] exI [of _ ?rq]) (simp add: json_request_def)
qed

text \<open>
  The token is fetched once: with a token in the cache, every operation of the client ends with
  the same token in the cache and sends no token request of its own, against any server.
\<close>

theorem cached_token_is_kept:
  assumes "truthy (csrfToken c)"
  shows "csrfToken (snd (run srv (api_program call) c)) = csrfToken c
    \<and> (\<exists>xs. exchanges (snd (run srv (api_program call) c)) = exchanges c @ xs
          \<and> csrf_request \<notin> fst ` set xs)"
  by (rule run_keeps) (rule api_program_keeps [OF assms])

definition failing_server :: "unit \<Rightarrow> http_request \<Rightarrow> fetch_result \<times> unit" where
  "failing_server w rq = (NetworkFailure, w)"

theorem cached_token_is_kept_witness:
  "\<exists>xs. exchanges (snd (run failing_server (api_program Logout)
       \<lparr>csrfToken = JStr ''t1'', exchanges = [], browser_log = [], net = ()\<rparr>)) = xs
     \<and> csrf_request \<notin> fst ` set xs"
  using cached_token_is_kept [of "\<lparr>csrfToken = JStr ''t1'', exchanges = [], browser_log = [],
      net = ()\<rparr>" failing_server Logout]
  by auto

end
