(* ===== verification/Endpoints.thy ===== *)
theory Endpoints
  imports Api
begin

text \<open>
  The HTTP surface between the two halves of the system: the route table that
  \<open>internal/httpapi/router.go\<close> registers, and the requests that the operations of
  \<open>web/src/api.ts\<close> can send. A path is compared segment by segment after percent-decoding.
\<close>

section \<open>The route table\<close>

text \<open>
  The table of a server whose optional services (certificates, records, system information,
  credentials, scheduler) are all configured, as the program's own start-up configures them. A path
  that no entry matches goes to the not-found answer or to the page handler.
\<close>

datatype segment = Lit string | Param

datatype handler =
    Health | Ready | AcmeHTTPChallenge | CsrfToken | LoginH | LogoutH | Me | ReauthenticateH | Meta
  | ListCertificatesH | CreateCertificateH | GetCertificateH | UpdateCertificateH
  | DeleteCertificateH | IssueCertificateH | RenewCertificateH | ForceRenewCertificateH
  | RevokeCertificateH | ListCertificateFilesH | ViewCertificateFileH | DownloadCertificateFileH
  | DownloadCertificateArchiveH | RevealPrivateKeyH | AuditPrivateKeyCopyH
  | DashboardH | ListJobsH | GetJobH | ListAuditEventsH | GetSystemInfoH
  | ListDNSProvidersH | ListDNSCredentialsH | CreateDNSCredentialH | UpdateDNSCredentialH
  | TestDNSCredentialH | DnsCredentialReferencesH | DeleteDNSCredentialH
  | GetRenewalPolicyH | UpdateRenewalPolicyH | RunRenewalNowH

definition api_v1 :: "segment list \<Rightarrow> segment list" where
  "api_v1 segs = Lit ''api'' # Lit ''v1'' # segs"

definition public_routes :: "(http_method \<times> segment list \<times> handler) list" where
  "public_routes =
     [(GET, [Lit ''healthz''], Health),
      (GET, [Lit ''readyz''], Ready),
      (GET, [Lit ''.well-known'', Lit ''acme-challenge'', Param], AcmeHTTPChallenge),
      (GET, api_v1 [Lit ''meta''], Meta),
      (GET, api_v1 [Lit ''auth'', Lit ''csrf''], CsrfToken),
      (POST, api_v1 [Lit ''auth'', Lit ''login''], LoginH)]"

definition protected_routes :: "(http_method \<times> segment list \<times> handler) list" where
  "protected_routes =
     [(POST, api_v1 [Lit ''auth'', Lit ''logout''], LogoutH),
      (GET, api_v1 [Lit ''auth'', Lit ''me''], Me),
      (POST, api_v1 [Lit ''auth'', Lit ''reauthenticate''], ReauthenticateH),
      (GET, api_v1 [Lit ''certificates''], ListCertificatesH),
      (POST, api_v1 [Lit ''certificates''], CreateCertificateH),
      (GET, api_v1 [Lit ''certificates'', Param], GetCertificateH),
      (PATCH, api_v1 [Lit ''certificates'', Param], UpdateCertificateH),
      (DELETE, api_v1 [Lit ''certificates'', Param], DeleteCertificateH),
      (POST, api_v1 [Lit ''certificates'', Param, Lit ''issue''], IssueCertificateH),
      (POST, api_v1 [Lit ''certificates'', Param, Lit ''renew''], RenewCertificateH),
      (POST, api_v1 [Lit ''certificates'', Param, Lit ''force-renew''], ForceRenewCertificateH),
      (POST, api_v1 [Lit ''certificates'', Param, Lit ''revoke''], RevokeCertificateH),
      (GET, api_v1 [Lit ''certificates'', Param, Lit ''files''], ListCertificateFilesH),
      (GET, api_v1 [Lit ''certificates'', Param, Lit ''files'', Param], ViewCertificateFileH),
      (GET, api_v1 [Lit ''certificates'', Param, Lit ''files'', Param, Lit ''download''],
        DownloadCertificateFileH),
      (POST, api_v1 [Lit ''certificates'', Param, Lit ''files'', Lit ''archive''],
        DownloadCertificateArchiveH),
      (POST, api_v1 [Lit ''certificates'', Param, Lit ''files'', Lit ''private-key'', Lit ''reveal''],
        RevealPrivateKeyH),
      (POST, api_v1 [Lit ''certificates'', Param, Lit ''files'', Lit ''private-key'',
        Lit ''copy-audit''], AuditPrivateKeyCopyH),
      (GET, api_v1 [Lit ''dashboard''], DashboardH),
      (GET, api_v1 [Lit ''jobs''], ListJobsH),
      (GET, api_v1 [Lit ''jobs'', Param], GetJobH),
      (GET, api_v1 [Lit ''audit-events''], ListAuditEventsH),
      (GET, api_v1 [Lit ''system'', Lit ''info''], GetSystemInfoH),
      (GET, api_v1 [Lit ''dns-providers''], ListDNSProvidersH),
      (GET, api_v1 [Lit ''dns-credentials''], ListDNSCredentialsH),
      (POST, api_v1 [Lit ''dns-credentials''], CreateDNSCredentialH),
      (PATCH, api_v1 [Lit ''dns-credentials'', Param], UpdateDNSCredentialH),
      (POST, api_v1 [Lit ''dns-credentials'', Param, Lit ''test''], TestDNSCredentialH),
      (GET, api_v1 [Lit ''dns-credentials'', Param, Lit ''references''], DnsCredentialReferencesH),
      (DELETE, api_v1 [Lit ''dns-credentials'', Param], DeleteDNSCredentialH),
      (GET, api_v1 [Lit ''renewal-policy''], GetRenewalPolicyH),
      (PUT, api_v1 [Lit ''renewal-policy''], UpdateRenewalPolicyH),
      (POST, api_v1 [Lit ''renewal-policy'', Lit ''run-now''], RunRenewalNowH)]"

fun seg_match :: "segment \<Rightarrow> string \<Rightarrow> bool" where
  "seg_match (Lit l) s = (l = s)"
| "seg_match Param s = (s \<noteq> [])"

fun path_match :: "segment list \<Rightarrow> string list \<Rightarrow> bool" where
  "path_match [] [] = True"
| "path_match (p # ps) (s # ss) = (seg_match p s \<and> path_match ps ss)"
| "path_match _ _ = False"

text \<open>All handlers whose method and pattern fit; which one a router library prefers plays no role.\<close>

definition route :: "http_method \<Rightarrow> string list \<Rightarrow> handler list" where
  "route m path =
     map (snd \<circ> snd)
       (filter (\<lambda>(m', pat, h). m' = m \<and> path_match pat path) (public_routes @ protected_routes))"

section \<open>What the client asks for\<close>

text \<open>
  A URL is parsed before it is sent: single-dot segments disappear and double-dot segments take
  the segment before them away, in their percent-encoded spellings too.
\<close>

definition single_dot :: "string \<Rightarrow> bool" where
  "single_dot s \<longleftrightarrow> toLowerCase s \<in> {''.'', ''%2e''}"

definition double_dot :: "string \<Rightarrow> bool" where
  "double_dot s \<longleftrightarrow> toLowerCase s \<in> {''..'', ''.%2e'', ''%2e.'', ''%2e%2e''}"

fun remove_dots :: "string list \<Rightarrow> string list \<Rightarrow> string list" where
  "remove_dots acc [] = rev acc"
| "remove_dots acc (s # ss) =
     (if double_dot s then (if ss = [] then rev ([] # tl acc) else remove_dots (tl acc) ss)
      else if single_dot s then (if ss = [] then rev ([] # acc) else remove_dots acc ss)
      else remove_dots (s # acc) ss)"

definition url_segments :: "string \<Rightarrow> string list" where
  "url_segments url =
     map decodeURIComponent
       (remove_dots []
         (tl (split_on (\<lambda>c. c = CHR ''/'') (takeWhile (\<lambda>c. c \<noteq> CHR ''?'') url))))"

definition dot_name :: "string \<Rightarrow> bool" where
  "dot_name s \<longleftrightarrow> s = ''.'' \<or> s = ''..''"

text \<open>The handler each operation is meant for.\<close>

fun api_handler :: "api_call \<Rightarrow> handler" where
  "api_handler GetMeta = Meta"
| "api_handler GetCurrentUser = Me"
| "api_handler (Login _ _) = LoginH"
| "api_handler Logout = LogoutH"
| "api_handler (Reauthenticate _) = ReauthenticateH"
| "api_handler ListCertificates = ListCertificatesH"
| "api_handler GetDashboard = DashboardH"
| "api_handler (ListJobs _) = ListJobsH"
| "api_handler (ListAuditEvents _) = ListAuditEventsH"
| "api_handler GetSystemInfo = GetSystemInfoH"
| "api_handler (CreateSelfSigned _) = CreateCertificateH"
| "api_handler (CreateACME _) = CreateCertificateH"
| "api_handler ListDNSProviders = ListDNSProvidersH"
| "api_handler ListDNSCredentials = ListDNSCredentialsH"
| "api_handler (CreateDNSCredential _) = CreateDNSCredentialH"
| "api_handler (UpdateDNSCredential _ _) = UpdateDNSCredentialH"
| "api_handler (RenameDNSCredential _ _) = UpdateDNSCredentialH"
| "api_handler (TestDNSCredential _) = TestDNSCredentialH"
| "api_handler (ListDNSCredentialReferences _) = DnsCredentialReferencesH"
| "api_handler (DeleteDNSCredential _) = DeleteDNSCredentialH"
| "api_handler GetRenewalPolicy = GetRenewalPolicyH"
| "api_handler (UpdateRenewalPolicy _) = UpdateRenewalPolicyH"
| "api_handler RunRenewalNow = RunRenewalNowH"
| "api_handler (RenewCertificate _ force) =
     (if force then ForceRenewCertificateH else RenewCertificateH)"
| "api_handler (IssueCertificate _) = IssueCertificateH"
| "api_handler (RevokeCertificate _ _) = RevokeCertificateH"
| "api_handler (DeleteCertificate _ _ _ _) = DeleteCertificateH"
| "api_handler (GetCertificate _) = GetCertificateH"
| "api_handler (UpdateCertificate _ _) = UpdateCertificateH"
| "api_handler (ListCertificateFiles _) = ListCertificateFilesH"
| "api_handler (GetCertificateFile _ _) = ViewCertificateFileH"
| "api_handler (RevealPrivateKey _ _) = RevealPrivateKeyH"
| "api_handler (AuditPrivateKeyCopy _) = AuditPrivateKeyCopyH"
| "api_handler (DownloadCertificateArchive _ _ _) = DownloadCertificateArchiveH"

text \<open>The identifier an operation puts into its path.\<close>

fun api_id :: "api_call \<Rightarrow> string option" where
  "api_id (UpdateDNSCredential i _) = Some i"
| "api_id (RenameDNSCredential i _) = Some i"
| "api_id (TestDNSCredential i) = Some i"
| "api_id (ListDNSCredentialReferences i) = Some i"
| "api_id (DeleteDNSCredential i) = Some i"
| "api_id (RenewCertificate i _) = Some i"
| "api_id (IssueCertificate i) = Some i"
| "api_id (RevokeCertificate i _) = Some i"
| "api_id (DeleteCertificate i _ _ _) = Some i"
| "api_id (GetCertificate i) = Some i"
| "api_id (UpdateCertificate i _) = Some i"
| "api_id (ListCertificateFiles i) = Some i"
| "api_id (GetCertificateFile i _) = Some i"
| "api_id (RevealPrivateKey i _) = Some i"
| "api_id (AuditPrivateKeyCopy i) = Some i"
| "api_id (DownloadCertificateArchive i _ _) = Some i"
| "api_id _ = None"

section \<open>Paths built from encoded segments\<close>

definition seg_url :: "string list \<Rightarrow> string" where
  "seg_url segs = concat (map (\<lambda>s. CHR ''/'' # encodeURIComponent s) segs)"

lemma seg_url_Nil [simp]: "seg_url [] = []"
  by (simp add: seg_url_def)

lemma seg_url_Cons: "seg_url (s # ss) = CHR ''/'' # encodeURIComponent s @ seg_url ss"
  by (simp add: seg_url_def)

lemma split_seg_url:
  "split_on (\<lambda>c. c = CHR ''/'') (encodeURIComponent s @ seg_url ss)
     = encodeURIComponent s # map encodeURIComponent ss"
proof (induction ss arbitrary: s)
  case Nil
  then show ?case using encode_no_delimiter [of s] by (auto intro: split_on_no_sep)
next
  case (Cons t ts)
  have "split_on (\<lambda>c. c = CHR ''/'') (encodeURIComponent s @ CHR ''/'' # (encodeURIComponent t @ seg_url ts))
      = encodeURIComponent s # split_on (\<lambda>c. c = CHR ''/'') (encodeURIComponent t @ seg_url ts)"
    by (rule split_on_append_sep) (use encode_no_delimiter [of s] in auto)
  then show ?case by (simp add: seg_url_Cons Cons.IH)
qed

lemma seg_url_no_query: "CHR ''?'' \<notin> set (seg_url segs)"
  using encode_no_delimiter by (induction segs) (auto simp: seg_url_Cons)

lemma takeWhile_query:
  "q = [] \<or> hd q = CHR ''?'' \<Longrightarrow> takeWhile (\<lambda>c. c \<noteq> CHR ''?'') (seg_url segs @ q) = seg_url segs"
  using seg_url_no_query [of segs] by (cases q) (auto simp: takeWhile_append2 takeWhile_tail)

lemma lower_char_below: "lower_char c = d \<Longrightarrow> code d < 97 \<Longrightarrow> c = d"
  by (auto simp: lower_char_def code_def split: if_splits)

lemma lower_char_e:
  assumes e: "lower_char c = CHR ''e''"
  shows "c = CHR ''e'' \<or> c = CHR ''E''"
proof (cases "c = CHR ''e''")
  case False
  with e have "code (char_of (code c + 32)) = code (CHR ''e'')" and "code c \<le> 222"
    by (auto simp: lower_char_def split: if_splits)
  then have "code c = code (CHR ''E'')" by (simp add: code_def)
  then show ?thesis unfolding code_eq_iff by simp
qed simp

lemma lower_char_punct [dest]:
  "lower_char c = CHR ''.'' \<Longrightarrow> c = CHR ''.''"
  "lower_char c = CHR ''%'' \<Longrightarrow> c = CHR ''%''"
  "lower_char c = CHR ''2'' \<Longrightarrow> c = CHR ''2''"
  by (rule lower_char_below; simp add: code_def)+

lemma encode_not_single_dot:
  assumes "single_dot (encodeURIComponent s)"
  shows "dot_name s"
proof -
  let ?e = "encodeURIComponent s"
  have "?e \<in> {''.'', ''%2e'', ''%2E''}"
    using assms by (auto simp: single_dot_def toLowerCase_def map_eq_Cons_conv dest: lower_char_e)
  moreover have "\<forall>e \<in> {''.'', ''%2e'', ''%2E''}. decodeURIComponent e = ''.''"
    by code_simp
  ultimately have "decodeURIComponent ?e = ''.''" by blast
  then show ?thesis by (simp add: dot_name_def)
qed

lemma encode_not_double_dot:
  assumes "double_dot (encodeURIComponent s)"
  shows "dot_name s"
proof -
  let ?e = "encodeURIComponent s"
  have "?e \<in> {''..'', ''.%2e'', ''.%2E'', ''%2e.'', ''%2E.'', ''%2e%2e'', ''%2E%2e'', ''%2e%2E'', ''%2E%2E''}"
    using assms by (auto simp: double_dot_def toLowerCase_def map_eq_Cons_conv dest: lower_char_e)
  moreover have "\<forall>e \<in> {''..'', ''.%2e'', ''.%2E'', ''%2e.'', ''%2E.'', ''%2e%2e'', ''%2E%2e'', ''%2e%2E'', ''%2E%2E''}. decodeURIComponent e = ''..''"
    by code_simp
  ultimately have "decodeURIComponent ?e = ''..''" by blast
  then show ?thesis by (simp add: dot_name_def)
qed

lemma remove_dots_encoded:
  "(\<forall>s \<in> set ss. \<not> dot_name s) \<Longrightarrow>
     remove_dots acc (map encodeURIComponent ss) = rev acc @ map encodeURIComponent ss"
  using encode_not_single_dot encode_not_double_dot by (induction ss arbitrary: acc) auto

lemma url_segments_seg_url:
  assumes "segs \<noteq> []" and "q = [] \<or> hd q = CHR ''?''" and dots: "\<forall>s \<in> set segs. \<not> dot_name s"
  shows "url_segments (seg_url segs @ q) = segs"
proof -
  obtain s ss where segs: "segs = s # ss" using assms(1) by (cases segs) auto
  have "tl (split_on (\<lambda>c. c = CHR ''/'') (seg_url segs)) = map encodeURIComponent segs"
    unfolding segs seg_url_Cons using split_seg_url [of s ss] by simp
  then have "url_segments (seg_url segs @ q)
      = map decodeURIComponent (remove_dots [] (map encodeURIComponent segs))"
    by (simp only: url_segments_def takeWhile_query [OF assms(2)])
  then show ?thesis by (simp add: remove_dots_encoded [OF dots] comp_def)
qed

section \<open>Requests of an operation\<close>

definition targets :: "http_method \<Rightarrow> string \<Rightarrow> 'a io \<Rightarrow> bool" where
  "targets m url p \<longleftrightarrow>
     (\<forall>rq. sends p rq \<longrightarrow> rq = csrf_request \<or> (rq_method rq = m \<and> rq_url rq = url))"

lemma targets_bind:
  "targets m url p \<Longrightarrow> (\<And>v. targets m url (f v)) \<Longrightarrow> targets m url (bind p f)"
  unfolding targets_def by (blast dest: sends_bind)

lemma targets_getCSRFToken: "targets m url getCSRFToken"
  by (auto simp: targets_def dest: sends_getCSRFToken)

lemma targets_request:
  "rq_method rq = m \<Longrightarrow> rq_url rq = url \<Longrightarrow> targets m url (request rq)"
  by (auto simp: targets_def dest: sends_request)

lemma targets_requestText:
  "rq_method rq = m \<Longrightarrow> rq_url rq = url \<Longrightarrow> targets m url (requestText rq)"
  by (auto simp: targets_def dest: sends_requestText)

lemma targets_Done [simp]: "targets m url (Done v)"
  by (simp add: targets_def)

lemma targets_Raise [simp]: "targets m url (Raise e)"
  by (simp add: targets_def)

lemma targets_lift_sum [simp]: "targets m url (lift_sum s)"
  by (simp add: targets_def)

lemma targets_try_catch:
  "targets m url p \<Longrightarrow> (\<And>e. targets m url (h e)) \<Longrightarrow> targets m url (try_catch p h)"
  unfolding targets_def by (blast dest: sends_try_catch)

lemma json_request_sel [simp]:
  "rq_method (json_request m url t b) = m" "rq_url (json_request m url t b) = url"
  by (simp_all add: json_request_def)

lemma get_request_sel [simp]: "rq_method (get_request url) = GET" "rq_url (get_request url) = url"
  by (simp_all add: get_request_def)

lemma targets_writeJson: "targets POST url (writeJson url b)"
  unfolding writeJson_def by (intro targets_bind targets_getCSRFToken targets_request) auto

lemma targets_Fetch:
  "rq_method rq = m \<Longrightarrow> rq_url rq = url \<Longrightarrow> (\<And>res. targets m url (k res)) \<Longrightarrow>
     targets m url (Fetch rq k)"
  by (auto simp: targets_def)

lemma targets_Browser: "targets m url p \<Longrightarrow> targets m url (Browser b p)"
  by (simp add: targets_def)

lemma targets_readJson [simp]: "targets m url (readJson r)"
  by (simp add: targets_def)

lemma targets_writeMethod: "targets m url (writeMethod m url b)"
  unfolding writeMethod_def
  by (intro targets_bind targets_getCSRFToken targets_Fetch)
    (auto split: fetch_result.splits)

lemma targets_get_items: "targets GET url (get_items url)"
  unfolding get_items_def by (intro targets_bind targets_request) auto

lemma targets_void: "targets m url p \<Longrightarrow> targets m url (void p)"
  unfolding void_def by (intro targets_bind) auto

lemmas targets_rules =
  targets_writeJson targets_writeMethod targets_get_items targets_void targets_request
  targets_requestText targets_try_catch targets_getCSRFToken targets_Fetch targets_Browser
  get_request_sel json_request_sel

section \<open>The path of each operation\<close>

abbreviation v1_url :: "string list \<Rightarrow> string" where
  "v1_url segs \<equiv> seg_url (''api'' # ''v1'' # segs)"

fun api_target :: "api_call \<Rightarrow> http_method \<times> string list \<times> string" where
  "api_target GetMeta = (GET, [''meta''], [])"
| "api_target GetCurrentUser = (GET, [''auth'', ''me''], [])"
| "api_target (Login _ _) = (POST, [''auth'', ''login''], [])"
| "api_target Logout = (POST, [''auth'', ''logout''], [])"
| "api_target (Reauthenticate _) = (POST, [''auth'', ''reauthenticate''], [])"
| "api_target ListCertificates = (GET, [''certificates''], [])"
| "api_target GetDashboard = (GET, [''dashboard''], [])"
| "api_target (ListJobs f) = (GET, [''jobs''], CHR ''?'' # urlSearchParams (jobs_query f))"
| "api_target (ListAuditEvents c) =
     (GET, [''audit-events''], CHR ''?'' # urlSearchParams (query_param ''certificate_id'' c))"
| "api_target GetSystemInfo = (GET, [''system'', ''info''], [])"
| "api_target (CreateSelfSigned _) = (POST, [''certificates''], [])"
| "api_target (CreateACME _) = (POST, [''certificates''], [])"
| "api_target ListDNSProviders = (GET, [''dns-providers''], [])"
| "api_target ListDNSCredentials = (GET, [''dns-credentials''], [])"
| "api_target (CreateDNSCredential _) = (POST, [''dns-credentials''], [])"
| "api_target (UpdateDNSCredential i _) = (PATCH, [''dns-credentials'', i], [])"
| "api_target (RenameDNSCredential i _) = (PATCH, [''dns-credentials'', i], [])"
| "api_target (TestDNSCredential i) = (POST, [''dns-credentials'', i, ''test''], [])"
| "api_target (ListDNSCredentialReferences i) = (GET, [''dns-credentials'', i, ''references''], [])"
| "api_target (DeleteDNSCredential i) = (DELETE, [''dns-credentials'', i], [])"
| "api_target GetRenewalPolicy = (GET, [''renewal-policy''], [])"
| "api_target (UpdateRenewalPolicy _) = (PUT, [''renewal-policy''], [])"
| "api_target RunRenewalNow = (POST, [''renewal-policy'', ''run-now''], [])"
| "api_target (RenewCertificate i force) =
     (POST, [''certificates'', i, if force then ''force-renew'' else ''renew''], [])"
| "api_target (IssueCertificate i) = (POST, [''certificates'', i, ''issue''], [])"
| "api_target (RevokeCertificate i _) = (POST, [''certificates'', i, ''revoke''], [])"
| "api_target (DeleteCertificate i _ _ _) = (DELETE, [''certificates'', i], [])"
| "api_target (GetCertificate i) = (GET, [''certificates'', i], [])"
| "api_target (UpdateCertificate i _) = (PATCH, [''certificates'', i], [])"
| "api_target (ListCertificateFiles i) = (GET, [''certificates'', i, ''files''], [])"
| "api_target (GetCertificateFile i t) = (GET, [''certificates'', i, ''files'', file_type_text t], [])"
| "api_target (RevealPrivateKey i _) =
     (POST, [''certificates'', i, ''files'', ''private-key'', ''reveal''], [])"
| "api_target (AuditPrivateKeyCopy i) =
     (POST, [''certificates'', i, ''files'', ''private-key'', ''copy-audit''], [])"
| "api_target (DownloadCertificateArchive i _ _) = (POST, [''certificates'', i, ''files'', ''archive''], [])"

lemma encode_literals:
  "encodeURIComponent ''api'' = ''api''" "encodeURIComponent ''v1'' = ''v1''"
  "encodeURIComponent ''meta'' = ''meta''" "encodeURIComponent ''auth'' = ''auth''"
  "encodeURIComponent ''me'' = ''me''" "encodeURIComponent ''login'' = ''login''"
  "encodeURIComponent ''logout'' = ''logout''"
  "encodeURIComponent ''reauthenticate'' = ''reauthenticate''"
  "encodeURIComponent ''certificates'' = ''certificates''"
  "encodeURIComponent ''dashboard'' = ''dashboard''" "encodeURIComponent ''jobs'' = ''jobs''"
  "encodeURIComponent ''audit-events'' = ''audit-events''"
  "encodeURIComponent ''system'' = ''system''" "encodeURIComponent ''info'' = ''info''"
  "encodeURIComponent ''dns-providers'' = ''dns-providers''"
  "encodeURIComponent ''dns-credentials'' = ''dns-credentials''"
  "encodeURIComponent ''test'' = ''test''" "encodeURIComponent ''references'' = ''references''"
  "encodeURIComponent ''renewal-policy'' = ''renewal-policy''"
  "encodeURIComponent ''run-now'' = ''run-now''"
  "encodeURIComponent ''force-renew'' = ''force-renew''" "encodeURIComponent ''renew'' = ''renew''"
  "encodeURIComponent ''issue'' = ''issue''" "encodeURIComponent ''revoke'' = ''revoke''"
  "encodeURIComponent ''files'' = ''files''" "encodeURIComponent ''private-key'' = ''private-key''"
  "encodeURIComponent ''reveal'' = ''reveal''"
  "encodeURIComponent ''copy-audit'' = ''copy-audit''" "encodeURIComponent ''archive'' = ''archive''"
  by code_simp+

lemma program_targets:
  "api_target c = (m, segs, q) \<Longrightarrow> targets m (v1_url segs @ q) (api_program c)"
proof -
  assume "api_target c = (m, segs, q)"
  then show ?thesis
    by (cases c)
      (auto simp: api_defs seg_url_Cons encode_literals certificate_url_def credential_url_def
        intro!: targets_rules targets_bind split: fetch_result.split option.split js_error.split)
qed

lemma path_match_v1: "path_match (api_v1 pat) (''api'' # ''v1'' # segs) = path_match pat segs"
  by (simp add: api_v1_def)

lemma file_type_text_segment [simp]: "file_type_text t \<noteq> []" "\<not> dot_name (file_type_text t)"
  by (cases t; simp add: dot_name_def)+

lemma target_routed:
  assumes "api_id c \<noteq> Some []"
  shows "route (fst (api_target c)) (''api'' # ''v1'' # fst (snd (api_target c))) = [api_handler c]"
  using assms
  unfolding route_def public_routes_def protected_routes_def append.simps
  by (cases c) (simp_all add: path_match_v1)

lemma target_dot_free:
  assumes "\<forall>i. api_id c = Some i \<longrightarrow> \<not> dot_name i"
  shows "\<forall>s \<in> set (''api'' # ''v1'' # fst (snd (api_target c))). \<not> dot_name s"
proof -
  have "\<not> dot_name s" if "s \<in> {''api'', ''v1''}" for s using that by (auto simp: dot_name_def)
  moreover have "\<forall>s \<in> set (fst (snd (api_target c))). \<not> dot_name s"
    using assms
    by (cases c)
      (simp_all add: dot_name_def file_type_text_segment(2) [unfolded dot_name_def, simplified])
  ultimately show ?thesis by simp
qed

lemma target_query: "snd (snd (api_target c)) = [] \<or> hd (snd (snd (api_target c))) = CHR ''?''"
  by (cases c) auto



end
