(* ===== verification/Request_Bodies.thy ===== *)
theory Request_Bodies
  imports Endpoints
begin

text \<open>
  The bodies of the client's requests against the request structures of the server. The server
  decodes with \<open>DisallowUnknownFields\<close>, so a body must have only keys the handler's structure
  declares, each with a value of the declared type; \<open>null\<close> leaves a field at its zero value. Handlers
  without an entry do not read a body.
\<close>

section \<open>The server's request structures\<close>

datatype go_kind = GoString | GoInt | GoBool | GoStrings | GoStringMap | GoTime

definition password_fields :: "(string \<times> go_kind) list" where
  "password_fields = [(''password'', GoString)]"

definition login_fields :: "(string \<times> go_kind) list" where
  "login_fields = [(''username'', GoString), (''password'', GoString)]"

definition create_fields :: "(string \<times> go_kind) list" where
  "create_fields = [(''mode'', GoString), (''name'', GoString), (''primary_domain'', GoString),
     (''sans'', GoStrings), (''key_type'', GoString), (''valid_days'', GoInt),
     (''output_directory'', GoString), (''auto_renew_enabled'', GoBool), (''renew_before_days'', GoInt),
     (''create_renewed_marker'', GoBool), (''challenge_type'', GoString),
     (''dns_credential_id'', GoString), (''ca_directory_url'', GoString), (''acme_email'', GoString)]"

definition update_fields :: "(string \<times> go_kind) list" where
  "update_fields = [(''name'', GoString), (''auto_renew_enabled'', GoBool),
     (''renew_before_days'', GoInt), (''create_renewed_marker'', GoBool)]"

definition delete_fields :: "(string \<times> go_kind) list" where
  "delete_fields = [(''password'', GoString), (''confirm_name'', GoString), (''delete_files'', GoBool)]"

definition archive_fields :: "(string \<times> go_kind) list" where
  "archive_fields = [(''include_private_key'', GoBool), (''password'', GoString)]"

definition credential_fields :: "(string \<times> go_kind) list" where
  "credential_fields = [(''name'', GoString), (''provider'', GoString), (''custom_acme_code'', GoString),
     (''source_mode'', GoString), (''values'', GoStringMap), (''environment_refs'', GoStringMap)]"

definition policy_fields :: "(string \<times> go_kind) list" where
  "policy_fields = [(''enabled'', GoBool), (''cron_expression'', GoString), (''timezone'', GoString),
     (''max_concurrency'', GoInt), (''retry_count'', GoInt), (''retry_interval_seconds'', GoInt),
     (''updated_at'', GoTime)]"

fun body_fields :: "handler \<Rightarrow> (string \<times> go_kind) list option" where
  "body_fields LoginH = Some login_fields"
| "body_fields ReauthenticateH = Some password_fields"
| "body_fields CreateCertificateH = Some create_fields"
| "body_fields UpdateCertificateH = Some update_fields"
| "body_fields RevokeCertificateH = Some password_fields"
| "body_fields DeleteCertificateH = Some delete_fields"
| "body_fields DownloadCertificateArchiveH = Some archive_fields"
| "body_fields RevealPrivateKeyH = Some password_fields"
| "body_fields CreateDNSCredentialH = Some credential_fields"
| "body_fields UpdateDNSCredentialH = Some credential_fields"
| "body_fields UpdateRenewalPolicyH = Some policy_fields"
| "body_fields _ = None"

section \<open>Decoding\<close>

fun is_text :: "jsval \<Rightarrow> bool" where
  "is_text (JStr _) = True"
| "is_text _ = False"

definition int64_number :: "js_number \<Rightarrow> bool" where
  "int64_number x =
     (case x of NaN \<Rightarrow> False | Fin q \<Rightarrow> q = of_int \<lfloor>q\<rfloor> \<and> - (2 ^ 63) \<le> q \<and> q < 2 ^ 63)"

fun kind_ok :: "(string \<Rightarrow> bool) \<Rightarrow> go_kind \<Rightarrow> jsval \<Rightarrow> bool" where
  "kind_ok isTime k JNull = True"
| "kind_ok isTime GoString v = is_text v"
| "kind_ok isTime GoInt (JNum x) = int64_number x"
| "kind_ok isTime GoBool (JBool _) = True"
| "kind_ok isTime GoStrings (JArr vs) = list_all is_text vs"
| "kind_ok isTime GoStringMap (JObj kvs) = list_all (\<lambda>(k, v). is_text v) kvs"
| "kind_ok isTime GoTime (JStr s) = isTime s"
| "kind_ok isTime _ _ = False"

definition decodes :: "(string \<Rightarrow> bool) \<Rightarrow> (string \<times> go_kind) list \<Rightarrow> jsval \<Rightarrow> bool" where
  "decodes isTime fs body =
     (case body of
        JObj kvs \<Rightarrow> list_all (\<lambda>(k, v). case map_of fs k of Some kind \<Rightarrow> kind_ok isTime kind v | None \<Rightarrow> False) kvs
      | _ \<Rightarrow> False)"

section \<open>What an operation puts into its body\<close>

definition carries :: "jsval option \<Rightarrow> 'a io \<Rightarrow> bool" where
  "carries b p \<longleftrightarrow> (\<forall>rq. sends p rq \<longrightarrow> rq_body rq = None \<or> rq_body rq = b)"

lemma carries_bind: "carries b p \<Longrightarrow> (\<And>v. carries b (f v)) \<Longrightarrow> carries b (bind p f)"
  unfolding carries_def by (blast dest: sends_bind)

lemma carries_try_catch: "carries b p \<Longrightarrow> (\<And>e. carries b (h e)) \<Longrightarrow> carries b (try_catch p h)"
  unfolding carries_def by (blast dest: sends_try_catch)

lemma carries_simps [simp]:
  "carries b (Done v)" "carries b (Raise e)" "carries b (lift_sum s)" "carries b (readJson r)"
  by (simp_all add: carries_def)

lemma get_request_body [simp]: "rq_body (get_request url) = None"
  by (simp add: get_request_def)

lemma json_request_body [simp]: "rq_body (json_request m url t b) = map_option stringify b"
  by (simp add: json_request_def)

lemma carries_getCSRFToken: "carries b getCSRFToken"
  by (auto simp: carries_def csrf_request_def dest!: sends_getCSRFToken)

lemma carries_request: "rq_body rq = None \<or> rq_body rq = b \<Longrightarrow> carries b (request rq)"
  by (auto simp: carries_def dest: sends_request)

lemma carries_requestText: "rq_body rq = None \<or> rq_body rq = b \<Longrightarrow> carries b (requestText rq)"
  by (auto simp: carries_def dest: sends_requestText)

lemma carries_Fetch:
  "rq_body rq = None \<or> rq_body rq = b \<Longrightarrow> (\<And>res. carries b (k res)) \<Longrightarrow> carries b (Fetch rq k)"
  by (auto simp: carries_def)

lemma carries_Browser: "carries b p \<Longrightarrow> carries b (Browser op p)"
  by (simp add: carries_def)

lemma carries_writeJson: "\<not> nullish v \<Longrightarrow> b = Some (stringify v) \<Longrightarrow> carries b (writeJson url v)"
  unfolding writeJson_def by (intro carries_bind carries_getCSRFToken carries_request) auto

lemma carries_writeMethod: "v \<noteq> JUndef \<Longrightarrow> b = Some (stringify v) \<Longrightarrow> carries b (writeMethod m url v)"
  unfolding writeMethod_def
  by (intro carries_bind carries_getCSRFToken carries_Fetch) (auto split: fetch_result.splits)

lemma carries_void: "carries b p \<Longrightarrow> carries b (void p)"
  unfolding void_def by (intro carries_bind) auto

lemmas carries_rules =
  carries_writeJson carries_writeMethod carries_void carries_bind carries_getCSRFToken
  carries_requestText carries_Fetch carries_Browser

fun api_body :: "api_call \<Rightarrow> jsval" where
  "api_body (Login u p) = JObj [(''username'', JStr u), (''password'', JStr p)]"
| "api_body (Reauthenticate p) = JObj [(''password'', JStr p)]"
| "api_body (CreateSelfSigned v) = self_signed_js v"
| "api_body (CreateACME v) = acme_js v"
| "api_body (CreateDNSCredential v) = dnsCredentialInput_js v"
| "api_body (UpdateDNSCredential _ v) = dnsCredentialInput_js v"
| "api_body (RenameDNSCredential _ n) = JObj [(''name'', JStr n)]"
| "api_body (UpdateRenewalPolicy p) = renewalPolicy_js p"
| "api_body (RevokeCertificate _ p) = JObj [(''password'', JStr p)]"
| "api_body (DeleteCertificate _ p n d) =
     JObj [(''password'', JStr p), (''confirm_name'', JStr n), (''delete_files'', JBool d)]"
| "api_body (UpdateCertificate _ v) = certificateUpdate_js v"
| "api_body (RevealPrivateKey _ p) = JObj [(''password'', JStr p)]"
| "api_body (DownloadCertificateArchive _ k p) =
     JObj [(''include_private_key'', JBool k), (''password'', JStr p)]"
| "api_body _ = JObj []"

lemma body_objects [simp]:
  "\<not> nullish (self_signed_js v)" "\<not> nullish (acme_js a)" "\<not> nullish (dnsCredentialInput_js i)"
  "dnsCredentialInput_js i \<noteq> JUndef" "renewalPolicy_js p \<noteq> JUndef" "certificateUpdate_js u \<noteq> JUndef"
  by (simp_all add: self_signed_js_def acme_js_def dnsCredentialInput_js_def renewalPolicy_js_def
      certificateUpdate_js_def)

lemma program_carries:
  "body_fields (api_handler c) \<noteq> None \<Longrightarrow> carries (Some (stringify (api_body c))) (api_program c)"
  by (cases c)
    (simp_all add: api_defs, auto intro!: carries_rules split: fetch_result.split option.split)

section \<open>Every body decodes\<close>

fun api_numbers :: "api_call \<Rightarrow> js_number list" where
  "api_numbers (CreateSelfSigned v) = [cc_renew_before_days v, cs_valid_days v]"
| "api_numbers (CreateACME v) = [cc_renew_before_days v]"
| "api_numbers (UpdateRenewalPolicy p) =
     [rp_max_concurrency p, rp_retry_count p, rp_retry_interval_seconds p]"
| "api_numbers (UpdateCertificate _ v) = [cu_renew_before_days v]"
| "api_numbers _ = []"

fun api_time :: "api_call \<Rightarrow> string option" where
  "api_time (UpdateRenewalPolicy p) = rp_updated_at p"
| "api_time _ = None"

lemma kind_ok_int: "x = NaN \<or> int64_number x \<Longrightarrow> kind_ok isTime GoInt (stringify (JNum x))"
  by (cases x) auto

lemma stringify_record: "stringify (record_js kvs) = record_js kvs"
  by (induction kvs) (auto simp: record_js_def)

lemma kind_ok_record: "kind_ok isTime GoStringMap (stringify (record_js kvs))"
  unfolding stringify_record by (auto simp: record_js_def list_all_iff)

lemma kind_ok_texts: "kind_ok isTime GoStrings (stringify (JArr (map JStr ss)))"
  by (auto simp: list_all_iff)

lemma kind_ok_plain:
  "kind_ok isTime GoString (stringify (JStr s))" "kind_ok isTime GoBool (stringify (JBool b))"
  by simp_all

lemmas field_defs =
  password_fields_def login_fields_def create_fields_def update_fields_def delete_fields_def
  archive_fields_def credential_fields_def policy_fields_def

lemma decodes_stringify:
  "decodes isTime fs (stringify (JObj kvs)) \<longleftrightarrow>
     list_all (\<lambda>(k, v). v = JUndef \<or>
       (case map_of fs k of Some kind \<Rightarrow> kind_ok isTime kind (stringify v) | None \<Rightarrow> False)) kvs"
  by (auto simp: decodes_def list_all_iff)

lemma opt_js_cases: "opt_js f x = JUndef \<or> (\<exists>v. x = Some v \<and> opt_js f x = f v)"
  by (cases x) (auto simp: opt_js_def)

lemmas decode_rules =
  decodes_stringify field_defs kind_ok_int kind_ok_record kind_ok_texts kind_ok_plain

lemma common_decodes:
  assumes "x = NaN \<or> int64_number x" and "cc_renew_before_days v = x"
  shows "list_all (\<lambda>(k, v). v = JUndef \<or>
       (case map_of create_fields k of Some kind \<Rightarrow> kind_ok isTime kind (stringify v) | None \<Rightarrow> False))
     (common_js v)"
  using assms by (simp add: common_js_def decode_rules del: stringify.simps)

lemma create_decodes:
  "cc_renew_before_days v = NaN \<or> int64_number (cc_renew_before_days v) \<Longrightarrow>
     cs_valid_days v = NaN \<or> int64_number (cs_valid_days v) \<Longrightarrow>
     decodes isTime create_fields (stringify (self_signed_js v))"
  "cc_renew_before_days a = NaN \<or> int64_number (cc_renew_before_days a) \<Longrightarrow>
     decodes isTime create_fields (stringify (acme_js a))"
  by (simp_all only: self_signed_js_def acme_js_def decodes_stringify list_all_append
      common_decodes [OF _ refl])
    (simp_all add: create_fields_def kind_ok_int kind_ok_plain del: stringify.simps)

lemma update_decodes:
  "cu_renew_before_days u = NaN \<or> int64_number (cu_renew_before_days u) \<Longrightarrow>
     decodes isTime update_fields (stringify (certificateUpdate_js u))"
  by (simp add: certificateUpdate_js_def decode_rules del: stringify.simps)

lemma credential_decodes: "decodes isTime credential_fields (stringify (dnsCredentialInput_js i))"
  using opt_js_cases [of JStr "di_custom_acme_code i"] opt_js_cases [of record_js "di_values i"]
    opt_js_cases [of record_js "di_environment_refs i"]
  by (auto simp: dnsCredentialInput_js_def decode_rules simp del: stringify.simps)

lemma policy_decodes:
  assumes "list_all (\<lambda>x. x = NaN \<or> int64_number x)
      [rp_max_concurrency p, rp_retry_count p, rp_retry_interval_seconds p]"
    and "\<forall>t. rp_updated_at p = Some t \<longrightarrow> isTime t"
  shows "decodes isTime policy_fields (stringify (renewalPolicy_js p))"
proof -
  have "opt_js JStr (rp_updated_at p) = JUndef
      \<or> kind_ok isTime GoTime (stringify (opt_js JStr (rp_updated_at p)))"
    using opt_js_cases [of JStr "rp_updated_at p"] assms(2) by auto
  with assms(1) show ?thesis
    by (simp add: renewalPolicy_js_def decode_rules del: stringify.simps)
qed

lemma body_decodes:
  assumes "body_fields (api_handler c) = Some fs"
    and "list_all (\<lambda>x. x = NaN \<or> int64_number x) (api_numbers c)"
    and "\<forall>t. api_time c = Some t \<longrightarrow> isTime t"
  shows "decodes isTime fs (stringify (api_body c))"
  using assms
  by (cases c)
    (simp_all add: create_decodes update_decodes credential_decodes policy_decodes del: stringify.simps,
     auto simp: decode_rules simp del: stringify.simps split: if_splits)

section \<open>Properties\<close>



end
