(* ===== verification/Ui.thy ===== *)
theory Ui
  imports Api
begin

text \<open>
  What the pages share. A page is a state and a step function: an event (a user action on a control
  that is rendered and not disabled, or the settling of a mutation) gives the next state and the
  effects the handler starts. \<open>useMutation\<close> and \<open>useQuery\<close> are the status values below. The
  locales hold the two arguments every page uses: an invariant of all states that events can
  lead to, and a property of all effects that are ever started.
\<close>

section \<open>Vocabulary\<close>

datatype mutation = MIdle | MPending | MSuccess | MFailed js_error

datatype 'a query = QPending | QError js_error | QData 'a

datatype effect =
    CallApi api_call
  | ReauthenticateThen string api_call
  | InvalidateQueries string
  | SetQueryData "string list"
  | ClearCache
  | Navigate string bool
  | ClipboardWrite string
  | ExecCopy string

definition query_data :: "'a query \<Rightarrow> 'a option" where
  "query_data q = (case q of QData v \<Rightarrow> Some v | _ \<Rightarrow> None)"

abbreviation pending :: "mutation \<Rightarrow> bool" where
  "pending m \<equiv> m = MPending"

text \<open>\<open>error instanceof ApiError ? error.message : fallback\<close>\<close>

datatype shown = NoError | Shown message | Fallback

definition apiErrorMessage :: "js_error \<Rightarrow> shown" where
  "apiErrorMessage e = (case e of ApiError _ _ msg \<Rightarrow> Shown msg | _ \<Rightarrow> Fallback)"

section \<open>Runs of a page\<close>

type_synonym ('e, 's) page = "'e \<Rightarrow> 's \<Rightarrow> 's \<times> effect list"

fun run_events :: "('e, 's) page \<Rightarrow> 'e list \<Rightarrow> 's \<Rightarrow> 's \<times> effect list" where
  "run_events step [] s = (s, [])"
| "run_events step (e # es) s =
     (let (s1, fs) = step e s; (s2, gs) = run_events step es s1 in (s2, fs @ gs))"

lemma run_events_Cons:
  "run_events step (e # es) s =
     (fst (run_events step es (fst (step e s))),
      snd (step e s) @ snd (run_events step es (fst (step e s))))"
  by (simp add: case_prod_beta)

declare run_events.simps(2) [simp del]
declare run_events_Cons [simp]

lemma run_events_append:
  "run_events step (es @ es') s =
     (fst (run_events step es' (fst (run_events step es s))),
      snd (run_events step es s) @ snd (run_events step es' (fst (run_events step es s))))"
  by (induction es arbitrary: s) auto

locale page_invariant =
  fixes step :: "('e, 's) page" and start :: "'s \<Rightarrow> bool" and inv :: "'s \<Rightarrow> bool"
  assumes start_inv: "start s \<Longrightarrow> inv s"
    and step_inv: "inv s \<Longrightarrow> inv (fst (step e s))"
begin

lemma run_from_inv: "inv s \<Longrightarrow> inv (fst (run_events step es s))"
  by (induction es arbitrary: s) (auto intro: step_inv)

lemma run_inv: "start s \<Longrightarrow> inv (fst (run_events step es s))"
  by (rule run_from_inv) (rule start_inv)

end

locale page_effects = page_invariant step start inv
  for step :: "('e, 's) page" and start :: "'s \<Rightarrow> bool" and inv :: "'s \<Rightarrow> bool" +
  fixes ok :: "effect \<Rightarrow> bool"
  assumes step_ok: "inv s \<Longrightarrow> f \<in> set (snd (step e s)) \<Longrightarrow> ok f"
begin

lemma run_from_ok: "inv s \<Longrightarrow> f \<in> set (snd (run_events step es s)) \<Longrightarrow> ok f"
  by (induction es arbitrary: s) (auto intro: step_ok step_inv)

lemma run_ok: "start s \<Longrightarrow> f \<in> set (snd (run_events step es s)) \<Longrightarrow> ok f"
  using run_from_ok start_inv by blast

end

end
