(* ===== verification/Domain_Policy.thy ===== *)
theory Domain_Policy
  imports Js_Text
begin

text \<open>
  The contract of the wildcard rules, independent of the two programs that implement them (the
  form check in \<open>web/src/validation.ts\<close> and the server check in
  \<open>internal/certificate/validation.go\<close>): a domain name is its list of labels, a wildcard
  \<open>*.base\<close> covers exactly the names one non-empty label below \<open>base\<close>, and a set of names is
  redundant when one of its wildcards covers one of its plain names. The locales state what a
  cover test and a search for a redundant pair promise; what follows from the promise is proved
  once here.
\<close>

section \<open>Names and labels\<close>

definition labels :: "string \<Rightarrow> string list" where
  "labels d = split_on (\<lambda>c. c = CHR ''.'') d"

definition one_label_below :: "string \<Rightarrow> string \<Rightarrow> bool" where
  "one_label_below base d \<longleftrightarrow>
     (case labels d of l # ls \<Rightarrow> l \<noteq> [] \<and> ls = labels base | [] \<Rightarrow> False)"

definition is_wildcard :: "string \<Rightarrow> bool" where
  "is_wildcard d \<longleftrightarrow> startsWith d ''*.''"

definition redundant :: "string set \<Rightarrow> bool" where
  "redundant D \<longleftrightarrow>
     (\<exists>w \<in> D. \<exists>d \<in> D. is_wildcard w \<and> \<not> is_wildcard d \<and> one_label_below (drop 2 w) d)"

section \<open>Interfaces\<close>

locale wildcard_cover =
  fixes covers :: "string \<Rightarrow> string \<Rightarrow> bool"
  assumes covers_labels: "is_wildcard w \<Longrightarrow> covers w d = one_label_below (drop 2 w) d"

locale redundancy_search = wildcard_cover covers
  for covers :: "string \<Rightarrow> string \<Rightarrow> bool" +
  fixes search :: "string \<Rightarrow> string list \<Rightarrow> 'r option"
    and found :: "'r \<Rightarrow> string \<times> string \<times> bool"
  assumes search_None: "search p ds = None \<Longrightarrow>
      d \<in> set ds \<Longrightarrow> w \<in> set ds \<Longrightarrow> is_wildcard w \<Longrightarrow> \<not> is_wildcard d \<Longrightarrow> \<not> covers w d"
    and search_Some: "search p ds = Some r \<Longrightarrow> found r = (d, w, b) \<Longrightarrow>
      d \<in> set ds \<and> w \<in> set ds \<and> is_wildcard w \<and> \<not> is_wildcard d \<and> covers w d \<and> b = (d = p)"
    and search_head: "search p (d' # ds) = Some r \<Longrightarrow> found r = (d, w, b) \<Longrightarrow> \<not> is_wildcard d' \<Longrightarrow>
      w' \<in> set ds \<Longrightarrow> is_wildcard w' \<Longrightarrow> covers w' d' \<Longrightarrow> d = d'"
begin

lemma search_iff_redundant: "search p ds = None \<longleftrightarrow> \<not> redundant (set ds)"
proof
  assume "search p ds = None"
  then show "\<not> redundant (set ds)"
    using search_None covers_labels by (auto simp: redundant_def)
next
  assume not_red: "\<not> redundant (set ds)"
  show "search p ds = None"
  proof (rule ccontr)
    assume "search p ds \<noteq> None"
    then obtain r where r: "search p ds = Some r" by blast
    obtain d w b where "found r = (d, w, b)" by (cases "found r")
    from search_Some [OF r this] not_red show False
      using covers_labels by (auto simp: redundant_def)
  qed
qed

lemma search_set_cong: "set ds = set ds' \<Longrightarrow> (search p ds = None) = (search q ds' = None)"
  by (simp add: search_iff_redundant)

lemma search_primary:
  assumes "search p (p # ds) = Some r" and "found r = (d, w, b)" and "\<not> is_wildcard p"
  shows "b \<longleftrightarrow> (\<exists>w \<in> set ds. is_wildcard w \<and> one_label_below (drop 2 w) p)"
proof
  assume b
  with search_Some [OF assms(1,2)] assms(3) have "w \<in> set ds" "is_wildcard w" "covers w p" by auto
  then show "\<exists>w \<in> set ds. is_wildcard w \<and> one_label_below (drop 2 w) p"
    using covers_labels by blast
next
  assume "\<exists>w \<in> set ds. is_wildcard w \<and> one_label_below (drop 2 w) p"
  then obtain w' where "w' \<in> set ds" "is_wildcard w'" "covers w' p" using covers_labels by blast
  from search_head [OF assms this] search_Some [OF assms(1,2)] show b by simp
qed

lemma search_reports:
  "search p ds = Some r \<Longrightarrow> found r = (d, w, b) \<Longrightarrow>
     one_label_below (drop 2 w) d \<and> d \<in> set ds \<and> w \<in> set ds \<and> (b \<longleftrightarrow> d = p)"
  using search_Some covers_labels by blast

end

section \<open>Labels of concrete shapes\<close>

lemma labels_Cons_label:
  "CHR ''.'' \<notin> set l \<Longrightarrow> labels (l @ CHR ''.'' # base) = l # labels base"
  unfolding labels_def by (rule split_on_append_sep) auto

lemma join_labels: "join ''.'' (labels d) = d"
  by (simp add: labels_def join_split_on)

lemma labels_inj: "labels d = labels e \<Longrightarrow> d = e"
  by (metis join_labels)

lemma labels_not_Nil [simp]: "labels d \<noteq> []"
  by (simp add: labels_def)

lemma labels_no_dot: "l \<in> set (labels d) \<Longrightarrow> CHR ''.'' \<notin> set l"
  unfolding labels_def by (auto dest: split_on_parts)

lemma one_label_below_iff:
  "one_label_below base d \<longleftrightarrow> (\<exists>l. l \<noteq> [] \<and> CHR ''.'' \<notin> set l \<and> d = l @ CHR ''.'' # base)"
proof
  assume "one_label_below base d"
  then obtain l where l: "l \<noteq> []" "labels d = l # labels base"
    by (auto simp: one_label_below_def split: list.splits)
  have "CHR ''.'' \<notin> set l"
    using l labels_no_dot [of l d] by simp
  moreover have "d = l @ CHR ''.'' # base"
    using l join_labels [of d] join_labels [of base] by (cases "labels base") auto
  ultimately show "\<exists>l. l \<noteq> [] \<and> CHR ''.'' \<notin> set l \<and> d = l @ CHR ''.'' # base"
    using l by blast
next
  assume "\<exists>l. l \<noteq> [] \<and> CHR ''.'' \<notin> set l \<and> d = l @ CHR ''.'' # base"
  then show "one_label_below base d"
    by (auto simp: one_label_below_def labels_Cons_label)
qed

lemma one_label_below_Nil [simp]: "\<not> one_label_below base []"
  by (simp add: one_label_below_iff)

lemma length_labels_below: "one_label_below base d \<Longrightarrow> length (labels d) = Suc (length (labels base))"
  by (auto simp: one_label_below_def split: list.splits)

lemma is_wildcard_iff: "is_wildcard w \<longleftrightarrow> (\<exists>base. w = ''*.'' @ base)"
  by (auto simp: is_wildcard_def startsWith_def prefix_def)

lemma is_wildcardE: "is_wildcard w \<Longrightarrow> (\<And>base. w = ''*.'' @ base \<Longrightarrow> drop 2 w = base \<Longrightarrow> P) \<Longrightarrow> P"
  by (auto simp: is_wildcard_iff)

end
