(* ===== verification/Validation.thy ===== *)
theory Validation
  imports Domain_Policy
begin

text \<open>
  \<open>web/src/validation.ts\<close>: splitting the SAN field, the wildcard cover test, the search for a
  redundant name, and the check of a custom CA directory URL. \<open>new URL\<close> belongs to the browser, so
  \<open>isSafeCADirectoryURL\<close> takes the URL parser as its argument.
\<close>

section \<open>Definitions\<close>

record parsed_url =
  protocol :: string
  url_host :: string
  username :: string
  password :: string
  hash :: string

record redundantACMEDomain =
  rd_domain :: string
  rd_wildcard :: string
  rd_primary :: bool

definition isSafeCADirectoryURL :: "(string \<Rightarrow> parsed_url option) \<Rightarrow> string \<Rightarrow> bool" where
  "isSafeCADirectoryURL newURL value =
     (case newURL value of
        None \<Rightarrow> False
      | Some parsed \<Rightarrow>
          protocol parsed = ''https:'' \<and> url_host parsed \<noteq> [] \<and> username parsed = []
          \<and> password parsed = [] \<and> hash parsed = [])"

definition parseSANDomains :: "string \<Rightarrow> string list" where
  "parseSANDomains value =
     filter (\<lambda>d. d \<noteq> []) (map trim (split_on (\<lambda>c. c = CHR ''\<newline>'' \<or> c = CHR '','') value))"

definition wildcardCoversDomain :: "string \<Rightarrow> string \<Rightarrow> bool" where
  "wildcardCoversDomain wildcard domain =
     (let suffix = ''.'' @ drop 2 wildcard in
      if \<not> endsWith domain suffix then False
      else (let leftmostLabel = take (length domain - length suffix) domain
            in leftmostLabel \<noteq> [] \<and> CHR ''.'' \<notin> set leftmostLabel))"

text \<open>The loop over the domains and the sorted, deduplicated wildcards, with its early return.\<close>

definition scanRedundant :: "string \<Rightarrow> string list \<Rightarrow> redundantACMEDomain option" where
  "scanRedundant normalizedPrimary domains =
     (let wildcards = sort (dedup (filter (\<lambda>d. startsWith d ''*.'') domains))
      in map_option
           (\<lambda>(domain, wildcard). \<lparr>rd_domain = domain, rd_wildcard = wildcard,
              rd_primary = (domain = normalizedPrimary)\<rparr>)
           (first_pair (\<lambda>domain wildcard.
              \<not> (domain = [] \<or> startsWith domain ''*.'') \<and> wildcardCoversDomain wildcard domain)
              domains wildcards))"

definition findRedundantACMEDomain :: "string \<Rightarrow> string list \<Rightarrow> redundantACMEDomain option" where
  "findRedundantACMEDomain primary sans =
     (let normalizedPrimary = toLowerCase (trim primary);
          domains = normalizedPrimary #
            filter (\<lambda>d. d \<noteq> []) (map (\<lambda>domain. toLowerCase (trim domain)) sans)
      in scanRedundant normalizedPrimary domains)"

text \<open>A name as the SAN field delivers it.\<close>

definition clean_name :: "string \<Rightarrow> bool" where
  "clean_name d \<longleftrightarrow> d \<noteq> [] \<and> trim d = d \<and> CHR '','' \<notin> set d \<and> CHR ''\<newline>'' \<notin> set d"

section \<open>The cover test\<close>

lemma wildcardCoversDomain_iff:
  "wildcardCoversDomain w d \<longleftrightarrow> one_label_below (drop 2 w) d"
  by (auto simp: wildcardCoversDomain_def one_label_below_iff Let_def endsWith_def suffix_def)

section \<open>The search\<close>

definition found_ts :: "redundantACMEDomain \<Rightarrow> string \<times> string \<times> bool" where
  "found_ts r = (rd_domain r, rd_wildcard r, rd_primary r)"

interpretation ts: redundancy_search wildcardCoversDomain scanRedundant found_ts
proof unfold_locales
  show "wildcardCoversDomain w d = one_label_below (drop 2 w) d" for w d
    by (rule wildcardCoversDomain_iff)
next
  fix p ds d w
  assume "scanRedundant p ds = None" "d \<in> set ds" "w \<in> set ds" "is_wildcard w" "\<not> is_wildcard d"
  then have "d = [] \<or> \<not> wildcardCoversDomain w d"
    by (auto simp: scanRedundant_def first_pair_None_iff is_wildcard_def)
  then show "\<not> wildcardCoversDomain w d"
    by (auto simp: wildcardCoversDomain_iff)
next
  fix p ds r d w b
  assume "scanRedundant p ds = Some r" "found_ts r = (d, w, b)"
  then show "d \<in> set ds \<and> w \<in> set ds \<and> is_wildcard w \<and> \<not> is_wildcard d
      \<and> wildcardCoversDomain w d \<and> b = (d = p)"
    by (auto simp: scanRedundant_def found_ts_def is_wildcard_def dest!: first_pair_SomeD)
next
  fix p d' ds r d w b w'
  assume "scanRedundant p (d' # ds) = Some r" "found_ts r = (d, w, b)" "\<not> is_wildcard d'"
    "w' \<in> set ds" "is_wildcard w'" "wildcardCoversDomain w' d'"
  then show "d = d'"
    by (auto simp: scanRedundant_def found_ts_def is_wildcard_def wildcardCoversDomain_iff
        simp del: first_pair.simps dest!: first_pair_head [of _ _ _ _ _ _ w'])
qed

definition normalized_names :: "string \<Rightarrow> string list \<Rightarrow> string set" where
  "normalized_names primary sans =
     insert (toLowerCase (trim primary)) ((\<lambda>d. toLowerCase (trim d)) ` set sans - {[]})"

lemma normalized_names_set:
  "set (toLowerCase (trim primary) #
     filter (\<lambda>d. d \<noteq> []) (map (\<lambda>domain. toLowerCase (trim domain)) sans))
   = normalized_names primary sans"
  by (auto simp: normalized_names_def)

lemma findRedundantACMEDomain_None:
  "findRedundantACMEDomain primary sans = None \<longleftrightarrow> \<not> redundant (normalized_names primary sans)"
  unfolding findRedundantACMEDomain_def Let_def ts.search_iff_redundant normalized_names_set ..

section \<open>The SAN field\<close>

lemma parseSANDomains_clean:
  "d \<in> set (parseSANDomains v) \<Longrightarrow>
     d \<noteq> [] \<and> trim d = d \<and> CHR '','' \<notin> set d \<and> CHR ''\<newline>'' \<notin> set d"
proof -
  assume "d \<in> set (parseSANDomains v)"
  then obtain e where e: "e \<in> set (split_on (\<lambda>c. c = CHR ''\<newline>'' \<or> c = CHR '','') v)"
    and d: "d = trim e" "d \<noteq> []"
    by (auto simp: parseSANDomains_def)
  have "\<forall>c \<in> set e. \<not> (c = CHR ''\<newline>'' \<or> c = CHR '','')"
    using split_on_parts [OF e] .
  with d set_trim [of e] show ?thesis by auto
qed

lemma parseSANDomains_join:
  assumes "list_all clean_name ds"
  shows "parseSANDomains (join [CHR ''\<newline>''] ds) = ds"
proof (cases "ds = []")
  case True
  then show ?thesis by (simp add: parseSANDomains_def)
next
  case False
  then have "split_on (\<lambda>c. c = CHR ''\<newline>'' \<or> c = CHR '','') (join [CHR ''\<newline>''] ds) = ds"
    using assms by (intro split_on_join) (auto simp: list_all_iff clean_name_def)
  moreover have "filter (\<lambda>d. d \<noteq> []) (map trim ds) = ds"
    using assms by (induction ds) (auto simp: clean_name_def)
  ultimately show ?thesis by (simp add: parseSANDomains_def)
qed

section \<open>Properties\<close>

text \<open>
  A reported redundancy is one: the wildcard covers exactly the one label below its base, both
  names are among the normalised names that were entered, and the flag says whether the covered
  name is the primary domain.
\<close>

theorem reported_redundancy_is_real:
  assumes "findRedundantACMEDomain primary sans = Some r"
  shows "one_label_below (drop 2 (rd_wildcard r)) (rd_domain r)
    \<and> {rd_domain r, rd_wildcard r} \<subseteq> normalized_names primary sans
    \<and> (rd_primary r \<longleftrightarrow> rd_domain r = toLowerCase (trim primary))"
proof -
  let ?ds = "toLowerCase (trim primary) #
    filter (\<lambda>d. d \<noteq> []) (map (\<lambda>domain. toLowerCase (trim domain)) sans)"
  have "scanRedundant (toLowerCase (trim primary)) ?ds = Some r"
    using assms by (simp only: findRedundantACMEDomain_def Let_def)
  from ts.search_reports [OF this found_ts_def] show ?thesis
    unfolding normalized_names_set by simp
qed

theorem reported_redundancy_is_real_witness:
  "one_label_below ''example.com'' ''www.example.com''
    \<and> ''*.example.com'' \<in> normalized_names ''www.example.com'' ['' *.Example.com'']"
proof -
  have r: "findRedundantACMEDomain ''www.example.com'' ['' *.Example.com''] =
      Some \<lparr>rd_domain = ''www.example.com'', rd_wildcard = ''*.example.com'', rd_primary = True\<rparr>"
    by code_simp
  from reported_redundancy_is_real [OF r] show ?thesis by simp
qed

text \<open>
  The SAN field reads back what it shows: every parsed field is a list of trimmed, non-empty
  names without commas or line breaks, and such a list, shown one name per line, is parsed to the
  same list.
\<close>

theorem parseSANDomains_round_trip:
  "list_all clean_name (parseSANDomains v)
    \<and> (list_all clean_name ds \<longrightarrow> parseSANDomains (join [CHR ''\<newline>''] ds) = ds)"
  using parseSANDomains_clean [of _ v] parseSANDomains_join [of ds]
  unfolding list_all_iff [of _ "parseSANDomains v"] clean_name_def [abs_def] by blast

theorem parseSANDomains_round_trip_witness:
  "parseSANDomains (join [CHR ''\<newline>''] [''a.example'', ''b.example'']) = [''a.example'', ''b.example'']"
proof -
  have "list_all clean_name [''a.example'', ''b.example'']" by code_simp
  then show ?thesis
    using parseSANDomains_round_trip [of "[]" "[''a.example'', ''b.example'']"] by blast
qed

end
