(* ===== verification/Create_Form.thy ===== *)
theory Create_Form
  imports Ui Validation
begin

text \<open>
  \<open>CreateCertificatePage\<close> of \<open>web/src/CertificatePages.tsx\<close>: the form schema with its issues, the
  five-step wizard and the submitted payload. The schema library is modelled as far as the schema
  uses it: \<open>trim\<close> replaces the text before the checks after it; a failed length, range or pattern
  check lets the refinement run, a value that is no integer (\<open>NaN\<close> included) stops it. A number
  field delivers \<open>NaN\<close> for an empty input and the number otherwise. \<open>form.trigger\<close> and
  \<open>form.handleSubmit\<close> are one step each.
\<close>

section \<open>Values and issues\<close>

record formValue =
  fv_mode :: cert_mode
  fv_name :: string
  fv_primary_domain :: string
  fv_sans :: string
  fv_key_type :: key_type
  fv_valid_days :: js_number
  fv_output_directory :: string
  fv_auto_renew_enabled :: bool
  fv_renew_before_days :: js_number
  fv_create_renewed_marker :: bool
  fv_challenge_type :: challenge
  fv_dns_credential_id :: string
  fv_ca_directory_url :: string
  fv_acme_email :: string

datatype form_field =
    Mode | Name | Primary_domain | Sans | Key_type | Valid_days | Output_directory
  | Auto_renew_enabled | Renew_before_days | Create_renewed_marker | Challenge_type
  | Dns_credential_id | Ca_directory_url | Acme_email

datatype issue_code =
    TooSmall | TooBig | InvalidType | InvalidFormat | Redundant redundantACMEDomain
  | EmailInvalid | CaMissing | CaUnsafe | CredentialMissing | NotBelowValidDays

datatype issue = Issue (path: form_field) (issue_code: issue_code)

definition aborting :: "issue \<Rightarrow> bool" where
  "aborting i \<longleftrightarrow> issue_code i = InvalidType"

section \<open>The schema\<close>

definition trimmed :: "formValue \<Rightarrow> formValue" where
  "trimmed v = v\<lparr>fv_name := trim (fv_name v), fv_primary_domain := trim (fv_primary_domain v),
     fv_output_directory := trim (fv_output_directory v)\<rparr>"

definition output_directory_pattern :: "string \<Rightarrow> bool" where
  "output_directory_pattern s \<longleftrightarrow>
     (case s of
        [] \<Rightarrow> True
      | c # cs \<Rightarrow> (is_lower_ascii c \<or> is_digit c) \<and> length cs \<le> 62
          \<and> list_all (\<lambda>d. is_lower_ascii d \<or> is_digit d \<or> d = CHR ''-'') cs)"

definition max_safe_integer :: rat where
  "max_safe_integer = 9007199254740991"

definition int_issues :: "form_field \<Rightarrow> rat \<Rightarrow> rat \<Rightarrow> js_number \<Rightarrow> issue list" where
  "int_issues f lo hi x =
     (case x of
        NaN \<Rightarrow> [Issue f InvalidType]
      | Fin q \<Rightarrow>
          if q \<noteq> of_int \<lfloor>q\<rfloor> then [Issue f InvalidType]
          else (if q > max_safe_integer then [Issue f TooBig] else [])
            @ (if q < - max_safe_integer then [Issue f TooSmall] else [])
            @ (if q < lo then [Issue f TooSmall] else [])
            @ (if q > hi then [Issue f TooBig] else []))"

definition base_issues :: "formValue \<Rightarrow> issue list" where
  "base_issues v =
     (if length (fv_name v) < 1 then [Issue Name TooSmall] else [])
     @ (if length (fv_name v) > 100 then [Issue Name TooBig] else [])
     @ (if length (fv_primary_domain v) < 1 then [Issue Primary_domain TooSmall] else [])
     @ int_issues Valid_days 1 3650 (fv_valid_days v)
     @ (if \<not> output_directory_pattern (fv_output_directory v)
        then [Issue Output_directory InvalidFormat] else [])
     @ int_issues Renew_before_days 1 365 (fv_renew_before_days v)"

definition ca_presets :: "string list" where
  "ca_presets = [''letsencrypt'', ''letsencrypt_test'', ''zerossl'']"

fun number_ge :: "js_number \<Rightarrow> js_number \<Rightarrow> bool" where
  "number_ge (Fin a) (Fin b) = (a \<ge> b)"
| "number_ge _ _ = False"

definition refine_issues :: "(string \<Rightarrow> parsed_url option) \<Rightarrow> formValue \<Rightarrow> issue list" where
  "refine_issues newURL v =
     (if fv_mode v = Acme then
        (case findRedundantACMEDomain (fv_primary_domain v) (parseSANDomains (fv_sans v)) of
           Some r \<Rightarrow> [Issue (if rd_primary r then Primary_domain else Sans) (Redundant r)]
         | None \<Rightarrow> [])
        @ (if \<not> js_includes (fv_acme_email v) ''@'' then [Issue Acme_email EmailInvalid] else [])
        @ (if trim (fv_ca_directory_url v) = [] then [Issue Ca_directory_url CaMissing]
           else if fv_ca_directory_url v \<notin> set ca_presets
                \<and> \<not> isSafeCADirectoryURL newURL (fv_ca_directory_url v)
           then [Issue Ca_directory_url CaUnsafe] else [])
        @ (if fv_challenge_type v = Dns01 \<and> fv_dns_credential_id v = []
           then [Issue Dns_credential_id CredentialMissing] else [])
      else if number_ge (fv_renew_before_days v) (fv_valid_days v)
      then [Issue Renew_before_days NotBelowValidDays] else [])"

definition formSchema :: "(string \<Rightarrow> parsed_url option) \<Rightarrow> formValue \<Rightarrow> issue list" where
  "formSchema newURL v =
     (let t = trimmed v; base = base_issues t
      in base @ (if list_ex aborting base then [] else refine_issues newURL t))"

section \<open>The wizard\<close>

record wizard =
  wz_value :: formValue
  wz_activeStep :: nat
  wz_mutation :: mutation

definition defaultValues :: formValue where
  "defaultValues = \<lparr>fv_mode = SelfSigned, fv_name = [], fv_primary_domain = [], fv_sans = [],
     fv_key_type = Ec256, fv_valid_days = Fin 365, fv_output_directory = [],
     fv_auto_renew_enabled = True, fv_renew_before_days = Fin 30, fv_create_renewed_marker = True,
     fv_challenge_type = Dns01, fv_dns_credential_id = [], fv_ca_directory_url = ''letsencrypt'',
     fv_acme_email = []\<rparr>"

definition wizard_init :: wizard where
  "wizard_init = \<lparr>wz_value = defaultValues, wz_activeStep = 0, wz_mutation = MIdle\<rparr>"

definition steps_length :: nat where
  "steps_length = 5"

definition step_fields :: "cert_mode \<Rightarrow> nat \<Rightarrow> form_field list" where
  "step_fields mode i =
     [[Mode], [Name, Primary_domain, Sans],
      (if mode = Acme
       then [Key_type, Challenge_type, Dns_credential_id, Ca_directory_url, Acme_email]
       else [Key_type, Valid_days]),
      [Output_directory, Auto_renew_enabled, Renew_before_days, Create_renewed_marker]] ! i"

definition trigger :: "(string \<Rightarrow> parsed_url option) \<Rightarrow> form_field list \<Rightarrow> formValue \<Rightarrow> bool" where
  "trigger newURL fs v \<longleftrightarrow> list_all (\<lambda>i. path i \<notin> set fs) (formSchema newURL v)"

definition advance :: "(string \<Rightarrow> parsed_url option) \<Rightarrow> wizard \<Rightarrow> wizard" where
  "advance newURL s =
     (if trigger newURL (step_fields (fv_mode (wz_value s)) (wz_activeStep s)) (wz_value s)
      then s\<lparr>wz_activeStep := min (wz_activeStep s + 1) (steps_length - 1)\<rparr> else s)"

definition create_common :: "formValue \<Rightarrow> createCommon" where
  "create_common value = \<lparr>cc_name = fv_name value, cc_primary_domain = fv_primary_domain value,
     cc_sans = parseSANDomains (fv_sans value), cc_key_type = fv_key_type value,
     cc_output_directory = fv_output_directory value,
     cc_auto_renew_enabled = fv_auto_renew_enabled value,
     cc_renew_before_days = fv_renew_before_days value,
     cc_create_renewed_marker = fv_create_renewed_marker value\<rparr>"

definition create_call :: "formValue \<Rightarrow> api_call" where
  "create_call value =
     (if fv_mode value = Acme
      then CreateACME (createCommon.extend (create_common value)
             (createACME.fields (fv_challenge_type value) (fv_dns_credential_id value)
               (fv_ca_directory_url value) (fv_acme_email value)))
      else CreateSelfSigned (createCommon.extend (create_common value)
             (createSelfSigned.fields (fv_valid_days value))))"

definition valueAsNumber :: "string \<Rightarrow> js_number" where
  "valueAsNumber s = (if s = [] then NaN else js_Number s)"

datatype wizard_event =
    ChooseMode cert_mode | TypeName string | TypePrimary string | TypeSans string
  | ChooseKey key_type | TypeValidDays string | ChooseCa string | TypeCaUrl string
  | TypeEmail string | ChooseChallenge challenge | ChooseCredential string
  | TypeOutput string | TypeRenewDays string | ToggleAutoRenew bool | ToggleMarker bool
  | Next | Back | Confirm | CreateSettled "js_error + string"

text \<open>A control changes the form only while its step shows it.\<close>

definition edit :: "bool \<Rightarrow> (formValue \<Rightarrow> formValue) \<Rightarrow> wizard \<Rightarrow> wizard \<times> effect list" where
  "edit visible f s = (if visible then s\<lparr>wz_value := f (wz_value s)\<rparr> else s, [])"

fun wizard_step ::
  "(string \<Rightarrow> parsed_url option) \<Rightarrow> wizard_event \<Rightarrow> wizard \<Rightarrow> wizard \<times> effect list" where
  "wizard_step newURL (ChooseMode m) s = edit (wz_activeStep s = 0) (\<lambda>v. v\<lparr>fv_mode := m\<rparr>) s"
| "wizard_step newURL (TypeName t) s = edit (wz_activeStep s = 1) (\<lambda>v. v\<lparr>fv_name := t\<rparr>) s"
| "wizard_step newURL (TypePrimary t) s =
     edit (wz_activeStep s = 1) (\<lambda>v. v\<lparr>fv_primary_domain := t\<rparr>) s"
| "wizard_step newURL (TypeSans t) s = edit (wz_activeStep s = 1) (\<lambda>v. v\<lparr>fv_sans := t\<rparr>) s"
| "wizard_step newURL (ChooseKey k) s = edit (wz_activeStep s = 2) (\<lambda>v. v\<lparr>fv_key_type := k\<rparr>) s"
| "wizard_step newURL (TypeValidDays t) s =
     edit (wz_activeStep s = 2 \<and> fv_mode (wz_value s) = SelfSigned)
       (\<lambda>v. v\<lparr>fv_valid_days := valueAsNumber t\<rparr>) s"
| "wizard_step newURL (ChooseCa t) s =
     edit (wz_activeStep s = 2 \<and> fv_mode (wz_value s) = Acme \<and> t \<in> set ([] # ''custom'' # ca_presets))
       (\<lambda>v. v\<lparr>fv_ca_directory_url := (if t = ''custom'' then [] else t)\<rparr>) s"
| "wizard_step newURL (TypeCaUrl t) s =
     edit (wz_activeStep s = 2 \<and> fv_mode (wz_value s) = Acme
           \<and> fv_ca_directory_url (wz_value s) \<notin> set ca_presets)
       (\<lambda>v. v\<lparr>fv_ca_directory_url := t\<rparr>) s"
| "wizard_step newURL (TypeEmail t) s =
     edit (wz_activeStep s = 2 \<and> fv_mode (wz_value s) = Acme) (\<lambda>v. v\<lparr>fv_acme_email := t\<rparr>) s"
| "wizard_step newURL (ChooseChallenge c) s =
     edit (wz_activeStep s = 2 \<and> fv_mode (wz_value s) = Acme) (\<lambda>v. v\<lparr>fv_challenge_type := c\<rparr>) s"
| "wizard_step newURL (ChooseCredential i) s =
     edit (wz_activeStep s = 2 \<and> fv_mode (wz_value s) = Acme \<and> fv_challenge_type (wz_value s) = Dns01)
       (\<lambda>v. v\<lparr>fv_dns_credential_id := i\<rparr>) s"
| "wizard_step newURL (TypeOutput t) s =
     edit (wz_activeStep s = 3) (\<lambda>v. v\<lparr>fv_output_directory := t\<rparr>) s"
| "wizard_step newURL (TypeRenewDays t) s =
     edit (wz_activeStep s = 3) (\<lambda>v. v\<lparr>fv_renew_before_days := valueAsNumber t\<rparr>) s"
| "wizard_step newURL (ToggleAutoRenew b) s =
     edit (wz_activeStep s = 3) (\<lambda>v. v\<lparr>fv_auto_renew_enabled := b\<rparr>) s"
| "wizard_step newURL (ToggleMarker b) s =
     edit (wz_activeStep s = 3) (\<lambda>v. v\<lparr>fv_create_renewed_marker := b\<rparr>) s"
| "wizard_step newURL Next s =
     (if wz_activeStep s < steps_length - 1 then (advance newURL s, []) else (s, []))"
| "wizard_step newURL Back s =
     (if wz_activeStep s > 0 then (s\<lparr>wz_activeStep := wz_activeStep s - 1\<rparr>, []) else (s, []))"
| "wizard_step newURL Confirm s =
     (if wz_activeStep s = steps_length - 1 \<and> \<not> pending (wz_mutation s)
         \<and> formSchema newURL (wz_value s) = []
      then (s\<lparr>wz_mutation := MPending\<rparr>, [CallApi (create_call (trimmed (wz_value s)))])
      else (s, []))"
| "wizard_step newURL (CreateSettled r) s =
     (if \<not> pending (wz_mutation s) then (s, [])
      else case r of
        Inr i \<Rightarrow> (s\<lparr>wz_mutation := MSuccess\<rparr>,
          [InvalidateQueries ''certificates'', Navigate (''/certificates/'' @ i) True])
      | Inl e \<Rightarrow> (s\<lparr>wz_mutation := MFailed e\<rparr>, []))"

section \<open>What an accepted form guarantees\<close>

definition int_between :: "rat \<Rightarrow> rat \<Rightarrow> js_number \<Rightarrow> bool" where
  "int_between lo hi x = (case x of NaN \<Rightarrow> False | Fin q \<Rightarrow> q = of_int \<lfloor>q\<rfloor> \<and> lo \<le> q \<and> q \<le> hi)"

definition common_ok :: "'a createCommon_scheme \<Rightarrow> bool" where
  "common_ok v \<longleftrightarrow>
     trim (cc_name v) = cc_name v \<and> 1 \<le> length (cc_name v) \<and> length (cc_name v) \<le> 100
     \<and> trim (cc_primary_domain v) = cc_primary_domain v \<and> cc_primary_domain v \<noteq> []
     \<and> list_all clean_name (cc_sans v)
     \<and> output_directory_pattern (cc_output_directory v)
     \<and> int_between 1 365 (cc_renew_before_days v)"

definition self_signed_ok :: "createSelfSigned \<Rightarrow> bool" where
  "self_signed_ok v \<longleftrightarrow> common_ok v \<and> int_between 1 3650 (cs_valid_days v)
     \<and> \<not> number_ge (cc_renew_before_days v) (cs_valid_days v)"

definition acme_ok :: "(string \<Rightarrow> parsed_url option) \<Rightarrow> createACME \<Rightarrow> bool" where
  "acme_ok newURL v \<longleftrightarrow> common_ok v
     \<and> findRedundantACMEDomain (cc_primary_domain v) (cc_sans v) = None
     \<and> CHR ''@'' \<in> set (ca_acme_email v)
     \<and> (ca_ca_directory_url v \<in> set ca_presets \<or> isSafeCADirectoryURL newURL (ca_ca_directory_url v))
     \<and> (ca_challenge_type v = Dns01 \<longrightarrow> ca_dns_credential_id v \<noteq> [])"

fun create_ok :: "(string \<Rightarrow> parsed_url option) \<Rightarrow> api_call \<Rightarrow> bool" where
  "create_ok newURL (CreateSelfSigned v) = self_signed_ok v"
| "create_ok newURL (CreateACME v) = acme_ok newURL v"
| "create_ok newURL _ = False"

lemma int_issues_Nil: "int_issues f lo hi x = [] \<Longrightarrow> int_between lo hi x"
  by (auto simp: int_issues_def int_between_def split: js_number.splits if_splits)

lemma js_includes_single: "js_includes s [c] \<longleftrightarrow> c \<in> set s"
  by (auto simp: js_includes_def sublist_def in_set_conv_decomp)

lemma base_issues_Nil:
  "base_issues v = [] \<Longrightarrow>
     1 \<le> length (fv_name v) \<and> length (fv_name v) \<le> 100 \<and> fv_primary_domain v \<noteq> []
     \<and> output_directory_pattern (fv_output_directory v)
     \<and> int_between 1 3650 (fv_valid_days v) \<and> int_between 1 365 (fv_renew_before_days v)"
  using int_issues_Nil by (auto simp: base_issues_def Suc_le_eq split: if_splits)

lemma clean_parseSANDomains: "list_all clean_name (parseSANDomains v)"
  using parseSANDomains_clean [of _ v] unfolding list_all_iff clean_name_def by blast

lemma create_call_ok:
  assumes "formSchema newURL v = []"
  shows "create_ok newURL (create_call (trimmed v))"
proof -
  have base: "base_issues (trimmed v) = []" and refine: "refine_issues newURL (trimmed v) = []"
    using assms by (auto simp: formSchema_def Let_def split: if_splits)
  note b = base_issues_Nil [OF base]
  have common: "common_ok (createCommon.extend (create_common (trimmed v)) x)" for x :: 'x
    using b clean_parseSANDomains
    by (simp add: common_ok_def create_common_def createCommon.defs trimmed_def)
  show ?thesis
  proof (cases "fv_mode v = Acme")
    case True
    then show ?thesis
      using refine common
      by (auto simp: create_call_def acme_ok_def refine_issues_def trimmed_def createCommon.defs
          createACME.defs create_common_def js_includes_single split: if_splits option.splits)
  next
    case False
    then show ?thesis
      using refine common b
      by (auto simp: create_call_def self_signed_ok_def refine_issues_def trimmed_def
          createCommon.defs createSelfSigned.defs create_common_def split: if_splits)
  qed
qed

section \<open>The wizard as a page\<close>

definition wizard_inv :: "wizard \<Rightarrow> bool" where
  "wizard_inv s \<longleftrightarrow> wz_activeStep s < steps_length"

fun wizard_effect_ok :: "(string \<Rightarrow> parsed_url option) \<Rightarrow> effect \<Rightarrow> bool" where
  "wizard_effect_ok newURL (CallApi c) = create_ok newURL c"
| "wizard_effect_ok newURL _ = True"

interpretation create_wizard: page_effects "wizard_step newURL" "\<lambda>s. s = wizard_init" wizard_inv
  "wizard_effect_ok newURL" for newURL
proof
  show "s = wizard_init \<Longrightarrow> wizard_inv s" for s
    by (simp add: wizard_inv_def wizard_init_def steps_length_def)
  show "wizard_inv s \<Longrightarrow> wizard_inv (fst (wizard_step newURL e s))" for s e
    by (cases e) (auto simp: wizard_inv_def edit_def advance_def steps_length_def split: sum.splits)
  show "wizard_inv s \<Longrightarrow> f \<in> set (snd (wizard_step newURL e s)) \<Longrightarrow> wizard_effect_ok newURL f" for s f e
    by (cases e) (auto simp: edit_def create_call_ok split: sum.splits if_splits)
qed

end
