(* ===== verification/Go_Validation.thy ===== *)
theory Go_Validation
  imports Domain_Policy
begin

text \<open>
  \<open>internal/certificate/validation.go\<close> and the directory rule of
  \<open>internal/certificate/files/publisher.go\<close>: normalisation and validation of the domain list, the
  server's redundancy check, and the output directory derived from a domain. Go strings hold UTF-8
  bytes; here they are the code points, and \<open>len\<close> is \<^const>\<open>go_len\<close>. Errors are values of a
  datatype with one constructor per message.
\<close>

section \<open>Definitions\<close>

datatype domain_error =
    LengthInvalid | NotLowerCase | PrimaryWildcard | WildcardBase | WildcardPosition
  | TooFewLabels | LabelInvalid | CharacterInvalid

datatype normalize_error = PrimaryError domain_error | SANError string domain_error

record redundantDomainError =
  re_Domain :: string
  re_Wildcard :: string
  re_Primary :: bool

definition domain_char :: "char \<Rightarrow> bool" where
  "domain_char c \<longleftrightarrow> is_lower_ascii c \<or> is_digit c \<or> c = CHR ''-''"

definition validateLabel :: "string \<Rightarrow> domain_error option" where
  "validateLabel label =
     (if go_len label = 0 \<or> go_len label > 63 \<or> hd label = CHR ''-'' \<or> last label = CHR ''-''
      then Some LabelInvalid
      else if \<not> list_all domain_char label then Some CharacterInvalid
      else None)"

fun validateLabels :: "string list \<Rightarrow> domain_error option" where
  "validateLabels [] = None"
| "validateLabels (label # rest) =
     (case validateLabel label of Some e \<Rightarrow> Some e | None \<Rightarrow> validateLabels rest)"

definition validateUnprefixed :: "string \<Rightarrow> domain_error option" where
  "validateUnprefixed domain =
     (if CHR ''*'' \<in> set domain then Some WildcardPosition
      else if length (labels domain) < 2 then Some TooFewLabels
      else validateLabels (labels domain))"

definition validateDomain :: "string \<Rightarrow> bool \<Rightarrow> domain_error option" where
  "validateDomain domain allowWildcard =
     (if domain = [] \<or> go_len domain > 253 then Some LengthInvalid
      else if domain \<noteq> toLowerCase domain \<or> go_TrimSpace domain \<noteq> domain \<or> endsWith domain ''.''
      then Some NotLowerCase
      else if startsWith domain ''*.'' then
        (if \<not> allowWildcard then Some PrimaryWildcard
         else (let base = drop 2 domain in
           if count_list base (CHR ''.'') < 1 then Some WildcardBase
           else validateUnprefixed base))
      else validateUnprefixed domain)"

fun collectSANs :: "string list \<Rightarrow> string list \<Rightarrow> normalize_error + string list" where
  "collectSANs [] domains = Inr domains"
| "collectSANs (value # sans) domains =
     (let domain = toLowerCase (go_TrimSpace value) in
      if domain = [] then collectSANs sans domains
      else (case validateDomain domain True of
          Some e \<Rightarrow> Inl (SANError value e)
        | None \<Rightarrow>
            if domain \<in> set domains then collectSANs sans domains
            else collectSANs sans (domains @ [domain])))"

definition normalizeDomains ::
  "string \<Rightarrow> string list \<Rightarrow> normalize_error + (string \<times> string list)" where
  "normalizeDomains primary0 sans =
     (let primary = toLowerCase (go_TrimSpace primary0) in
      case validateDomain primary False of
        Some e \<Rightarrow> Inl (PrimaryError e)
      | None \<Rightarrow>
          (case collectSANs sans [primary] of
             Inl e \<Rightarrow> Inl e
           | Inr domains \<Rightarrow> Inr (primary, hd domains # sort (tl domains))))"

definition go_wildcardCoversDomain :: "string \<Rightarrow> string \<Rightarrow> bool" where
  "go_wildcardCoversDomain wildcard domain =
     (let baseDomain = (if startsWith wildcard ''*.'' then drop 2 wildcard else wildcard);
          suffix = ''.'' @ baseDomain
      in if \<not> endsWith domain suffix then False
         else (let leftmostLabel = take (length domain - length suffix) domain
               in leftmostLabel \<noteq> [] \<and> CHR ''.'' \<notin> set leftmostLabel))"

definition validateACMEDomains :: "string \<Rightarrow> string list \<Rightarrow> redundantDomainError option" where
  "validateACMEDomains primary domains =
     (let wildcards = sort (filter (\<lambda>d. startsWith d ''*.'') domains)
      in map_option
           (\<lambda>(domain, wildcard). \<lparr>re_Domain = domain, re_Wildcard = wildcard,
              re_Primary = (domain = primary)\<rparr>)
           (first_pair (\<lambda>domain wildcard.
              \<not> startsWith domain ''*.'' \<and> go_wildcardCoversDomain wildcard domain)
              domains wildcards))"

text \<open>
  \<open>value[:63]\<close> cuts bytes; the callers pass a validated primary domain, which is ASCII, so the
  first 63 bytes are the first 63 characters.
\<close>

definition safeDirectoryFromDomain :: "string \<Rightarrow> string" where
  "safeDirectoryFromDomain domain =
     (let lowered = toLowerCase domain;
          value = (if startsWith lowered ''*.'' then drop 2 lowered else lowered);
          value = map (\<lambda>c. if c = CHR ''.'' then CHR ''-'' else c) value;
          value = strip (\<lambda>c. c = CHR ''-'') value
      in if go_len value > 63 then rev (dropWhile (\<lambda>c. c = CHR ''-'') (rev (take 63 value)))
         else value)"

definition validateSafeDirectory :: "string \<Rightarrow> bool" where
  "validateSafeDirectory name \<longleftrightarrow>
     (case name of
        [] \<Rightarrow> False
      | c # cs \<Rightarrow> (is_lower_ascii c \<or> is_digit c) \<and> length cs \<le> 62
          \<and> list_all (\<lambda>d. is_lower_ascii d \<or> is_digit d \<or> d = CHR ''-'') cs)
     \<and> \<not> sublist ''..'' name"

section \<open>The cover test and the search\<close>

lemma go_covers_iff:
  "is_wildcard w \<Longrightarrow> go_wildcardCoversDomain w d \<longleftrightarrow> one_label_below (drop 2 w) d"
  by (auto simp: go_wildcardCoversDomain_def one_label_below_iff Let_def endsWith_def suffix_def
      is_wildcard_def)

definition found_go :: "redundantDomainError \<Rightarrow> string \<times> string \<times> bool" where
  "found_go r = (re_Domain r, re_Wildcard r, re_Primary r)"

interpretation go: redundancy_search go_wildcardCoversDomain validateACMEDomains found_go
proof unfold_locales
  show "is_wildcard w \<Longrightarrow> go_wildcardCoversDomain w d = one_label_below (drop 2 w) d" for w d
    by (rule go_covers_iff)
next
  fix p ds d w
  assume "validateACMEDomains p ds = None" "d \<in> set ds" "w \<in> set ds" "is_wildcard w"
    "\<not> is_wildcard d"
  then show "\<not> go_wildcardCoversDomain w d"
    by (auto simp: validateACMEDomains_def first_pair_None_iff is_wildcard_def)
next
  fix p ds r d w b
  assume "validateACMEDomains p ds = Some r" "found_go r = (d, w, b)"
  then show "d \<in> set ds \<and> w \<in> set ds \<and> is_wildcard w \<and> \<not> is_wildcard d
      \<and> go_wildcardCoversDomain w d \<and> b = (d = p)"
    by (auto simp: validateACMEDomains_def found_go_def is_wildcard_def dest!: first_pair_SomeD)
next
  fix p d' ds r d w b w'
  assume "validateACMEDomains p (d' # ds) = Some r" "found_go r = (d, w, b)" "\<not> is_wildcard d'"
    "w' \<in> set ds" "is_wildcard w'" "go_wildcardCoversDomain w' d'"
  then show "d = d'"
    by (auto simp: validateACMEDomains_def found_go_def is_wildcard_def
        simp del: first_pair.simps dest!: first_pair_head [of _ _ _ _ _ _ w'])
qed

section \<open>Normalisation\<close>

lemma collectSANs_ok:
  assumes "collectSANs sans ds = Inr out" and "distinct ds"
    and "\<forall>d \<in> set (tl ds). validateDomain d True = None" and "ds \<noteq> []"
  shows "distinct out \<and> out \<noteq> [] \<and> hd out = hd ds
    \<and> set out = set ds \<union> ((\<lambda>d. toLowerCase (go_TrimSpace d)) ` set sans - {[]})
    \<and> (\<forall>d \<in> set (tl out). validateDomain d True = None)"
  using assms
proof (induction sans arbitrary: ds)
  case Nil
  then show ?case by auto
next
  case (Cons v sans)
  define d where "d = toLowerCase (go_TrimSpace v)"
  have unfold: "collectSANs (v # sans) ds =
      (if d = [] then collectSANs sans ds
       else case validateDomain d True of
           Some e \<Rightarrow> Inl (SANError v e)
         | None \<Rightarrow> if d \<in> set ds then collectSANs sans ds else collectSANs sans (ds @ [d]))"
    unfolding d_def by (simp add: Let_def)
  have img: "(\<lambda>d. toLowerCase (go_TrimSpace d)) ` set (v # sans) - {[]} =
      ({d} - {[]}) \<union> ((\<lambda>d. toLowerCase (go_TrimSpace d)) ` set sans - {[]})"
    by (auto simp: d_def)
  show ?case
  proof (cases "d = [] \<or> d \<in> set ds")
    case True
    then have "collectSANs sans ds = Inr out"
      using Cons.prems(1) unfold by (auto split: option.splits if_splits)
    from Cons.IH [OF this Cons.prems(2-4)] True show ?thesis
      unfolding img by auto
  next
    case False
    then have v: "validateDomain d True = None" and r: "collectSANs sans (ds @ [d]) = Inr out"
      using Cons.prems(1) unfold by (auto split: option.splits)
    have "\<forall>e \<in> set (tl (ds @ [d])). validateDomain e True = None"
      using Cons.prems v by (auto simp: tl_append2)
    from Cons.IH [OF r _ this] False Cons.prems show ?thesis
      unfolding img by auto
  qed
qed

lemma normalizeDomains_Inr:
  assumes "normalizeDomains primary sans = Inr (p, ds)"
  shows "p = toLowerCase (go_TrimSpace primary) \<and> validateDomain p False = None
    \<and> (\<exists>ss. ds = p # ss \<and> sorted ss \<and> distinct ds \<and> (\<forall>d \<in> set ss. validateDomain d True = None))
    \<and> set ds = insert p ((\<lambda>d. toLowerCase (go_TrimSpace d)) ` set sans - {[]})"
proof -
  let ?p = "toLowerCase (go_TrimSpace primary)"
  obtain out where v: "validateDomain ?p False = None" and c: "collectSANs sans [?p] = Inr out"
    and p: "p = ?p" and ds: "ds = hd out # sort (tl out)"
    using assms by (auto simp: normalizeDomains_def Let_def split: option.splits sum.splits)
  from collectSANs_ok [OF c] have out: "distinct out" "out \<noteq> []" "hd out = ?p"
    "set out = {?p} \<union> ((\<lambda>d. toLowerCase (go_TrimSpace d)) ` set sans - {[]})"
    "\<forall>d \<in> set (tl out). validateDomain d True = None"
    by auto
  from out(2) have oc: "out = hd out # tl out" by simp
  have ds': "ds = p # sort (tl out)"
    using ds p out(3) by simp
  have "distinct (hd out # tl out)" using out(1) oc by simp
  then have "distinct ds" using ds by simp
  moreover have "set ds = set out" using ds oc by (metis list.simps(15) set_sort)
  ultimately show ?thesis
    using v p out(4,5) ds' by auto
qed

section \<open>Validated domains\<close>

lemma validateLabels_None: "validateLabels ls = None \<longleftrightarrow> (\<forall>l \<in> set ls. validateLabel l = None)"
  by (induction ls) (auto split: option.splits)

lemma validateLabel_None:
  "validateLabel l = None \<Longrightarrow>
     l \<noteq> [] \<and> hd l \<noteq> CHR ''-'' \<and> last l \<noteq> CHR ''-'' \<and> list_all domain_char l \<and> length l \<le> 63"
  using length_le_go_len [of l] by (cases "l = []") (auto simp: validateLabel_def split: if_splits)

lemma validateDomain_primary:
  assumes "validateDomain d False = None"
  shows "\<not> startsWith d ''*.'' \<and> CHR ''*'' \<notin> set d \<and> toLowerCase d = d
    \<and> 2 \<le> length (labels d) \<and> (\<forall>l \<in> set (labels d). validateLabel l = None)"
  using assms
  by (auto simp: validateDomain_def validateUnprefixed_def validateLabels_None split: if_splits)

lemma validateDomain_chars:
  assumes "validateDomain d False = None"
  shows "\<forall>c \<in> set d. domain_char c \<or> c = CHR ''.''"
proof
  fix c assume c: "c \<in> set d"
  have "set (join ''.'' ls) \<subseteq> \<Union> (set ` set ls) \<union> {CHR ''.''}" for ls
    by (induction "''.''" ls rule: join.induct) auto
  from this [of "labels d"] c join_labels [of d]
  have "c = CHR ''.'' \<or> (\<exists>l \<in> set (labels d). c \<in> set l)" by auto
  with validateDomain_primary [OF assms] validateLabel_None
  show "domain_char c \<or> c = CHR ''.''" by (auto simp: list_all_iff)
qed

lemma domain_char_code: "domain_char c \<Longrightarrow> code c < 128"
  by (auto simp: domain_char_def is_lower_ascii_def is_digit_def code_def)

section \<open>The derived output directory\<close>

lemma hd_join: "l \<noteq> [] \<Longrightarrow> hd (join sep (l # ls)) = hd l \<and> join sep (l # ls) \<noteq> []"
  by (cases ls) auto

lemma last_join: "ls \<noteq> [] \<Longrightarrow> last ls \<noteq> [] \<Longrightarrow> last (join sep ls) = last (last ls) \<and> join sep ls \<noteq> []"
  by (induction sep ls rule: join.induct) auto

definition dash_dots :: "string \<Rightarrow> string" where
  "dash_dots d = map (\<lambda>c. if c = CHR ''.'' then CHR ''-'' else c) d"

lemma dash_dots_valid:
  assumes "validateDomain d False = None"
  shows "dash_dots d \<noteq> [] \<and> hd (dash_dots d) \<noteq> CHR ''-'' \<and> last (dash_dots d) \<noteq> CHR ''-''
    \<and> list_all domain_char (dash_dots d)"
proof -
  note v = validateDomain_primary [OF assms]
  obtain l ls where ls: "labels d = l # ls" by (cases "labels d") auto
  have l: "l \<noteq> []" "hd l \<noteq> CHR ''-''" "hd l \<in> set l" "CHR ''.'' \<notin> set l"
    using validateLabel_None [of l] v ls labels_no_dot [of l d] by auto
  have last: "last (labels d) \<in> set (labels d)" by simp
  then have ll: "last (labels d) \<noteq> []" "last (last (labels d)) \<noteq> CHR ''-''"
      "CHR ''.'' \<notin> set (last (labels d))"
    using validateLabel_None [of "last (labels d)"] v labels_no_dot [OF last] by auto
  have hd: "hd d = hd l" and ne: "d \<noteq> []"
    using hd_join [OF l(1), of "''.''" ls] ls join_labels [of d] by auto
  have la: "last d = last (last (labels d))"
    using last_join [of "labels d" "''.''"] ll(1) join_labels [of d] by simp
  have "last (last (labels d)) \<in> set (last (labels d))" using ll(1) by simp
  then have "last d \<noteq> CHR ''.''" using la ll(3) by metis
  moreover have "hd d \<noteq> CHR ''.''" using hd l(3,4) by metis
  ultimately show ?thesis
    using ne hd l(2) la ll(2) validateDomain_chars [OF assms]
    by (auto simp: dash_dots_def hd_map last_map list_all_iff domain_char_def)
qed

lemma validateSafeDirectoryI:
  assumes "v \<noteq> []" "hd v \<noteq> CHR ''-''" "list_all domain_char v" "length v \<le> 63"
  shows "validateSafeDirectory v"
proof -
  have "\<not> domain_char (CHR ''.'')"
    by (simp add: domain_char_def is_lower_ascii_def is_digit_def code_def)
  then have "CHR ''.'' \<notin> set v" using assms(3) by (auto simp: list_all_iff)
  then have "\<not> sublist ''..'' v" by (auto simp: sublist_def)
  with assms show ?thesis
    by (cases v) (auto simp: validateSafeDirectory_def domain_char_def list_all_iff)
qed

lemma rstrip_take:
  assumes "v \<noteq> []" "\<not> q (hd v)" "0 < n"
  defines "w \<equiv> rev (dropWhile q (rev (take n v)))"
  shows "w \<noteq> [] \<and> hd w = hd v \<and> set w \<subseteq> set v \<and> length w \<le> n"
proof -
  have t: "take n v \<noteq> []" "hd (take n v) = hd v" using assms by (auto simp: hd_take)
  have split: "take n v = w @ rev (takeWhile q (rev (take n v)))"
    unfolding w_def by (metis rev_append rev_rev_ident takeWhile_dropWhile_id)
  have "\<not> q (last (rev (take n v)))" using t assms(2) by (simp add: last_rev)
  then have "w \<noteq> []"
    unfolding w_def using t by (metis dropWhile_eq_Nil_conv last_in_set rev_is_Nil_conv)
  moreover from this split t have "hd w = hd v" by (metis hd_append2)
  moreover have "set w \<subseteq> set v"
    using split set_take_subset [of n v] by (metis Un_upper1 order_trans set_append)
  moreover have "length w \<le> n"
    using arg_cong [OF split, of length] by simp
  ultimately show ?thesis by blast
qed

lemma safeDirectory_eq:
  assumes "validateDomain d False = None"
  shows "safeDirectoryFromDomain d =
    (if length (dash_dots d) > 63
     then rev (dropWhile (\<lambda>c. c = CHR ''-'') (rev (take 63 (dash_dots d)))) else dash_dots d)"
proof -
  note v = validateDomain_primary [OF assms] and dd = dash_dots_valid [OF assms]
  have "strip (\<lambda>c. c = CHR ''-'') (dash_dots d) = dash_dots d"
    by (rule strip_id) (use dd in auto)
  moreover have "go_len (dash_dots d) = length (dash_dots d)"
    by (rule go_len_ascii) (use dd domain_char_code in \<open>auto simp: list_all_iff\<close>)
  ultimately show ?thesis
    using v by (simp add: safeDirectoryFromDomain_def dash_dots_def Let_def)
qed

lemma safeDirectory_valid:
  assumes "validateDomain d False = None"
  shows "validateSafeDirectory (safeDirectoryFromDomain d)"
proof -
  let ?w = "rev (dropWhile (\<lambda>c. c = CHR ''-'') (rev (take 63 (dash_dots d))))"
  have dd: "dash_dots d \<noteq> []" "hd (dash_dots d) \<noteq> CHR ''-''" "list_all domain_char (dash_dots d)"
    using dash_dots_valid [OF assms] by auto
  have w: "?w \<noteq> []" "hd ?w = hd (dash_dots d)" "set ?w \<subseteq> set (dash_dots d)" "length ?w \<le> 63"
    using rstrip_take [of "dash_dots d" "\<lambda>c. c = CHR ''-''" 63] dd by auto
  show ?thesis
  proof (cases "length (dash_dots d) > 63")
    case True
    have "validateSafeDirectory ?w"
      by (rule validateSafeDirectoryI) (use w dd in \<open>auto simp: list_all_iff\<close>)
    with True show ?thesis by (simp add: safeDirectory_eq [OF assms])
  next
    case False
    then have "validateSafeDirectory (dash_dots d)"
      by (intro validateSafeDirectoryI) (use dd in auto)
    with False show ?thesis by (simp add: safeDirectory_eq [OF assms])
  qed
qed

lemma go_TrimSpace_valid: "validateDomain d w = None \<Longrightarrow> toLowerCase (go_TrimSpace d) = d \<and> d \<noteq> []"
  by (auto simp: validateDomain_def split: if_splits)

lemma validateDomain_weaken: "validateDomain d False = None \<Longrightarrow> validateDomain d True = None"
  by (auto simp: validateDomain_def split: if_splits)

lemma collectSANs_valid:
  "\<forall>d \<in> set xs. validateDomain d True = None \<Longrightarrow> distinct xs \<Longrightarrow>
     collectSANs xs ds = Inr (ds @ filter (\<lambda>d. d \<notin> set ds) xs)"
proof (induction xs arbitrary: ds)
  case (Cons x xs)
  then have x: "toLowerCase (go_TrimSpace x) = x" "x \<noteq> []" and v: "validateDomain x True = None"
    using go_TrimSpace_valid [of x True] by auto
  have "filter (\<lambda>d. d \<notin> set (ds @ [x])) xs = filter (\<lambda>d. d \<notin> set ds) xs"
    using Cons.prems(2) by (auto intro: filter_cong)
  with Cons x v show ?case by (simp add: Let_def)
qed simp

section \<open>Properties\<close>

text \<open>
  When the domain list is accepted, the result starts with the lower-cased, trimmed primary
  domain, which is no wildcard; the other names follow in order; there are no duplicates; all of
  them are valid; and nothing but the entered names is in it.
\<close>

theorem normalizeDomains_result:
  assumes "normalizeDomains primary sans = Inr (p, ds)"
  shows "p = toLowerCase (go_TrimSpace primary) \<and> validateDomain p False = None
    \<and> hd ds = p \<and> sorted (tl ds) \<and> distinct ds
    \<and> (\<forall>d \<in> set (tl ds). validateDomain d True = None)
    \<and> set ds = insert p ((\<lambda>d. toLowerCase (go_TrimSpace d)) ` set sans - {[]})"
  using normalizeDomains_Inr [OF assms] by auto

theorem normalizeDomains_result_witness:
  "distinct [''a.example'', ''*.a.example'', ''b.example'']"
proof -
  have "normalizeDomains '' A.example'' [''b.example'', ''*.a.example'', [], ''B.EXAMPLE''] =
      Inr (''a.example'', [''a.example'', ''*.a.example'', ''b.example''])"
    by code_simp
  from normalizeDomains_result [OF this] show ?thesis by blast
qed

text \<open>
  Normalisation is idempotent: the stored domain list is accepted again and comes out
  unchanged.
\<close>

theorem normalizeDomains_idempotent:
  assumes "normalizeDomains primary sans = Inr (p, ds)"
  shows "normalizeDomains p ds = Inr (p, ds)"
proof -
  from normalizeDomains_Inr [OF assms] obtain ss where
    p: "validateDomain p False = None" and ds: "ds = p # ss" "sorted ss" "distinct ds"
      "\<forall>d \<in> set ss. validateDomain d True = None"
    by blast
  have "\<forall>d \<in> set ds. validateDomain d True = None"
    using p ds validateDomain_weaken by auto
  then have "collectSANs ds [p] = Inr ([p] @ filter (\<lambda>d. d \<notin> set [p]) ds)"
    by (rule collectSANs_valid) (rule ds(3))
  moreover have "filter (\<lambda>d. d \<notin> set [p]) ds = ss"
    using ds(1,3) by (auto simp: filter_id_conv)
  ultimately show ?thesis
    using p ds go_TrimSpace_valid [OF p] by (simp add: normalizeDomains_def Let_def sorted_sort_id)
qed

theorem normalizeDomains_idempotent_witness:
  "normalizeDomains ''a.example'' [''a.example'', ''*.a.example'', ''b.example''] =
     Inr (''a.example'', [''a.example'', ''*.a.example'', ''b.example''])"
proof -
  have "normalizeDomains '' A.example'' [''b.example'', ''*.a.example'', [], ''B.EXAMPLE''] =
      Inr (''a.example'', [''a.example'', ''*.a.example'', ''b.example''])"
    by code_simp
  then show ?thesis by (rule normalizeDomains_idempotent)
qed

text \<open>
  The output directory derived from an accepted primary domain always passes the server's
  directory rule, the cut at 63 characters included.
\<close>

theorem derived_directory_is_safe:
  assumes "normalizeDomains primary sans = Inr (p, ds)"
  shows "validateSafeDirectory (safeDirectoryFromDomain p)"
  by (rule safeDirectory_valid) (use normalizeDomains_Inr [OF assms] in blast)

theorem derived_directory_is_safe_witness:
  "validateSafeDirectory (safeDirectoryFromDomain ''a.example'')"
proof -
  have "normalizeDomains ''A.example'' [] = Inr (''a.example'', [''a.example''])" by code_simp
  then show ?thesis by (rule derived_directory_is_safe)
qed

end
