(* ===== verification/Go_Rules.thy ===== *)
theory Go_Rules
  imports Js_Text
begin

text \<open>
  Rules of the certificate service of the server: the statuses of \<open>internal/certificate/model.go\<close>,
  which operation is allowed in which status, and the checks of \<open>Update\<close> in
  \<open>internal/certificate/service.go\<close>.
\<close>

section \<open>Statuses\<close>

datatype status =
    StatusPending | StatusIssuing | StatusActive | StatusExpiring | StatusExpired
  | StatusRenewing | StatusFailed | StatusDisabled | StatusRevoked

fun status_text :: "status \<Rightarrow> string" where
  "status_text StatusPending = ''pending''"
| "status_text StatusIssuing = ''issuing''"
| "status_text StatusActive = ''active''"
| "status_text StatusExpiring = ''expiring''"
| "status_text StatusExpired = ''expired''"
| "status_text StatusRenewing = ''renewing''"
| "status_text StatusFailed = ''failed''"
| "status_text StatusDisabled = ''disabled''"
| "status_text StatusRevoked = ''revoked''"

definition revokeAllowed :: "status \<Rightarrow> bool" where
  "revokeAllowed s \<longleftrightarrow> s = StatusActive \<or> s = StatusExpiring"

definition renewAllowed :: "status \<Rightarrow> bool" where
  "renewAllowed s \<longleftrightarrow> s = StatusActive \<or> s = StatusExpiring \<or> s = StatusExpired"

definition manualIssueAllowed :: "status \<Rightarrow> bool" where
  "manualIssueAllowed s \<longleftrightarrow>
     (case s of
        StatusPending \<Rightarrow> True | StatusFailed \<Rightarrow> True | StatusActive \<Rightarrow> True
      | StatusExpiring \<Rightarrow> True | StatusExpired \<Rightarrow> True | _ \<Rightarrow> False)"

section \<open>Settings\<close>

datatype update_error = UpdateNameInvalid | UpdateDaysInvalid

definition go_Update_check :: "string \<Rightarrow> int \<Rightarrow> update_error option" where
  "go_Update_check name renewBeforeDays =
     (let n = go_TrimSpace name in
      if n = [] \<or> go_len n > 100 then Some UpdateNameInvalid
      else if renewBeforeDays < 1 \<or> renewBeforeDays > 365 then Some UpdateDaysInvalid
      else None)"

end
