(* ===== verification/Go_Create.thy ===== *)
theory Go_Create
  imports Go_Validation Go_Rules Api_Types
begin

text \<open>
  The server's side of certificate creation: \<open>decodeJSON\<close> of \<open>internal/httpapi/auth.go\<close> on the
  create request of \<open>internal/httpapi/certificates.go\<close>, the choice between the two modes, and the
  checks of \<open>CreateACME\<close> and \<open>CreateSelfSigned\<close> in \<open>internal/certificate/service.go\<close> up to the
  certificate record that is stored before the issuing engine runs. Decoding a string, a number,
  a boolean or a list follows \<open>encoding/json\<close>: an absent key or \<open>null\<close> leaves the zero value, another
  type is an error, and unknown keys are refused. Resolving a DNS credential is a parameter.
\<close>

section \<open>Decoding\<close>

type_synonym json_object = "(string \<times> jsval) list"

definition decode_string :: "json_object \<Rightarrow> string \<Rightarrow> string option" where
  "decode_string o' k =
     (case map_of o' k of
        None \<Rightarrow> Some [] | Some JNull \<Rightarrow> Some [] | Some (JStr s) \<Rightarrow> Some s | _ \<Rightarrow> None)"

definition decode_bool :: "json_object \<Rightarrow> string \<Rightarrow> bool option" where
  "decode_bool o' k =
     (case map_of o' k of
        None \<Rightarrow> Some False | Some JNull \<Rightarrow> Some False | Some (JBool b) \<Rightarrow> Some b | _ \<Rightarrow> None)"

definition int64 :: "int \<Rightarrow> bool" where
  "int64 i \<longleftrightarrow> - (2 ^ 63) \<le> i \<and> i < 2 ^ 63"

definition decode_int :: "json_object \<Rightarrow> string \<Rightarrow> int option" where
  "decode_int o' k =
     (case map_of o' k of
        None \<Rightarrow> Some 0 | Some JNull \<Rightarrow> Some 0
      | Some (JNum (Fin q)) \<Rightarrow> if q = of_int \<lfloor>q\<rfloor> \<and> int64 \<lfloor>q\<rfloor> then Some \<lfloor>q\<rfloor> else None
      | _ \<Rightarrow> None)"

fun decode_elems :: "jsval list \<Rightarrow> string list option" where
  "decode_elems [] = Some []"
| "decode_elems (JStr s # vs) = map_option ((#) s) (decode_elems vs)"
| "decode_elems (JNull # vs) = map_option ((#) []) (decode_elems vs)"
| "decode_elems _ = None"

definition decode_strings :: "json_object \<Rightarrow> string \<Rightarrow> string list option" where
  "decode_strings o' k =
     (case map_of o' k of
        None \<Rightarrow> Some [] | Some JNull \<Rightarrow> Some [] | Some (JArr vs) \<Rightarrow> decode_elems vs | _ \<Rightarrow> None)"

record createCertificateRequest =
  cq_Mode :: string
  cq_Name :: string
  cq_PrimaryDomain :: string
  cq_SANs :: "string list"
  cq_KeyType :: string
  cq_ValidDays :: int
  cq_OutputDirectory :: string
  cq_AutoRenewEnabled :: bool
  cq_RenewBeforeDays :: int
  cq_CreateRenewedMarker :: bool
  cq_ChallengeType :: string
  cq_DNSCredentialID :: string
  cq_CADirectoryURL :: string
  cq_ACMEEmail :: string

definition create_keys :: "string list" where
  "create_keys = [''mode'', ''name'', ''primary_domain'', ''sans'', ''key_type'', ''valid_days'',
     ''output_directory'', ''auto_renew_enabled'', ''renew_before_days'', ''create_renewed_marker'',
     ''challenge_type'', ''dns_credential_id'', ''ca_directory_url'', ''acme_email'']"

definition decode_create :: "jsval \<Rightarrow> createCertificateRequest option" where
  "decode_create body =
     (case body of
        JObj o' \<Rightarrow>
          if \<not> list_all (\<lambda>(k, _). k \<in> set create_keys) o' then None
          else Option.bind (decode_string o' ''mode'') (\<lambda>mode.
            Option.bind (decode_string o' ''name'') (\<lambda>name.
            Option.bind (decode_string o' ''primary_domain'') (\<lambda>primary.
            Option.bind (decode_strings o' ''sans'') (\<lambda>sans.
            Option.bind (decode_string o' ''key_type'') (\<lambda>key.
            Option.bind (decode_int o' ''valid_days'') (\<lambda>valid.
            Option.bind (decode_string o' ''output_directory'') (\<lambda>out.
            Option.bind (decode_bool o' ''auto_renew_enabled'') (\<lambda>auto_renew.
            Option.bind (decode_int o' ''renew_before_days'') (\<lambda>renew.
            Option.bind (decode_bool o' ''create_renewed_marker'') (\<lambda>marker.
            Option.bind (decode_string o' ''challenge_type'') (\<lambda>challenge.
            Option.bind (decode_string o' ''dns_credential_id'') (\<lambda>cred.
            Option.bind (decode_string o' ''ca_directory_url'') (\<lambda>ca.
            Option.bind (decode_string o' ''acme_email'') (\<lambda>email.
              Some \<lparr>cq_Mode = mode, cq_Name = name, cq_PrimaryDomain = primary, cq_SANs = sans,
                cq_KeyType = key, cq_ValidDays = valid, cq_OutputDirectory = out,
                cq_AutoRenewEnabled = auto_renew, cq_RenewBeforeDays = renew,
                cq_CreateRenewedMarker = marker, cq_ChallengeType = challenge,
                cq_DNSCredentialID = cred, cq_CADirectoryURL = ca, cq_ACMEEmail = email\<rparr>))))))))))))))
      | JNull \<Rightarrow> Some \<lparr>cq_Mode = [], cq_Name = [], cq_PrimaryDomain = [], cq_SANs = [],
          cq_KeyType = [], cq_ValidDays = 0, cq_OutputDirectory = [], cq_AutoRenewEnabled = False,
          cq_RenewBeforeDays = 0, cq_CreateRenewedMarker = False, cq_ChallengeType = [],
          cq_DNSCredentialID = [], cq_CADirectoryURL = [], cq_ACMEEmail = []\<rparr>
      | _ \<Rightarrow> None)"

section \<open>Checks\<close>

datatype create_error =
    InvalidRequest | ModeUnsupported | AcmeDisabled | NameLength | DomainsInvalid normalize_error
  | DomainRedundant redundantDomainError | DirectoryUnsafe | RenewBeforeInvalid
  | ValidDaysInvalid | KeyTypeUnsupported | CredentialRequired | CredentialUnresolved
  | ChallengeUnsupported

record new_certificate =
  nc_Name :: string
  nc_Mode :: string
  nc_PrimaryDomain :: string
  nc_Domains :: "string list"
  nc_KeyType :: string
  nc_Status :: status
  nc_OutputDirectory :: string
  nc_AutoRenewEnabled :: bool
  nc_RenewBeforeDays :: int
  nc_SelfSignedValidDays :: int
  nc_ChallengeType :: string
  nc_DNSProvider :: string
  nc_DNSCredentialID :: string
  nc_CADirectoryURL :: string
  nc_ACMEEmail :: string
  nc_CreateRenewedMarker :: bool

definition supported_keys :: "string list" where
  "supported_keys = [''ec-256'', ''rsa-2048'', ''rsa-3072'']"

definition output_directory :: "createCertificateRequest \<Rightarrow> string \<Rightarrow> string" where
  "output_directory request primary =
     (if cq_OutputDirectory request = [] then safeDirectoryFromDomain primary
      else cq_OutputDirectory request)"

definition resolve_challenge ::
  "(string \<Rightarrow> string option) \<Rightarrow> createCertificateRequest \<Rightarrow> create_error + string" where
  "resolve_challenge resolve request =
     (if cq_ChallengeType request = ''dns-01'' then
        (if cq_DNSCredentialID request = [] then Inl CredentialRequired
         else case resolve (cq_DNSCredentialID request) of
             None \<Rightarrow> Inl CredentialUnresolved
           | Some acmeDNSCode \<Rightarrow> Inr acmeDNSCode)
      else if cq_ChallengeType request \<noteq> ''http-01'' then Inl ChallengeUnsupported
      else Inr [])"

definition createACME_value ::
  "bool \<Rightarrow> (string \<Rightarrow> string option) \<Rightarrow> createCertificateRequest \<Rightarrow> create_error + new_certificate" where
  "createACME_value enabled resolve request =
     (if \<not> enabled then Inl AcmeDisabled
      else (let name = go_TrimSpace (cq_Name request) in
        if name = [] \<or> go_len name > 100 then Inl NameLength
        else case normalizeDomains (cq_PrimaryDomain request) (cq_SANs request) of
          Inl e \<Rightarrow> Inl (DomainsInvalid e)
        | Inr (primary, domains) \<Rightarrow>
            (case validateACMEDomains primary domains of
               Some r \<Rightarrow> Inl (DomainRedundant r)
             | None \<Rightarrow>
                 if \<not> validateSafeDirectory (output_directory request primary)
                 then Inl DirectoryUnsafe
                 else if cq_RenewBeforeDays request < 1 \<or> cq_RenewBeforeDays request > 90
                 then Inl RenewBeforeInvalid
                 else if cq_KeyType request \<notin> set supported_keys then Inl KeyTypeUnsupported
                 else case resolve_challenge resolve request of
                   Inl e \<Rightarrow> Inl e
                 | Inr provider \<Rightarrow>
                     Inr \<lparr>nc_Name = name, nc_Mode = ''acme'', nc_PrimaryDomain = primary,
                       nc_Domains = domains, nc_KeyType = cq_KeyType request, nc_Status = StatusIssuing,
                       nc_OutputDirectory = output_directory request primary,
                       nc_AutoRenewEnabled = cq_AutoRenewEnabled request,
                       nc_RenewBeforeDays = cq_RenewBeforeDays request, nc_SelfSignedValidDays = 0,
                       nc_ChallengeType = cq_ChallengeType request, nc_DNSProvider = provider,
                       nc_DNSCredentialID = cq_DNSCredentialID request,
                       nc_CADirectoryURL = cq_CADirectoryURL request,
                       nc_ACMEEmail = cq_ACMEEmail request,
                       nc_CreateRenewedMarker = cq_CreateRenewedMarker request\<rparr>)))"

definition createSelfSigned_value ::
  "createCertificateRequest \<Rightarrow> create_error + new_certificate" where
  "createSelfSigned_value request =
     (let name = go_TrimSpace (cq_Name request) in
      if name = [] \<or> go_len name > 100 then Inl NameLength
      else case normalizeDomains (cq_PrimaryDomain request) (cq_SANs request) of
        Inl e \<Rightarrow> Inl (DomainsInvalid e)
      | Inr (primary, domains) \<Rightarrow>
          if \<not> validateSafeDirectory (output_directory request primary) then Inl DirectoryUnsafe
          else if cq_ValidDays request < 1 \<or> cq_ValidDays request > 3650 then Inl ValidDaysInvalid
          else if cq_RenewBeforeDays request < 1 \<or> cq_RenewBeforeDays request \<ge> cq_ValidDays request
          then Inl RenewBeforeInvalid
          else if cq_KeyType request \<notin> set supported_keys then Inl KeyTypeUnsupported
          else Inr \<lparr>nc_Name = name, nc_Mode = ''self_signed'', nc_PrimaryDomain = primary,
            nc_Domains = domains, nc_KeyType = cq_KeyType request, nc_Status = StatusIssuing,
            nc_OutputDirectory = output_directory request primary,
            nc_AutoRenewEnabled = cq_AutoRenewEnabled request,
            nc_RenewBeforeDays = cq_RenewBeforeDays request,
            nc_SelfSignedValidDays = cq_ValidDays request, nc_ChallengeType = [],
            nc_DNSProvider = [], nc_DNSCredentialID = [], nc_CADirectoryURL = [],
            nc_ACMEEmail = [], nc_CreateRenewedMarker = cq_CreateRenewedMarker request\<rparr>)"

definition createCertificate ::
  "bool \<Rightarrow> (string \<Rightarrow> string option) \<Rightarrow> jsval \<Rightarrow> create_error + new_certificate" where
  "createCertificate acmeEnabled resolve body =
     (case decode_create body of
        None \<Rightarrow> Inl InvalidRequest
      | Some request \<Rightarrow>
          if cq_Mode request = ''self_signed'' then createSelfSigned_value request
          else if cq_Mode request = ''acme'' then createACME_value acmeEnabled resolve request
          else Inl ModeUnsupported)"

section \<open>Directories\<close>

lemma output_directory_safe:
  assumes "validateDomain primary False = None"
    and "cq_OutputDirectory request = [] \<or> validateSafeDirectory (cq_OutputDirectory request)"
  shows "validateSafeDirectory (output_directory request primary)"
  using assms safeDirectory_valid by (auto simp: output_directory_def)

lemma decode_elems_strings [simp]: "decode_elems (map JStr ss) = Some ss"
  by (induction ss) auto

end
