(* ===== verification/Domain_Agreement.thy ===== *)
theory Domain_Agreement
  imports Validation Go_Validation
begin

text \<open>
  The redundancy check of the form against the one of the server: both implement the search of
  \<open>Domain_Policy\<close>, on the same names once the server has accepted the domain list.
\<close>

section \<open>The form check and the server check agree\<close>

lemma names_agree:
  assumes "normalizeDomains primary sans = Inr (p, ds)"
    and "\<forall>s \<in> set (primary # sans). CHR 0x85 \<notin> set s"
  shows "p = toLowerCase (trim primary) \<and> set ds = normalized_names primary sans"
proof -
  have eq: "go_TrimSpace s = trim s" if "s \<in> set (primary # sans)" for s
    using that assms(2) go_TrimSpace_eq_trim by auto
  have "(\<lambda>d. toLowerCase (go_TrimSpace d)) ` set sans = (\<lambda>d. toLowerCase (trim d)) ` set sans"
    by (rule image_cong) (use eq in auto)
  with normalizeDomains_Inr [OF assms(1)] eq [of primary] show ?thesis
    by (auto simp: normalized_names_def)
qed

lemma redundancy_None_agree:
  assumes "normalizeDomains primary sans = Inr (p, ds)"
    and "\<forall>s \<in> set (primary # sans). CHR 0x85 \<notin> set s"
  shows "findRedundantACMEDomain primary sans = None \<longleftrightarrow> validateACMEDomains p ds = None"
  using names_agree [OF assms]
  by (simp add: findRedundantACMEDomain_None go.search_iff_redundant)



end
