(* ===== verification/Create_Flow.thy ===== *)
theory Create_Flow
  imports Create_Form Go_Create Domain_Agreement
begin

text \<open>
  From the wizard to the server: the request a confirmed wizard sends, decoded and checked by the
  server. The only rules the form does not check are the syntax of the domain names, the byte
  length of the name, the server's lower limit on the renewal lead time of public certificates and
  what only the server can know.
\<close>

section \<open>The request body\<close>

lemma int_betweenE:
  assumes "int_between lo hi x"
  obtains i where "x = Fin (of_int i)" "lo \<le> of_int i" "of_int i \<le> hi"
proof -
  obtain q where "x = Fin q" "q = of_int \<lfloor>q\<rfloor>" "lo \<le> q" "q \<le> hi"
    using assms by (auto simp: int_between_def split: js_number.splits)
  then show ?thesis using that [of "\<lfloor>q\<rfloor>"] by metis
qed

lemma int64_between: "int_between lo hi (Fin (of_int i)) \<Longrightarrow> 0 \<le> lo \<Longrightarrow> hi \<le> 3650 \<Longrightarrow> int64 i"
proof -
  assume "int_between lo hi (Fin (of_int i))" "0 \<le> lo" "hi \<le> 3650"
  then have "(0 :: rat) \<le> of_int i" "of_int i \<le> (3650 :: rat)"
    by (auto simp: int_between_def)
  then have "0 \<le> i" "i \<le> 3650" by linarith+
  then show ?thesis by (simp add: int64_def)
qed

definition self_signed_request :: "createSelfSigned \<Rightarrow> int \<Rightarrow> int \<Rightarrow> createCertificateRequest" where
  "self_signed_request v days renew =
     \<lparr>cq_Mode = ''self_signed'', cq_Name = cc_name v, cq_PrimaryDomain = cc_primary_domain v,
      cq_SANs = cc_sans v, cq_KeyType = key_type_text (cc_key_type v), cq_ValidDays = days,
      cq_OutputDirectory = cc_output_directory v, cq_AutoRenewEnabled = cc_auto_renew_enabled v,
      cq_RenewBeforeDays = renew, cq_CreateRenewedMarker = cc_create_renewed_marker v,
      cq_ChallengeType = [], cq_DNSCredentialID = [], cq_CADirectoryURL = [], cq_ACMEEmail = []\<rparr>"

definition acme_request :: "createACME \<Rightarrow> int \<Rightarrow> createCertificateRequest" where
  "acme_request v renew =
     \<lparr>cq_Mode = ''acme'', cq_Name = cc_name v, cq_PrimaryDomain = cc_primary_domain v,
      cq_SANs = cc_sans v, cq_KeyType = key_type_text (cc_key_type v), cq_ValidDays = 0,
      cq_OutputDirectory = cc_output_directory v, cq_AutoRenewEnabled = cc_auto_renew_enabled v,
      cq_RenewBeforeDays = renew, cq_CreateRenewedMarker = cc_create_renewed_marker v,
      cq_ChallengeType = challenge_text (ca_challenge_type v),
      cq_DNSCredentialID = ca_dns_credential_id v, cq_CADirectoryURL = ca_ca_directory_url v,
      cq_ACMEEmail = ca_acme_email v\<rparr>"

lemma map_stringify_strings [simp]: "map (stringify \<circ> JStr) ss = map JStr ss"
  by simp

lemma decode_self_signed:
  assumes "cs_valid_days v = Fin (of_int days)" "cc_renew_before_days v = Fin (of_int renew)"
    and "int64 days" "int64 renew"
  shows "decode_create (stringify (self_signed_js v)) = Some (self_signed_request v days renew)"
  using assms
  by (simp add: decode_create_def self_signed_js_def common_js_def create_keys_def
      decode_string_def decode_int_def decode_bool_def decode_strings_def self_signed_request_def
      comp_def)

lemma decode_acme:
  assumes "cc_renew_before_days v = Fin (of_int renew)" and "int64 renew"
  shows "decode_create (stringify (acme_js v)) = Some (acme_request v renew)"
  using assms
  by (simp add: decode_create_def acme_js_def common_js_def create_keys_def
      decode_string_def decode_int_def decode_bool_def decode_strings_def acme_request_def
      comp_def)

section \<open>Common checks\<close>

lemma pattern_safe:
  "output_directory_pattern d \<Longrightarrow> d = [] \<or> validateSafeDirectory d"
  by (cases d) (auto simp: output_directory_pattern_def list_all_iff domain_char_def is_lower_ascii_def
      is_digit_def code_def intro!: validateSafeDirectoryI)

lemma name_trimmed: "trim n = n \<Longrightarrow> CHR 0x85 \<notin> set n \<Longrightarrow> go_TrimSpace n = n"
  using go_TrimSpace_eq_trim by simp

lemma key_supported [simp]: "key_type_text k \<in> set supported_keys"
  by (cases k) (simp_all add: supported_keys_def)

lemma createSelfSigned_form:
  assumes ok: "self_signed_ok v" and len: "go_len (cc_name v) \<le> 100" and nel: "CHR 0x85 \<notin> set (cc_name v)"
  shows "case normalizeDomains (cc_primary_domain v) (cc_sans v) of
      Inl e \<Rightarrow> createCertificate enabled resolve (stringify (self_signed_js v)) = Inl (DomainsInvalid e)
    | Inr (p, ds) \<Rightarrow> \<exists>cert.
        createCertificate enabled resolve (stringify (self_signed_js v)) = Inr cert
        \<and> nc_Mode cert = ''self_signed'' \<and> nc_Name cert = cc_name v
        \<and> nc_PrimaryDomain cert = p \<and> nc_Domains cert = ds
        \<and> validateSafeDirectory (nc_OutputDirectory cert)
        \<and> Fin (of_int (nc_SelfSignedValidDays cert)) = cs_valid_days v
        \<and> Fin (of_int (nc_RenewBeforeDays cert)) = cc_renew_before_days v"
proof -
  have common: "common_ok v" and days: "int_between 1 3650 (cs_valid_days v)"
    and lt: "\<not> number_ge (cc_renew_before_days v) (cs_valid_days v)"
    using ok by (auto simp: self_signed_ok_def)
  have renew: "int_between 1 365 (cc_renew_before_days v)" and name: "go_TrimSpace (cc_name v) = cc_name v"
    "cc_name v \<noteq> []" and dir: "cc_output_directory v = [] \<or> validateSafeDirectory (cc_output_directory v)"
    using common name_trimmed [OF _ nel] pattern_safe by (auto simp: common_ok_def)
  from days obtain d where d: "cs_valid_days v = Fin (of_int d)" "1 \<le> (of_int d :: rat)" "of_int d \<le> (3650 :: rat)"
    by (rule int_betweenE)
  from renew obtain r where r: "cc_renew_before_days v = Fin (of_int r)" "1 \<le> (of_int r :: rat)"
    by (rule int_betweenE)
  have ints: "int64 d" "int64 r"
    using int64_between [OF days [unfolded d(1)]] int64_between [OF renew [unfolded r(1)]] by auto
  have bounds: "1 \<le> d" "d \<le> 3650" "1 \<le> r" "r < d"
    using d r lt by auto
  note req = decode_self_signed [OF d(1) r(1) ints]
  show ?thesis
  proof (cases "normalizeDomains (cc_primary_domain v) (cc_sans v)")
    case (Inl e)
    then show ?thesis
      using name len req
      by (simp add: createCertificate_def createSelfSigned_value_def self_signed_request_def)
  next
    case (Inr pds)
    then obtain p ds where pds: "pds = (p, ds)" by (cases pds)
    have "validateDomain p False = None"
      using normalizeDomains_Inr [of _ _ p ds] Inr pds by blast
    then have "validateSafeDirectory (output_directory (self_signed_request v d r) p)"
      by (rule output_directory_safe) (use dir in \<open>auto simp: self_signed_request_def\<close>)
    then show ?thesis
      using Inr pds name len req bounds d r
      by (simp add: createCertificate_def createSelfSigned_value_def) (simp add: self_signed_request_def Let_def)
  qed
qed

lemma createACME_form:
  assumes ok: "acme_ok newURL v" and len: "go_len (cc_name v) \<le> 100"
    and nel: "\<forall>s \<in> set (cc_name v # cc_primary_domain v # cc_sans v). CHR 0x85 \<notin> set s"
    and e: "createCertificate enabled resolve (stringify (acme_js v)) = Inl e"
  shows "e = AcmeDisabled \<and> \<not> enabled
    \<or> (\<exists>d. e = DomainsInvalid d \<and> normalizeDomains (cc_primary_domain v) (cc_sans v) = Inl d)
    \<or> e = RenewBeforeInvalid \<and> \<not> int_between 1 90 (cc_renew_before_days v)
    \<or> e = CredentialUnresolved \<and> resolve (ca_dns_credential_id v) = None"
proof -
  have common: "common_ok v"
    and red: "findRedundantACMEDomain (cc_primary_domain v) (cc_sans v) = None"
    and cred: "ca_challenge_type v = Dns01 \<longrightarrow> ca_dns_credential_id v \<noteq> []"
    using ok by (auto simp: acme_ok_def)
  have renew: "int_between 1 365 (cc_renew_before_days v)" and name: "go_TrimSpace (cc_name v) = cc_name v"
    "cc_name v \<noteq> []" and dir: "cc_output_directory v = [] \<or> validateSafeDirectory (cc_output_directory v)"
    using common name_trimmed [of "cc_name v"] nel pattern_safe by (auto simp: common_ok_def)
  from renew obtain r where r: "cc_renew_before_days v = Fin (of_int r)" "1 \<le> (of_int r :: rat)"
    by (rule int_betweenE)
  have "int64 r" using int64_between [OF renew [unfolded r(1)]] by auto
  note req = decode_acme [OF r(1) this]
  have val: "createACME_value enabled resolve (acme_request v r) = Inl e"
    using e req by (simp add: createCertificate_def) (simp add: acme_request_def)
  show ?thesis
  proof (cases "normalizeDomains (cc_primary_domain v) (cc_sans v)")
    case (Inl d)
    then show ?thesis
      using val name len by (auto simp: createACME_value_def acme_request_def split: if_splits)
  next
    case (Inr pds)
    then obtain p ds where pds: "normalizeDomains (cc_primary_domain v) (cc_sans v) = Inr (p, ds)"
      by (cases pds) auto
    have "validateDomain p False = None"
      using normalizeDomains_Inr [OF pds] by blast
    then have safe: "validateSafeDirectory (output_directory (acme_request v r) p)"
      by (rule output_directory_safe) (use dir in \<open>auto simp: acme_request_def\<close>)
    have "validateACMEDomains p ds = None"
      using redundancy_None_agree [OF pds] nel red by auto
    with val safe pds name len cred r show ?thesis
      by (cases "ca_challenge_type v")
        (auto simp: createACME_value_def acme_request_def resolve_challenge_def int_between_def
          Let_def split: if_splits option.splits)
  qed
qed

section \<open>Properties\<close>

text \<open>
  Whatever the user does in the wizard, a create request it sends is well formed: the name,
  the primary domain and the output directory are trimmed and within the form's limits, the
  numbers are integers within range; a self-signed request renews before it expires; a public one
  has no redundant names, an address with an at sign, an accepted certificate authority and, for
  DNS validation, a credential.
\<close>

theorem confirmed_request_is_well_formed:
  assumes "CallApi c \<in> set (snd (run_events (wizard_step newURL) es wizard_init))"
  shows "create_ok newURL c"
  using create_wizard.run_ok [OF refl assms] by simp

definition no_url :: "string \<Rightarrow> parsed_url option" where
  "no_url s = None"

definition self_signed_events :: "wizard_event list" where
  "self_signed_events = [Next, TypeName ''intranet '', TypePrimary ''a.example'',
     TypeSans ''b.example, *.c.example'', Next, TypeValidDays ''90'', Next, Next, Confirm]"

definition self_signed_value :: createSelfSigned where
  "self_signed_value = \<lparr>cc_name = ''intranet'', cc_primary_domain = ''a.example'',
     cc_sans = [''b.example'', ''*.c.example''], cc_key_type = Ec256, cc_output_directory = [],
     cc_auto_renew_enabled = True, cc_renew_before_days = Fin 30, cc_create_renewed_marker = True,
     cs_valid_days = Fin 90\<rparr>"

lemma self_signed_sent:
  "CallApi (CreateSelfSigned self_signed_value)
     \<in> set (snd (run_events (wizard_step no_url) self_signed_events wizard_init))"
  by code_simp

theorem confirmed_request_is_well_formed_witness: "create_ok no_url (CreateSelfSigned self_signed_value)"
  by (rule confirmed_request_is_well_formed [OF self_signed_sent])




definition acme_events :: "string \<Rightarrow> wizard_event list" where
  "acme_events days = [ChooseMode Acme, Next, TypeName ''site'', TypePrimary ''a.example'',
     TypeSans ''*.a.example'', Next, TypeEmail ''me@a.example'', ChooseCredential ''cf1'', Next,
     TypeRenewDays days, Next, Confirm]"

definition acme_value :: "js_number \<Rightarrow> createACME" where
  "acme_value days = \<lparr>cc_name = ''site'', cc_primary_domain = ''a.example'',
     cc_sans = [''*.a.example''], cc_key_type = Ec256, cc_output_directory = [],
     cc_auto_renew_enabled = True, cc_renew_before_days = days, cc_create_renewed_marker = True,
     ca_challenge_type = Dns01, ca_dns_credential_id = ''cf1'', ca_ca_directory_url = ''letsencrypt'',
     ca_acme_email = ''me@a.example''\<rparr>"

lemma acme_sent:
  "CallApi (CreateACME (acme_value (Fin 120)))
     \<in> set (snd (run_events (wizard_step no_url) (acme_events ''120'') wizard_init))"
  by code_simp

lemma acme_refused:
  "createCertificate True (\<lambda>_. Some ''dns_cf'') (stringify (acme_js (acme_value (Fin 120))))
     = Inl RenewBeforeInvalid"
  by code_simp


text \<open>
  The form lets a renewal lead time of 91 to 365 days through for public certificates, and the
  server refuses it: a wizard run that sends 120 days, and the refusal.
\<close>

theorem acme_lead_time_gap:
  "\<exists>v. CallApi (CreateACME v) \<in> set (snd (run_events (wizard_step no_url) (acme_events ''120'') wizard_init))
     \<and> createCertificate True (\<lambda>_. Some ''dns_cf'') (stringify (acme_js v)) = Inl RenewBeforeInvalid"
  using acme_sent acme_refused by blast

definition hidden_events :: "wizard_event list" where
  "hidden_events = [Next, TypeName ''site'', TypePrimary ''a.example'', Next, TypeValidDays [], Back,
     Back, ChooseMode Acme, Next, Next, Next, Next]"


end
