(* ===== verification/Renewal_Settings.thy ===== *)
theory Renewal_Settings
  imports Ui
begin

text \<open>
  \<open>web/src/RenewalSettingsPage.tsx\<close>: the translation between cron expressions and the frequency
  presets, and the policy editor as a page. The regular expression of \<open>dailyTimeFor\<close> has single
  spaces between its five fields and no space inside them, so it is matched field by field.
\<close>

section \<open>Cron expressions and presets\<close>

definition cron_fields :: "string \<Rightarrow> string list" where
  "cron_fields cron = split_on (\<lambda>c. c = CHR '' '') cron"

fun minute_field :: "string \<Rightarrow> bool" where
  "minute_field [d] = is_digit d"
| "minute_field [t, d] = (CHR ''1'' \<le> t \<and> t \<le> CHR ''5'' \<and> is_digit d)"
| "minute_field _ = False"

fun hour_field :: "string \<Rightarrow> bool" where
  "hour_field [d] = is_digit d"
| "hour_field [t, d] =
     (((t = CHR ''0'' \<or> t = CHR ''1'') \<and> is_digit d)
      \<or> (t = CHR ''2'' \<and> CHR ''0'' \<le> d \<and> d \<le> CHR ''3''))"
| "hour_field _ = False"

definition dailyTimeFor :: "string \<Rightarrow> string option" where
  "dailyTimeFor cron =
     (case cron_fields cron of
        [m, h, a, b, c] \<Rightarrow>
          if minute_field m \<and> hour_field h \<and> a = ''*'' \<and> b = ''*'' \<and> c = ''*''
          then Some (padStart2 h @ '':'' @ padStart2 m) else None
      | _ \<Rightarrow> None)"

definition presetFor :: "string \<Rightarrow> string" where
  "presetFor cron =
     (if cron = ''0 3 * * *'' then ''daily''
      else if cron = ''0 */12 * * *'' then ''12h''
      else if cron = ''0 */6 * * *'' then ''6h''
      else if dailyTimeFor cron \<noteq> None then ''custom_daily''
      else ''advanced'')"

definition cronForDailyTime :: "string \<Rightarrow> string" where
  "cronForDailyTime value =
     (let parts = split_on (\<lambda>c. c = CHR '':'') value;
          hour = (if length parts > 0 then parts ! 0 else ''4'');
          minute = (if length parts > 1 then parts ! 1 else ''0'')
      in js_number_text (js_Number minute) @ '' '' @ js_number_text (js_Number hour) @ '' * * *'')"

section \<open>The editor\<close>

record editor =
  ed_policy :: renewalPolicy
  ed_mode :: string
  ed_dailyTime :: string
  ed_save :: mutation
  ed_run :: mutation

definition editor_init :: "renewalPolicy \<Rightarrow> editor" where
  "editor_init initialPolicy =
     \<lparr>ed_policy = initialPolicy, ed_mode = presetFor (rp_cron_expression initialPolicy),
      ed_dailyTime = (case dailyTimeFor (rp_cron_expression initialPolicy) of
          Some t \<Rightarrow> t | None \<Rightarrow> ''04:00''),
      ed_save = MIdle, ed_run = MIdle\<rparr>"

definition preset_cron :: "string \<Rightarrow> string \<Rightarrow> string \<Rightarrow> string" where
  "preset_cron value dailyTime current =
     (if value = ''daily'' then ''0 3 * * *''
      else if value = ''12h'' then ''0 */12 * * *''
      else if value = ''6h'' then ''0 */6 * * *''
      else if value = ''custom_daily'' then cronForDailyTime dailyTime
      else current)"

definition selectPreset :: "string \<Rightarrow> editor \<Rightarrow> editor" where
  "selectPreset value s =
     s\<lparr>ed_mode := value,
       ed_policy := (ed_policy s)\<lparr>rp_cron_expression :=
         preset_cron value (ed_dailyTime s) (rp_cron_expression (ed_policy s))\<rparr>\<rparr>"

datatype editor_event =
    SetEnabled bool | SelectPreset string | SetDailyTime string | SetCron string
  | SetTimezone string | SetMaxConcurrency string | SetRetryCount string
  | SetRetryInterval string | ClickSave | SaveSettled "js_error option"
  | ClickRun | RunSettled "js_error option"

definition preset_menu :: "string list" where
  "preset_menu = [''daily'', ''12h'', ''6h'', ''custom_daily'', ''advanced'']"

definition set_policy :: "(renewalPolicy \<Rightarrow> renewalPolicy) \<Rightarrow> editor \<Rightarrow> editor \<times> effect list" where
  "set_policy f s = (s\<lparr>ed_policy := f (ed_policy s)\<rparr>, [])"

fun editor_step :: "editor_event \<Rightarrow> editor \<Rightarrow> editor \<times> effect list" where
  "editor_step (SetEnabled b) s = set_policy (\<lambda>p. p\<lparr>rp_enabled := b\<rparr>) s"
| "editor_step (SelectPreset v) s =
     (if v \<in> set preset_menu then (selectPreset v s, []) else (s, []))"
| "editor_step (SetDailyTime t) s =
     (if ed_mode s = ''custom_daily''
      then (s\<lparr>ed_dailyTime := t,
             ed_policy := (ed_policy s)\<lparr>rp_cron_expression := cronForDailyTime t\<rparr>\<rparr>, [])
      else (s, []))"
| "editor_step (SetCron v) s =
     (if ed_mode s = ''advanced'' then set_policy (\<lambda>p. p\<lparr>rp_cron_expression := v\<rparr>) s else (s, []))"
| "editor_step (SetTimezone v) s = set_policy (\<lambda>p. p\<lparr>rp_timezone := v\<rparr>) s"
| "editor_step (SetMaxConcurrency v) s =
     set_policy (\<lambda>p. p\<lparr>rp_max_concurrency := js_Number v\<rparr>) s"
| "editor_step (SetRetryCount v) s = set_policy (\<lambda>p. p\<lparr>rp_retry_count := js_Number v\<rparr>) s"
| "editor_step (SetRetryInterval v) s =
     set_policy (\<lambda>p. p\<lparr>rp_retry_interval_seconds := js_Number v\<rparr>) s"
| "editor_step ClickSave s =
     (if pending (ed_save s) then (s, [])
      else (s\<lparr>ed_save := MPending\<rparr>, [CallApi (UpdateRenewalPolicy (ed_policy s))]))"
| "editor_step (SaveSettled r) s =
     (if \<not> pending (ed_save s) then (s, [])
      else case r of
        None \<Rightarrow> (s\<lparr>ed_save := MSuccess\<rparr>, [SetQueryData [''renewal-policy'']])
      | Some e \<Rightarrow> (s\<lparr>ed_save := MFailed e\<rparr>, []))"
| "editor_step ClickRun s =
     (if pending (ed_run s) then (s, []) else (s\<lparr>ed_run := MPending\<rparr>, [CallApi RunRenewalNow]))"
| "editor_step (RunSettled r) s =
     (if \<not> pending (ed_run s) then (s, [])
      else case r of
        None \<Rightarrow> (s\<lparr>ed_run := MSuccess\<rparr>, [InvalidateQueries ''renewal-policy''])
      | Some e \<Rightarrow> (s\<lparr>ed_run := MFailed e\<rparr>, []))"

section \<open>Times of day\<close>

text \<open>What a time input delivers when it is not empty.\<close>

definition two_digits :: "nat \<Rightarrow> string" where
  "two_digits n = [digit_char (n div 10), digit_char (n mod 10)]"

definition clock :: "nat \<Rightarrow> nat \<Rightarrow> string" where
  "clock h m = two_digits h @ '':'' @ two_digits m"

definition daily_cron :: "nat \<Rightarrow> nat \<Rightarrow> string" where
  "daily_cron h m = show_nat m @ '' '' @ show_nat h @ '' * * *''"

lemma digit_char_0: "digit_char 0 = CHR ''0''"
  by code_simp

lemma show_nat_below_100:
  "n < 100 \<Longrightarrow> show_nat n = (if n < 10 then [digit_char n] else two_digits n)"
  by (simp add: show_nat.simps [of n] show_nat.simps [of "n div 10"] two_digits_def)

lemma padStart2_show_nat: "n < 100 \<Longrightarrow> padStart2 (show_nat n) = two_digits n"
  by (simp add: show_nat_below_100 padStart2_def two_digits_def digit_char_0)

lemma two_digits_ok: "n < 100 \<Longrightarrow> digits_ok (two_digits n)"
  by (simp add: two_digits_def digits_ok_def)

lemma nat_of_two_digits [simp]: "n < 100 \<Longrightarrow> nat_of_digits (two_digits n) = n"
  by (simp add: two_digits_def nat_of_digits_def)

lemma js_Number_two_digits [simp]: "n < 100 \<Longrightarrow> js_Number (two_digits n) = Fin (of_nat n)"
  using js_Number_digits [OF two_digits_ok] by simp

lemma digits_no_sep:
  "digits_ok s \<Longrightarrow> \<forall>c \<in> set s. c \<noteq> CHR '' '' \<and> c \<noteq> CHR '':''"
  using digit_chars by (auto simp: digits_ok_def list_all_iff)

lemma show_nat_ok: "digits_ok (show_nat n)"
  using show_nat_digits by (simp add: digits_ok_def)

lemma split_clock:
  assumes "h < 100" and "m < 100"
  shows "split_on (\<lambda>c. c = CHR '':'') (clock h m) = [two_digits h, two_digits m]"
proof -
  have "clock h m = join [CHR '':''] [two_digits h, two_digits m]"
    by (simp add: clock_def)
  then show ?thesis
    using digits_no_sep [OF two_digits_ok [OF assms(1)]] digits_no_sep [OF two_digits_ok [OF assms(2)]]
    by (simp only:) (rule split_on_join, auto)
qed

lemma cronForDailyTime_clock:
  "h < 100 \<Longrightarrow> m < 100 \<Longrightarrow> cronForDailyTime (clock h m) = daily_cron h m"
  by (simp add: cronForDailyTime_def split_clock daily_cron_def)

definition five_fields :: "string \<Rightarrow> string \<Rightarrow> string" where
  "five_fields f g = f @ '' '' @ g @ '' * * *''"

lemma cron_fields_digits:
  assumes "digits_ok f" and "digits_ok g"
  shows "cron_fields (five_fields f g) = [f, g, ''*'', ''*'', ''*'']"
proof -
  have "five_fields f g = join [CHR '' ''] [f, g, ''*'', ''*'', ''*'']"
    by (simp add: five_fields_def)
  then show ?thesis
    unfolding cron_fields_def using digits_no_sep [OF assms(1)] digits_no_sep [OF assms(2)]
    by (simp only:) (rule split_on_join, auto)
qed

lemma daily_cron_fields: "cron_fields (daily_cron h m) = [show_nat m, show_nat h, ''*'', ''*'', ''*'']"
  using cron_fields_digits [OF show_nat_ok show_nat_ok] by (simp add: daily_cron_def five_fields_def)

lemma all_minutes: "m < 60 \<Longrightarrow> minute_field (show_nat m)"
proof -
  have "list_all (\<lambda>m. minute_field (show_nat m)) [0..<60]" by code_simp
  then show "m < 60 \<Longrightarrow> ?thesis" by (simp add: list_all_iff)
qed

lemma all_hours: "h < 24 \<Longrightarrow> hour_field (show_nat h)"
proof -
  have "list_all (\<lambda>h. hour_field (show_nat h)) [0..<24]" by code_simp
  then show "h < 24 \<Longrightarrow> ?thesis" by (simp add: list_all_iff)
qed

lemma dailyTimeFor_daily_cron:
  "h < 24 \<Longrightarrow> m < 60 \<Longrightarrow> dailyTimeFor (daily_cron h m) = Some (clock h m)"
  by (simp add: dailyTimeFor_def daily_cron_fields all_minutes all_hours clock_def padStart2_show_nat)

lemma digit_char_val: "is_digit d \<Longrightarrow> digit_char (digit_val d) = d \<and> digit_val d < 10"
  by (auto simp: is_digit_def digit_char_def digit_val_def)

lemma digit_range: "CHR ''0'' \<le> t \<Longrightarrow> t \<le> CHR ''9'' \<Longrightarrow> is_digit t"
  by (simp add: is_digit_def code_def less_eq_char_def)

lemma two_digits_pair:
  assumes "is_digit t" and "is_digit d"
  shows "nat_of_digits [t, d] = 10 * digit_val t + digit_val d
    \<and> two_digits (10 * digit_val t + digit_val d) = [t, d]"
  using digit_char_val [OF assms(1)] digit_char_val [OF assms(2)]
  by (simp add: nat_of_digits_def two_digits_def)

lemma two_digits_single:
  assumes "is_digit d"
  shows "nat_of_digits [d] = digit_val d \<and> padStart2 [d] = two_digits (digit_val d)"
  using digit_char_val [OF assms]
  by (simp add: nat_of_digits_def padStart2_def two_digits_def digit_char_0)

lemma minute_field_value:
  "minute_field f \<Longrightarrow> digits_ok f \<and> nat_of_digits f < 60 \<and> padStart2 f = two_digits (nat_of_digits f)"
proof (cases f rule: minute_field.cases)
  case (1 d)
  moreover assume "minute_field f"
  ultimately show ?thesis
    using two_digits_single [of d] digit_char_val [of d] by (auto simp: digits_ok_def)
next
  case (2 t d)
  moreover assume f: "minute_field f"
  ultimately have "is_digit t" "is_digit d" and t: "digit_val t \<le> 5"
    using digit_range [of t] by (auto simp: less_eq_char_def digit_val_def code_def)
  then show ?thesis
    using two_digits_pair [of t d] digit_char_val [of d] 2 by (auto simp: digits_ok_def padStart2_def)
qed auto

lemma hour_field_value:
  "hour_field f \<Longrightarrow> digits_ok f \<and> nat_of_digits f < 24 \<and> padStart2 f = two_digits (nat_of_digits f)"
proof (cases f rule: hour_field.cases)
  case (1 d)
  moreover assume "hour_field f"
  ultimately show ?thesis
    using two_digits_single [of d] digit_char_val [of d] by (auto simp: digits_ok_def)
next
  case (2 t d)
  moreover assume f: "hour_field f"
  ultimately have "is_digit t" "is_digit d" and "10 * digit_val t + digit_val d < 24"
    using digit_range [of d] digit_char_val [of d]
    by (auto simp: less_eq_char_def digit_val_def code_def is_digit_def)
  then show ?thesis
    using two_digits_pair [of t d] 2 by (auto simp: digits_ok_def padStart2_def)
qed auto

section \<open>The schedule a cron expression stands for\<close>

definition fires_daily :: "string \<Rightarrow> nat \<Rightarrow> nat \<Rightarrow> bool" where
  "fires_daily cron h m \<longleftrightarrow>
     (\<exists>f g. cron_fields cron = [f, g, ''*'', ''*'', ''*''] \<and> digits_ok f \<and> digits_ok g
        \<and> nat_of_digits f = m \<and> nat_of_digits g = h)"

lemma fires_daily_cron: "fires_daily (daily_cron h m) h m"
  by (auto simp: fires_daily_def daily_cron_fields show_nat_ok)

lemma dailyTimeFor_Some:
  assumes "dailyTimeFor cron = Some t"
  obtains h m where "h < 24" "m < 60" "t = clock h m" "fires_daily cron h m"
proof -
  obtain f g where c: "cron_fields cron = [f, g, ''*'', ''*'', ''*'']" "minute_field f" "hour_field g"
    and t: "t = padStart2 g @ '':'' @ padStart2 f"
    using assms by (auto simp: dailyTimeFor_def split: list.splits if_splits)
  show ?thesis
    by (rule that [of "nat_of_digits g" "nat_of_digits f"])
      (use c t minute_field_value [OF c(2)] hour_field_value [OF c(3)] in
        \<open>auto simp: clock_def fires_daily_def\<close>)
qed

lemma two_digits_inj: "two_digits a = two_digits b \<Longrightarrow> a < 100 \<Longrightarrow> b < 100 \<Longrightarrow> a = b"
  by (metis nat_of_two_digits)

lemma clock_inj:
  "clock h m = clock h' m' \<Longrightarrow> h < 100 \<Longrightarrow> m < 100 \<Longrightarrow> h' < 100 \<Longrightarrow> m' < 100 \<Longrightarrow> h = h' \<and> m = m'"
  using two_digits_inj by (auto simp: clock_def two_digits_def)

section \<open>What the editor shows is what it saves\<close>

definition schedule_shown :: "string \<Rightarrow> string \<Rightarrow> string \<Rightarrow> bool" where
  "schedule_shown mode dailyTime cron \<longleftrightarrow>
     mode \<in> set preset_menu
     \<and> (mode = ''daily'' \<longrightarrow> fires_daily cron 3 0)
     \<and> (mode = ''12h'' \<longrightarrow> cron = ''0 */12 * * *'')
     \<and> (mode = ''6h'' \<longrightarrow> cron = ''0 */6 * * *'')
     \<and> (mode = ''custom_daily'' \<longrightarrow>
          (\<forall>h < 24. \<forall>m < 60. dailyTime = clock h m \<longrightarrow> fires_daily cron h m))"

definition editor_inv :: "editor \<Rightarrow> bool" where
  "editor_inv s \<longleftrightarrow> schedule_shown (ed_mode s) (ed_dailyTime s) (rp_cron_expression (ed_policy s))"

definition editor_start :: "editor \<Rightarrow> bool" where
  "editor_start s \<longleftrightarrow> (\<exists>p. s = editor_init p)"

lemma fires_daily_3: "fires_daily ''0 3 * * *'' 3 0"
proof -
  have "daily_cron 3 0 = ''0 3 * * *''" by code_simp
  with fires_daily_cron [of 3 0] show ?thesis by simp
qed

lemma fires_clock:
  "h < 24 \<Longrightarrow> m < 60 \<Longrightarrow> fires_daily (cronForDailyTime (clock h m)) h m"
  using fires_daily_cron by (simp add: cronForDailyTime_clock)

lemma dailyTimeFor_shown:
  assumes "dailyTimeFor cron = Some (clock h m)" "h < 24" "m < 60"
  shows "fires_daily cron h m"
  using assms(1)
proof (rule dailyTimeFor_Some)
  fix h' m'
  assume "h' < 24" "m' < 60" "clock h m = clock h' m'" "fires_daily cron h' m'"
  with clock_inj [of h m h' m'] assms show ?thesis by simp
qed

interpretation renewal_editor: page_invariant editor_step editor_start editor_inv
proof
  fix s assume "editor_start s"
  then obtain p where s: "s = editor_init p" by (auto simp: editor_start_def)
  show "editor_inv s"
    using fires_daily_3 dailyTimeFor_shown
    by (auto simp: s editor_inv_def schedule_shown_def editor_init_def presetFor_def preset_menu_def
        split: option.splits)
next
  fix s e assume inv: "editor_inv s"
  show "editor_inv (fst (editor_step e s))"
  proof (cases e)
    case (SelectPreset v)
    then show ?thesis
      using inv fires_daily_3 fires_clock
      by (auto simp: editor_inv_def schedule_shown_def selectPreset_def preset_cron_def preset_menu_def)
  next
    case (SetDailyTime t)
    then show ?thesis
      using inv fires_clock by (auto simp: editor_inv_def schedule_shown_def)
  qed (use inv in \<open>auto simp: editor_inv_def schedule_shown_def set_policy_def split: option.splits\<close>)
qed

section \<open>Properties\<close>

text \<open>
  Whatever the user does in the policy editor, a policy it saves runs when the editor says: with
  the daily preset at 03:00, with the 12 and 6 hour presets at the expressions of these presets, and
  with a daily time chosen at exactly the hour and minute in the time field.
\<close>

theorem saved_schedule_is_the_shown_one:
  assumes "s = fst (run_events editor_step es (editor_init p0))"
    and "CallApi (UpdateRenewalPolicy p) \<in> set (snd (editor_step e s))"
  shows "schedule_shown (ed_mode s) (ed_dailyTime s) (rp_cron_expression p)"
proof -
  have "editor_inv s"
    unfolding assms(1) by (rule renewal_editor.run_inv) (auto simp: editor_start_def)
  moreover have "p = ed_policy s"
    using assms(2) by (cases e) (auto simp: set_policy_def split: if_splits option.splits)
  ultimately show ?thesis by (simp add: editor_inv_def)
qed

definition demo_policy :: renewalPolicy where
  "demo_policy = \<lparr>rp_enabled = True, rp_cron_expression = ''0 3 * * *'', rp_timezone = ''UTC'',
     rp_max_concurrency = Fin 2, rp_retry_count = Fin 3, rp_retry_interval_seconds = Fin 60,
     rp_updated_at = None\<rparr>"

theorem saved_schedule_is_the_shown_one_witness:
  "schedule_shown ''custom_daily'' ''17:05'' ''5 17 * * *''"
proof -
  let ?es = "[SelectPreset ''custom_daily'', SetDailyTime ''17:05'']"
  let ?s = "fst (run_events editor_step ?es (editor_init demo_policy))"
  have preset: "presetFor ''0 3 * * *'' = ''daily''" by code_simp
  have cron: "cronForDailyTime ''17:05'' = ''5 17 * * *''" by code_simp
  have s: "ed_mode ?s = ''custom_daily''" "ed_dailyTime ?s = ''17:05''" "ed_save ?s = MIdle"
    "rp_cron_expression (ed_policy ?s) = ''5 17 * * *''"
    by (simp_all add: preset_menu_def selectPreset_def cron editor_init_def)
  have "CallApi (UpdateRenewalPolicy (ed_policy ?s)) \<in> set (snd (editor_step ClickSave ?s))"
    using s(3) by simp
  from saved_schedule_is_the_shown_one [OF refl this] show ?thesis unfolding s .
qed

text \<open>
  Daily times and cron expressions translate back and forth without loss: every clock time
  becomes an expression that runs daily at that time and is shown as that time again, and every
  expression shown as a time runs daily at that time and is rewritten to one that does too.
\<close>

theorem daily_time_round_trip:
  "(h < 24 \<and> m < 60 \<longrightarrow>
      fires_daily (cronForDailyTime (clock h m)) h m
      \<and> dailyTimeFor (cronForDailyTime (clock h m)) = Some (clock h m))
   \<and> (dailyTimeFor cron = Some t \<longrightarrow>
      (\<exists>h m. fires_daily cron h m \<and> fires_daily (cronForDailyTime t) h m
         \<and> dailyTimeFor (cronForDailyTime t) = Some t))"
proof (intro conjI impI)
  assume "h < 24 \<and> m < 60"
  then show "fires_daily (cronForDailyTime (clock h m)) h m"
    and "dailyTimeFor (cronForDailyTime (clock h m)) = Some (clock h m)"
    using fires_clock dailyTimeFor_daily_cron by (auto simp: cronForDailyTime_clock)
next
  assume "dailyTimeFor cron = Some t"
  then obtain h' m' where "h' < 24" "m' < 60" "t = clock h' m'" "fires_daily cron h' m'"
    by (rule dailyTimeFor_Some)
  then show "\<exists>h m. fires_daily cron h m \<and> fires_daily (cronForDailyTime t) h m
      \<and> dailyTimeFor (cronForDailyTime t) = Some t"
    using fires_clock dailyTimeFor_daily_cron by (auto simp: cronForDailyTime_clock)
qed

theorem daily_time_round_trip_witness:
  "dailyTimeFor (cronForDailyTime (clock 4 30)) = Some (clock 4 30)
   \<and> dailyTimeFor (cronForDailyTime ''04:05'') = Some ''04:05''"
proof -
  have "dailyTimeFor ''5 04 * * *'' = Some ''04:05''" by code_simp
  with daily_time_round_trip [of 4 30 "''5 04 * * *''" "''04:05''"] show ?thesis by auto
qed

text \<open>
  Clearing the time field silently schedules midnight: the default hour of the destructuring
  never applies, because splitting the empty text gives one empty part, and the policy saved next
  runs daily at 00:00 with no time shown.
\<close>

theorem cleared_time_saves_midnight:
  "let s = fst (run_events editor_step [SelectPreset ''custom_daily'', SetDailyTime []] (editor_init p))
   in ed_mode s = ''custom_daily'' \<and> ed_dailyTime s = []
      \<and> (\<exists>q. snd (editor_step ClickSave s) = [CallApi (UpdateRenewalPolicy q)]
           \<and> rp_cron_expression q = ''0 0 * * *'' \<and> fires_daily (rp_cron_expression q) 0 0)"
proof -
  have cron: "cronForDailyTime [] = ''0 0 * * *''" by code_simp
  have "daily_cron 0 0 = ''0 0 * * *''" by code_simp
  with fires_daily_cron [of 0 0] have "fires_daily ''0 0 * * *'' 0 0" by simp
  then show ?thesis
    by (simp add: preset_menu_def selectPreset_def cron editor_init_def)
qed

end
