(* ===== verification/Dns_Page.thy ===== *)
theory Dns_Page
  imports Ui
begin

text \<open>
  \<open>web/src/DNSCredentialsPage.tsx\<close>: the page's state with its dialogs, the saved input, the
  key/value text area of a custom provider and its parser. A plain object with string values is the
  list of its properties in insertion order; \<open>Object.entries\<close> delivers array indices first.
\<close>

section \<open>Objects and the pair parser\<close>

definition is_index :: "string \<Rightarrow> bool" where
  "is_index k \<longleftrightarrow> digits_ok k \<and> show_nat (nat_of_digits k) = k \<and> nat_of_digits k < 2 ^ 32 - 1"

definition object_entries :: "string_record \<Rightarrow> string_record" where
  "object_entries kvs =
     sort_key (\<lambda>kv. nat_of_digits (fst kv)) (filter (\<lambda>kv. is_index (fst kv)) kvs)
     @ filter (\<lambda>kv. \<not> is_index (fst kv)) kvs"

text \<open>Assigning a string to \<open>__proto__\<close> of an object changes nothing.\<close>

definition object_set :: "string \<Rightarrow> string \<Rightarrow> string_record \<Rightarrow> string_record" where
  "object_set k v kvs = (if k = ''__proto__'' then kvs else assoc_upd k v kvs)"

definition parse_line :: "string \<Rightarrow> string_record \<Rightarrow> string_record" where
  "parse_line line result =
     (let key = takeWhile (\<lambda>c. c \<noteq> CHR ''='') line in
      if length key < length line \<and> length key > 0
      then object_set (trim key) (trim (drop (length key + 1) line)) result
      else result)"

definition parsePairs :: "string \<Rightarrow> string_record" where
  "parsePairs value = fold parse_line (split_on (\<lambda>c. c = CHR ''\<newline>'') value) []"

definition pairs_text :: "string_record \<Rightarrow> string" where
  "pairs_text values =
     join [CHR ''\<newline>''] (map (\<lambda>(key, value). key @ ''='' @ value) (object_entries values))"

section \<open>The page\<close>

record dnsPage =
  dn_providers :: "dnsProvider list"
  dn_open :: bool
  dn_editing :: "dnsCredential option"
  dn_referencesFor :: "dnsCredential option"
  dn_renaming :: "dnsCredential option"
  dn_renamedName :: string
  dn_name :: string
  dn_providerCode :: string
  dn_sourceMode :: source_mode
  dn_customCode :: string
  dn_values :: string_record
  dn_save :: mutation
  dn_remove :: mutation
  dn_test :: mutation
  dn_rename :: mutation

definition dns_init :: dnsPage where
  "dns_init = \<lparr>dn_providers = [], dn_open = False, dn_editing = None, dn_referencesFor = None,
     dn_renaming = None, dn_renamedName = [], dn_name = [], dn_providerCode = ''cloudflare'',
     dn_sourceMode = Encrypted, dn_customCode = ''dns_'', dn_values = [], dn_save = MIdle,
     dn_remove = MIdle, dn_test = MIdle, dn_rename = MIdle\<rparr>"

definition selectedProvider :: "dnsPage \<Rightarrow> dnsProvider option" where
  "selectedProvider s = List.find (\<lambda>item. dp_provider_code item = dn_providerCode s) (dn_providers s)"

definition custom_selected :: "dnsPage \<Rightarrow> bool" where
  "custom_selected s = (case selectedProvider s of None \<Rightarrow> False | Some p \<Rightarrow> dp_custom p)"

definition field_shown :: "string \<Rightarrow> dnsPage \<Rightarrow> bool" where
  "field_shown f s =
     (case selectedProvider s of
        None \<Rightarrow> False
      | Some p \<Rightarrow> \<not> dp_custom p \<and> f \<in> pf_name ` set (dp_fields p))"

definition save_input :: "dnsPage \<Rightarrow> dnsCredentialInput" where
  "save_input s = \<lparr>di_name = dn_name s, di_provider = dn_providerCode s,
     di_custom_acme_code = (if custom_selected s then Some (dn_customCode s) else None),
     di_source_mode = dn_sourceMode s,
     di_values = (if dn_sourceMode s = Encrypted then Some (dn_values s) else None),
     di_environment_refs = (if dn_sourceMode s = Environment then Some (dn_values s) else None)\<rparr>"

definition save_call :: "dnsPage \<Rightarrow> api_call" where
  "save_call s =
     (case dn_editing s of
        Some item \<Rightarrow> UpdateDNSCredential (dc_id item) (save_input s)
      | None \<Rightarrow> CreateDNSCredential (save_input s))"

definition saved :: "dnsPage \<Rightarrow> dnsPage" where
  "saved s = s\<lparr>dn_open := False, dn_editing := None, dn_name := [], dn_values := [],
     dn_customCode := ''dns_''\<rparr>"

definition closeDialog :: "dnsPage \<Rightarrow> dnsPage" where
  "closeDialog s = s\<lparr>dn_open := False, dn_editing := None, dn_values := []\<rparr>"

definition startEdit :: "dnsCredential \<Rightarrow> dnsPage \<Rightarrow> dnsPage" where
  "startEdit item s = s\<lparr>dn_editing := Some item, dn_name := dc_name item,
     dn_providerCode := dc_provider item, dn_sourceMode := dc_source_mode item,
     dn_customCode := dc_acme_dns_code item,
     dn_values := (if dc_source_mode item = Environment
        then (case dc_environment_refs item of Some r \<Rightarrow> r | None \<Rightarrow> []) else []),
     dn_open := True\<rparr>"

datatype dns_event =
    ProvidersLoaded "dnsProvider list" | ClickNew | StartEdit dnsCredential | CloseDialog
  | TypeName string | ChooseProvider string | ChooseSource source_mode | TypeCustomCode string
  | TypePairs string | TypeField string string | ClickSave | SaveSettled "js_error option"
  | ClickTest string | TestSettled "js_error option" | ShowReferences dnsCredential
  | CloseReferences | StartRename dnsCredential | TypeRename string | CloseRename
  | ClickRename | RenameSettled "js_error option" | ClickDelete string
  | DeleteSettled "js_error option"

definition settle :: "js_error option \<Rightarrow> mutation" where
  "settle r = (case r of None \<Rightarrow> MSuccess | Some e \<Rightarrow> MFailed e)"

abbreviation refresh :: effect where
  "refresh \<equiv> InvalidateQueries ''dns-credentials''"

fun dns_step :: "dns_event \<Rightarrow> dnsPage \<Rightarrow> dnsPage \<times> effect list" where
  "dns_step (ProvidersLoaded ps) s = (s\<lparr>dn_providers := ps\<rparr>, [])"
| "dns_step ClickNew s = (s\<lparr>dn_open := True\<rparr>, [])"
| "dns_step (StartEdit item) s = (startEdit item s, [])"
| "dns_step CloseDialog s = (closeDialog s, [])"
| "dns_step (TypeName t) s = (if dn_open s then s\<lparr>dn_name := t\<rparr> else s, [])"
| "dns_step (ChooseProvider c) s =
     (if dn_open s \<and> c \<in> dp_provider_code ` set (dn_providers s)
      then s\<lparr>dn_providerCode := c, dn_values := []\<rparr> else s, [])"
| "dns_step (ChooseSource m) s =
     (if dn_open s then s\<lparr>dn_sourceMode := m, dn_values := []\<rparr> else s, [])"
| "dns_step (TypeCustomCode t) s =
     (if dn_open s \<and> custom_selected s then s\<lparr>dn_customCode := t\<rparr> else s, [])"
| "dns_step (TypePairs t) s =
     (if dn_open s \<and> custom_selected s then s\<lparr>dn_values := parsePairs t\<rparr> else s, [])"
| "dns_step (TypeField f t) s =
     (if dn_open s \<and> field_shown f s
      then s\<lparr>dn_values := assoc_upd f t (dn_values s)\<rparr> else s, [])"
| "dns_step ClickSave s =
     (if dn_open s \<and> dn_name s \<noteq> [] \<and> \<not> pending (dn_save s)
      then (s\<lparr>dn_save := MPending\<rparr>, [CallApi (save_call s)]) else (s, []))"
| "dns_step (SaveSettled r) s =
     (if \<not> pending (dn_save s) then (s, [])
      else if r = None then ((saved s)\<lparr>dn_save := MSuccess\<rparr>, [refresh])
      else (s\<lparr>dn_save := settle r\<rparr>, []))"
| "dns_step (ClickTest i) s =
     (if pending (dn_test s) then (s, [])
      else (s\<lparr>dn_test := MPending\<rparr>, [CallApi (TestDNSCredential i)]))"
| "dns_step (TestSettled r) s = (if pending (dn_test s) then s\<lparr>dn_test := settle r\<rparr> else s, [])"
| "dns_step (ShowReferences item) s =
     (s\<lparr>dn_referencesFor := Some item\<rparr>, [CallApi (ListDNSCredentialReferences (dc_id item))])"
| "dns_step CloseReferences s = (s\<lparr>dn_referencesFor := None\<rparr>, [])"
| "dns_step (StartRename item) s =
     (s\<lparr>dn_renaming := Some item, dn_renamedName := dc_name item\<rparr>, [])"
| "dns_step (TypeRename t) s = (if dn_renaming s \<noteq> None then s\<lparr>dn_renamedName := t\<rparr> else s, [])"
| "dns_step CloseRename s = (s\<lparr>dn_renaming := None, dn_renamedName := []\<rparr>, [])"
| "dns_step ClickRename s =
     (case dn_renaming s of
        Some item \<Rightarrow>
          if trim (dn_renamedName s) \<noteq> [] \<and> \<not> pending (dn_rename s)
          then (s\<lparr>dn_rename := MPending\<rparr>, [CallApi (RenameDNSCredential (dc_id item) (dn_renamedName s))])
          else (s, [])
      | None \<Rightarrow> (s, []))"
| "dns_step (RenameSettled r) s =
     (if \<not> pending (dn_rename s) then (s, [])
      else if r = None
      then (s\<lparr>dn_renaming := None, dn_renamedName := [], dn_rename := MSuccess\<rparr>, [refresh])
      else (s\<lparr>dn_rename := settle r\<rparr>, []))"
| "dns_step (ClickDelete i) s =
     (if pending (dn_remove s) then (s, [])
      else (s\<lparr>dn_remove := MPending\<rparr>, [CallApi (DeleteDNSCredential i)]))"
| "dns_step (DeleteSettled r) s =
     (if \<not> pending (dn_remove s) then (s, [])
      else (s\<lparr>dn_remove := settle r\<rparr>, if r = None then [refresh] else []))"

section \<open>Invariant and effects\<close>

definition dns_inv :: "dnsPage \<Rightarrow> bool" where
  "dns_inv s \<longleftrightarrow>
     (\<not> dn_open s \<longrightarrow> dn_values s = [] \<and> dn_editing s = None)
     \<and> (dn_renaming s = None \<longrightarrow> dn_renamedName s = [])"

definition input_ok :: "dnsCredentialInput \<Rightarrow> bool" where
  "input_ok i \<longleftrightarrow> di_name i \<noteq> []
     \<and> (di_source_mode i = Encrypted \<longrightarrow> di_values i \<noteq> None \<and> di_environment_refs i = None)
     \<and> (di_source_mode i = Environment \<longrightarrow> di_values i = None \<and> di_environment_refs i \<noteq> None)"

fun dns_effect_ok :: "effect \<Rightarrow> bool" where
  "dns_effect_ok (CallApi (CreateDNSCredential i)) = input_ok i"
| "dns_effect_ok (CallApi (UpdateDNSCredential _ i)) = input_ok i"
| "dns_effect_ok (CallApi (RenameDNSCredential _ n)) = (trim n \<noteq> [])"
| "dns_effect_ok _ = True"

lemma save_input_ok: "dn_name s \<noteq> [] \<Longrightarrow> input_ok (save_input s)"
  by (simp add: input_ok_def save_input_def)

interpretation dns_page: page_effects dns_step "\<lambda>s. s = dns_init" dns_inv dns_effect_ok
proof
  show "s = dns_init \<Longrightarrow> dns_inv s" for s
    by (simp add: dns_inv_def dns_init_def)
  show "dns_inv s \<Longrightarrow> dns_inv (fst (dns_step e s))" for s e
    by (cases e) (auto simp: dns_inv_def startEdit_def closeDialog_def saved_def split: option.splits)
  show "dns_inv s \<Longrightarrow> f \<in> set (snd (dns_step e s)) \<Longrightarrow> dns_effect_ok f" for s f e
    by (cases e) (auto simp: save_call_def save_input_ok split: option.splits if_splits)
qed

section \<open>The pair parser\<close>

definition pair_ok :: "string \<times> string \<Rightarrow> bool" where
  "pair_ok kv \<longleftrightarrow>
     (case kv of (k, v) \<Rightarrow>
        k \<noteq> [] \<and> trim k = k \<and> CHR ''='' \<notin> set k \<and> CHR ''\<newline>'' \<notin> set k
        \<and> k \<noteq> ''__proto__'' \<and> \<not> is_index k \<and> trim v = v \<and> CHR ''\<newline>'' \<notin> set v)"

lemma parse_line_pair:
  assumes "pair_ok (k, v)"
  shows "parse_line (k @ ''='' @ v) r = assoc_upd k v r"
proof -
  have "takeWhile (\<lambda>c. c \<noteq> CHR ''='') (k @ ''='' @ v) = k"
    using assms by (subst takeWhile_append2) (auto simp: pair_ok_def)
  with assms show ?thesis by (auto simp: parse_line_def Let_def object_set_def pair_ok_def)
qed

lemma fold_parse_pairs:
  "list_all pair_ok kvs \<Longrightarrow> distinct (map fst (r @ kvs)) \<Longrightarrow>
     fold parse_line (map (\<lambda>(k, v). k @ ''='' @ v) kvs) r = r @ kvs"
proof (induction kvs arbitrary: r)
  case (Cons kv kvs)
  obtain k v where kv: "kv = (k, v)" by (cases kv)
  have "parse_line (k @ ''='' @ v) r = r @ [(k, v)]"
    using Cons.prems kv parse_line_pair [of k v r] assoc_upd_new [of k r v] by auto
  with Cons kv show ?case by simp
qed simp

lemma object_entries_names:
  assumes "list_all pair_ok kvs"
  shows "object_entries kvs = kvs"
proof -
  have "\<forall>kv \<in> set kvs. \<not> is_index (fst kv)"
    using assms by (auto simp: list_all_iff pair_ok_def)
  then have "filter (\<lambda>kv. is_index (fst kv)) kvs = []" "filter (\<lambda>kv. \<not> is_index (fst kv)) kvs = kvs"
    by (simp_all add: filter_empty_conv)
  then show ?thesis by (simp add: object_entries_def)
qed

lemma parse_line_no_pair: "CHR ''='' \<notin> set line \<Longrightarrow> parse_line line r = r"
proof -
  assume "CHR ''='' \<notin> set line"
  then have "takeWhile (\<lambda>c. c \<noteq> CHR ''='') line = line"
    by (auto simp: takeWhile_eq_all_conv)
  then show ?thesis unfolding parse_line_def Let_def by (simp only: less_irrefl) simp
qed

lemma parsePairs_no_pair: "CHR ''='' \<notin> set t \<Longrightarrow> parsePairs t = []"
proof -
  assume t: "CHR ''='' \<notin> set t"
  have "fold parse_line ls r = r" if "\<forall>l \<in> set ls. CHR ''='' \<notin> set l" for ls r
    using that by (induction ls arbitrary: r) (auto simp: parse_line_no_pair)
  with t show ?thesis
    unfolding parsePairs_def using split_on_chars by (metis subsetD)
qed

lemma parsePairs_single: "parsePairs [c] = []"
proof (cases "c = CHR ''=''")
  case True
  then show ?thesis by (simp add: parsePairs_def parse_line_def)
next
  case False
  then show ?thesis by (intro parsePairs_no_pair) auto
qed

lemma split_on_snoc_sep: "p c \<Longrightarrow> split_on p (t @ [c]) = split_on p t @ [[]]"
  by (induction t) (auto split: list.splits)

lemma parsePairs_snoc_newline: "parsePairs (t @ [CHR ''\<newline>'']) = parsePairs t"
  by (simp add: parsePairs_def split_on_snoc_sep parse_line_def)

text \<open>A key press puts one character into the text the area shows, at some position.\<close>

definition press_key :: "nat \<times> char \<Rightarrow> dnsPage \<Rightarrow> dnsPage" where
  "press_key nc s =
     (let shown = pairs_text (dn_values s)
      in fst (dns_step (TypePairs (take (fst nc) shown @ snd nc # drop (fst nc) shown)) s))"

lemma press_key_empty: "dn_values s = [] \<Longrightarrow> dn_values (press_key nc s) = []"
  by (simp add: press_key_def pairs_text_def object_entries_def parsePairs_single)

section \<open>Properties\<close>


definition custom_page :: dnsPage where
  "custom_page = fst (run_events dns_step
     [ProvidersLoaded [\<lparr>dp_provider_code = ''custom'', dp_display_name = ''Custom'', dp_acme_dns_code = [],
        dp_fields = [], dp_documentation_hint = [], dp_custom = True\<rparr>],
      ClickNew, ChooseProvider ''custom''] dns_init)"


text \<open>
  A pasted or loaded set of pairs survives the text area: distinct, trimmed keys without
  equals signs and values without line breaks, shown one pair per line, are parsed back to the same
  object.
\<close>

theorem parsePairs_round_trip:
  assumes "list_all pair_ok kvs" and "distinct (map fst kvs)"
  shows "parsePairs (pairs_text kvs) = kvs"
proof (cases "kvs = []")
  case True
  then show ?thesis by (simp add: pairs_text_def object_entries_def parsePairs_def parse_line_def)
next
  case False
  let ?lines = "map (\<lambda>(k, v). k @ ''='' @ v) kvs"
  have "split_on (\<lambda>c. c = CHR ''\<newline>'') (join [CHR ''\<newline>''] ?lines) = ?lines"
    by (rule split_on_join) (use assms(1) False in \<open>auto simp: list_all_iff pair_ok_def\<close>)
  then show ?thesis
    using fold_parse_pairs [OF assms(1), of "[]"] assms object_entries_names [OF assms(1)]
    by (simp add: parsePairs_def pairs_text_def)
qed

theorem parsePairs_round_trip_witness:
  "parsePairs (pairs_text [(''CF_Token'', ''a=b''), (''CF_Zone'', [])]) = [(''CF_Token'', ''a=b''), (''CF_Zone'', [])]"
  by (rule parsePairs_round_trip) code_simp+

text \<open>
  Secrets leave the page's state with the dialog: in every state that user actions and settled
  requests lead to, a closed dialog has no entered values and edits nothing, and the source of the
  values is switched only together with emptying them or by opening an existing credential.
\<close>

theorem closed_dialog_keeps_no_secret:
  assumes "s = fst (run_events dns_step es dns_init)"
  shows "(\<not> dn_open s \<longrightarrow> dn_values s = [] \<and> dn_editing s = None)
    \<and> (dn_sourceMode (fst (dns_step e s)) \<noteq> dn_sourceMode s \<longrightarrow>
         dn_values (fst (dns_step e s)) = []
         \<or> (\<exists>item. e = StartEdit item \<and> dc_source_mode item = Environment
               \<and> Some (dn_values (fst (dns_step e s))) = dc_environment_refs item))"
proof
  show "\<not> dn_open s \<longrightarrow> dn_values s = [] \<and> dn_editing s = None"
    using dns_page.run_inv [OF refl, of es] by (simp add: assms dns_inv_def)
  show "dn_sourceMode (fst (dns_step e s)) \<noteq> dn_sourceMode s \<longrightarrow>
         dn_values (fst (dns_step e s)) = []
         \<or> (\<exists>item. e = StartEdit item \<and> dc_source_mode item = Environment
               \<and> Some (dn_values (fst (dns_step e s))) = dc_environment_refs item)"
    by (cases e) (auto simp: startEdit_def closeDialog_def saved_def split: option.splits if_splits)
qed

theorem closed_dialog_keeps_no_secret_witness:
  "dn_values (fst (run_events dns_step [ClickNew, CloseDialog] dns_init)) = []"
  using closed_dialog_keeps_no_secret [of _ "[ClickNew, CloseDialog]" ClickNew, OF refl]
  by (simp add: closeDialog_def)

text \<open>
  Every credential the page saves has a name and exactly one kind of values: secret values for
  the encrypted source, variable names for the environment source; an edit goes to the identifier of
  the credential being edited; and a rename never sends a blank name.
\<close>

theorem saved_credential_input:
  assumes "CallApi c \<in> set (snd (dns_step e s))" and "s = fst (run_events dns_step es dns_init)"
  shows "dns_effect_ok (CallApi c)
    \<and> (\<forall>i input. c = UpdateDNSCredential i input \<longrightarrow> map_option dc_id (dn_editing s) = Some i)
    \<and> (\<forall>input. c = CreateDNSCredential input \<longrightarrow> dn_editing s = None)"
proof
  have "dns_inv s" using dns_page.run_inv [OF refl, of es] by (simp add: assms(2))
  then show "dns_effect_ok (CallApi c)" using assms(1) by (rule dns_page.step_ok)
  show "(\<forall>i input. c = UpdateDNSCredential i input \<longrightarrow> map_option dc_id (dn_editing s) = Some i)
    \<and> (\<forall>input. c = CreateDNSCredential input \<longrightarrow> dn_editing s = None)"
    using assms(1) by (cases e) (auto simp: save_call_def split: option.splits if_splits)
qed

theorem saved_credential_input_witness:
  "input_ok (save_input (fst (run_events dns_step [ClickNew, TypeName ''cf''] dns_init)))"
proof -
  let ?s = "fst (run_events dns_step [ClickNew, TypeName ''cf''] dns_init)"
  have "CallApi (CreateDNSCredential (save_input ?s)) \<in> set (snd (dns_step ClickSave ?s))"
    by (simp add: dns_init_def save_call_def)
  from saved_credential_input [OF this refl] show ?thesis by simp
qed

end
