(* ===== verification/Detail_Page.thy ===== *)
theory Detail_Page
  imports Ui Go_Rules
begin

text \<open>
  \<open>CertificateDetailPage\<close> and \<open>RenewalSettings\<close> of \<open>web/src/CertificatePages.tsx\<close>: which
  operations the page offers for a certificate, its three confirmation dialogs, the requests they
  send, and the settings form. The server's rules they are compared with are those of \<open>Go_Rules\<close>.
  Moving the keyboard focus is not modelled.
\<close>

section \<open>Offered operations\<close>

definition canIssue :: "certificate \<Rightarrow> bool" where
  "canIssue c \<longleftrightarrow> ct_status c \<in> set [''pending'', ''failed'', ''active'', ''expiring'', ''expired'']"

definition canRenew :: "certificate \<Rightarrow> bool" where
  "canRenew c \<longleftrightarrow> ct_status c \<in> set [''active'', ''expiring'', ''expired'']"

definition canRevoke :: "certificate \<Rightarrow> bool" where
  "canRevoke c \<longleftrightarrow> ct_mode c = Acme \<and> ct_status c \<in> set [''active'', ''expiring'']"

section \<open>The page\<close>

record detailPage =
  de_id :: string
  de_certificate :: "certificate query"
  de_availableFiles :: "certificateFile list query"
  de_tab :: nat
  de_forceOpen :: bool
  de_forcePassword :: string
  de_revokeOpen :: bool
  de_revokePassword :: string
  de_deleteOpen :: bool
  de_deletePassword :: string
  de_deleteName :: string
  de_deleteFiles :: bool
  de_renew :: mutation
  de_forceRenew :: mutation
  de_issue :: mutation
  de_revoke :: mutation
  de_remove :: mutation

definition detail_init :: "string \<Rightarrow> detailPage" where
  "detail_init i = \<lparr>de_id = i, de_certificate = QPending, de_availableFiles = QPending, de_tab = 0,
     de_forceOpen = False, de_forcePassword = [], de_revokeOpen = False, de_revokePassword = [],
     de_deleteOpen = False, de_deletePassword = [], de_deleteName = [], de_deleteFiles = False,
     de_renew = MIdle, de_forceRenew = MIdle, de_issue = MIdle, de_revoke = MIdle, de_remove = MIdle\<rparr>"

definition closeForceDialog :: "detailPage \<Rightarrow> detailPage" where
  "closeForceDialog s = s\<lparr>de_forceOpen := False, de_forcePassword := []\<rparr>"

definition closeRevokeDialog :: "detailPage \<Rightarrow> detailPage" where
  "closeRevokeDialog s = s\<lparr>de_revokeOpen := False, de_revokePassword := []\<rparr>"

definition closeDeleteDialog :: "detailPage \<Rightarrow> detailPage" where
  "closeDeleteDialog s =
     s\<lparr>de_deleteOpen := False, de_deletePassword := [], de_deleteName := [], de_deleteFiles := False\<rparr>"

definition hasPublishedFiles :: "detailPage \<Rightarrow> bool" where
  "hasPublishedFiles s = (case de_availableFiles s of QData files \<Rightarrow> length files > 0 | _ \<Rightarrow> False)"

definition files_checkable :: "detailPage \<Rightarrow> bool" where
  "files_checkable s = (hasPublishedFiles s \<and> query_data (de_availableFiles s) \<noteq> None)"

text \<open>The buttons and dialogs are rendered only when the certificate is loaded.\<close>

definition loaded :: "(certificate \<Rightarrow> bool) \<Rightarrow> detailPage \<Rightarrow> bool" where
  "loaded p s = (case de_certificate s of QData c \<Rightarrow> p c | _ \<Rightarrow> False)"

definition show_certificate :: "string \<Rightarrow> effect list" where
  "show_certificate i = [SetQueryData [''certificate'', i], InvalidateQueries ''certificates'']"

datatype detail_event =
    CertificateLoaded "certificate query" | FilesLoaded "certificateFile list query" | SelectTab nat
  | ClickRenew | RenewSettled "js_error option" | ClickIssue | IssueSettled "js_error option"
  | OpenForce | TypeForcePassword string | CloseForce | ConfirmForce | ForceSettled "js_error option"
  | OpenRevoke | TypeRevokePassword string | CloseRevoke | ConfirmRevoke
  | RevokeSettled "js_error option" | OpenDelete | TypeDeleteName string
  | TypeDeletePassword string | ToggleDeleteFiles bool | CloseDelete | ConfirmDelete
  | DeleteSettled "js_error option"

definition settled :: "js_error option \<Rightarrow> mutation" where
  "settled r = (case r of None \<Rightarrow> MSuccess | Some e \<Rightarrow> MFailed e)"

fun detail_step :: "detail_event \<Rightarrow> detailPage \<Rightarrow> detailPage \<times> effect list" where
  "detail_step (CertificateLoaded q) s = (s\<lparr>de_certificate := q\<rparr>, [])"
| "detail_step (FilesLoaded q) s = (s\<lparr>de_availableFiles := q\<rparr>, [])"
| "detail_step (SelectTab t) s = (if loaded (\<lambda>_. t < 6) s then s\<lparr>de_tab := t\<rparr> else s, [])"
| "detail_step ClickRenew s =
     (if loaded canRenew s \<and> \<not> pending (de_renew s)
      then (s\<lparr>de_renew := MPending\<rparr>, [CallApi (RenewCertificate (de_id s) False)]) else (s, []))"
| "detail_step (RenewSettled r) s =
     (if \<not> pending (de_renew s) then (s, [])
      else (s\<lparr>de_renew := settled r\<rparr>, if r = None then show_certificate (de_id s) else []))"
| "detail_step ClickIssue s =
     (if loaded canIssue s \<and> \<not> pending (de_issue s)
      then (s\<lparr>de_issue := MPending\<rparr>, [CallApi (IssueCertificate (de_id s))]) else (s, []))"
| "detail_step (IssueSettled r) s =
     (if \<not> pending (de_issue s) then (s, [])
      else (s\<lparr>de_issue := settled r\<rparr>, if r = None then show_certificate (de_id s) else []))"
| "detail_step OpenForce s =
     (if loaded canRenew s \<and> \<not> pending (de_forceRenew s) then s\<lparr>de_forceOpen := True\<rparr> else s, [])"
| "detail_step (TypeForcePassword t) s = (if de_forceOpen s then s\<lparr>de_forcePassword := t\<rparr> else s, [])"
| "detail_step CloseForce s = (if de_forceOpen s then closeForceDialog s else s, [])"
| "detail_step ConfirmForce s =
     (if loaded (\<lambda>_. True) s \<and> de_forceOpen s \<and> de_forcePassword s \<noteq> [] \<and> \<not> pending (de_forceRenew s)
      then (s\<lparr>de_forceRenew := MPending\<rparr>,
            [ReauthenticateThen (de_forcePassword s) (RenewCertificate (de_id s) True)])
      else (s, []))"
| "detail_step (ForceSettled r) s =
     (if \<not> pending (de_forceRenew s) then (s, [])
      else if r = None
      then ((closeForceDialog s)\<lparr>de_forceRenew := MSuccess\<rparr>, show_certificate (de_id s))
      else (s\<lparr>de_forceRenew := settled r\<rparr>, []))"
| "detail_step OpenRevoke s = (if loaded canRevoke s then s\<lparr>de_revokeOpen := True\<rparr> else s, [])"
| "detail_step (TypeRevokePassword t) s =
     (if de_revokeOpen s then s\<lparr>de_revokePassword := t\<rparr> else s, [])"
| "detail_step CloseRevoke s = (if de_revokeOpen s then closeRevokeDialog s else s, [])"
| "detail_step ConfirmRevoke s =
     (if loaded (\<lambda>_. True) s \<and> de_revokeOpen s \<and> de_revokePassword s \<noteq> [] \<and> \<not> pending (de_revoke s)
      then (s\<lparr>de_revoke := MPending\<rparr>, [CallApi (RevokeCertificate (de_id s) (de_revokePassword s))])
      else (s, []))"
| "detail_step (RevokeSettled r) s =
     (if \<not> pending (de_revoke s) then (s, [])
      else if r = None
      then ((closeRevokeDialog s)\<lparr>de_revoke := MSuccess\<rparr>, show_certificate (de_id s))
      else (s\<lparr>de_revoke := settled r\<rparr>, []))"
| "detail_step OpenDelete s = (if loaded (\<lambda>_. True) s then s\<lparr>de_deleteOpen := True\<rparr> else s, [])"
| "detail_step (TypeDeleteName t) s = (if de_deleteOpen s then s\<lparr>de_deleteName := t\<rparr> else s, [])"
| "detail_step (TypeDeletePassword t) s =
     (if de_deleteOpen s then s\<lparr>de_deletePassword := t\<rparr> else s, [])"
| "detail_step (ToggleDeleteFiles b) s =
     (if de_deleteOpen s \<and> files_checkable s then s\<lparr>de_deleteFiles := b\<rparr> else s, [])"
| "detail_step CloseDelete s = (if de_deleteOpen s then closeDeleteDialog s else s, [])"
| "detail_step ConfirmDelete s =
     (if loaded (\<lambda>c. de_deleteName s = ct_name c) s \<and> de_deleteOpen s \<and> de_deletePassword s \<noteq> []
         \<and> \<not> pending (de_remove s)
      then (s\<lparr>de_remove := MPending\<rparr>,
            [CallApi (DeleteCertificate (de_id s) (de_deletePassword s) (de_deleteName s)
               (de_deleteFiles s \<and> hasPublishedFiles s))])
      else (s, []))"
| "detail_step (DeleteSettled r) s =
     (if \<not> pending (de_remove s) then (s, [])
      else if r = None
      then ((closeDeleteDialog s)\<lparr>de_remove := MSuccess\<rparr>,
            [InvalidateQueries ''certificates'', Navigate ''/certificates'' True])
      else (s\<lparr>de_remove := settled r\<rparr>, []))"

text \<open>The mutation of a forced renewal: reauthenticate, then renew.\<close>

definition forceRenew_program :: "string \<Rightarrow> string \<Rightarrow> jsval io" where
  "forceRenew_program forcePassword i =
     bind (reauthenticate forcePassword) (\<lambda>_. renewCertificate i True)"

section \<open>The settings tab\<close>

record settingsForm =
  sf_id :: string
  sf_name :: string
  sf_enabled :: bool
  sf_days :: js_number
  sf_marker :: bool
  sf_mutation :: mutation

definition settings_init :: "certificate \<Rightarrow> settingsForm" where
  "settings_init c = \<lparr>sf_id = ct_id c, sf_name = ct_name c, sf_enabled = ct_auto_renew_enabled c,
     sf_days = ct_renew_before_days c, sf_marker = ct_create_renewed_marker c, sf_mutation = MIdle\<rparr>"

fun number_lt :: "js_number \<Rightarrow> js_number \<Rightarrow> bool" where
  "number_lt (Fin a) (Fin b) = (a < b)"
| "number_lt _ _ = False"

datatype settings_event =
    SetName string | SetDays string | SetEnabled bool | SetMarker bool | ClickSave
  | SaveSettled "js_error option"

definition settings_value :: "settingsForm \<Rightarrow> certificateUpdate" where
  "settings_value s = \<lparr>cu_name = sf_name s, cu_auto_renew_enabled = sf_enabled s,
     cu_renew_before_days = sf_days s, cu_create_renewed_marker = sf_marker s\<rparr>"

fun settings_step :: "settings_event \<Rightarrow> settingsForm \<Rightarrow> settingsForm \<times> effect list" where
  "settings_step (SetName t) s = (s\<lparr>sf_name := t\<rparr>, [])"
| "settings_step (SetDays t) s = (s\<lparr>sf_days := js_Number t\<rparr>, [])"
| "settings_step (SetEnabled b) s = (s\<lparr>sf_enabled := b\<rparr>, [])"
| "settings_step (SetMarker b) s = (s\<lparr>sf_marker := b\<rparr>, [])"
| "settings_step ClickSave s =
     (if trim (sf_name s) = [] \<or> number_lt (sf_days s) (Fin 1) \<or> number_lt (Fin 365) (sf_days s)
         \<or> pending (sf_mutation s)
      then (s, [])
      else (s\<lparr>sf_mutation := MPending\<rparr>, [CallApi (UpdateCertificate (sf_id s) (settings_value s))]))"
| "settings_step (SaveSettled r) s =
     (if \<not> pending (sf_mutation s) then (s, [])
      else (s\<lparr>sf_mutation := settled r\<rparr>, if r = None then show_certificate (sf_id s) else []))"

section \<open>Invariant and effects\<close>

definition detail_inv :: "string \<Rightarrow> detailPage \<Rightarrow> bool" where
  "detail_inv i s \<longleftrightarrow> de_id s = i
     \<and> (\<not> de_forceOpen s \<longrightarrow> de_forcePassword s = [])
     \<and> (\<not> de_revokeOpen s \<longrightarrow> de_revokePassword s = [])
     \<and> (\<not> de_deleteOpen s \<longrightarrow> de_deletePassword s = [] \<and> de_deleteName s = [] \<and> \<not> de_deleteFiles s)"

fun detail_effect_ok :: "string \<Rightarrow> effect \<Rightarrow> bool" where
  "detail_effect_ok i (CallApi (RenewCertificate j force)) = (j = i \<and> \<not> force)"
| "detail_effect_ok i (CallApi (IssueCertificate j)) = (j = i)"
| "detail_effect_ok i (CallApi (RevokeCertificate j password)) = (j = i \<and> password \<noteq> [])"
| "detail_effect_ok i (CallApi (DeleteCertificate j password _ _)) = (j = i \<and> password \<noteq> [])"
| "detail_effect_ok i (CallApi _) = False"
| "detail_effect_ok i (ReauthenticateThen password c) =
     (password \<noteq> [] \<and> c = RenewCertificate i True)"
| "detail_effect_ok i _ = True"

interpretation detail_page: page_effects detail_step "\<lambda>s. s = detail_init i" "detail_inv i"
  "detail_effect_ok i" for i
proof
  show "s = detail_init i \<Longrightarrow> detail_inv i s" for s
    by (simp add: detail_inv_def detail_init_def)
  show "detail_inv i s \<Longrightarrow> detail_inv i (fst (detail_step e s))" for s e
    by (cases e) (auto simp: detail_inv_def closeForceDialog_def closeRevokeDialog_def
        closeDeleteDialog_def)
  show "detail_inv i s \<Longrightarrow> f \<in> set (snd (detail_step e s)) \<Longrightarrow> detail_effect_ok i f" for s f e
    by (cases e) (auto simp: detail_inv_def show_certificate_def split: if_splits)
qed

section \<open>Forced renewal\<close>

lemma run_reauthenticate_ok:
  assumes "run srv (reauthenticate password) c = (Inr v, c')"
  obtains xs t r where
    "exchanges c' = exchanges c @ xs @ [(json_request POST ''/api/v1/auth/reauthenticate'' t
       (Some (JObj [(''password'', JStr password)])), Response r)]" "rs_ok r"
proof -
  obtain u c1 where "run srv (writeJson ''/api/v1/auth/reauthenticate''
      (JObj [(''password'', JStr password)])) c = (Inr u, c1)" "c1 = c'"
    using assms by (auto simp: reauthenticate_def void_def run_bind split: prod.splits sum.splits)
  then show ?thesis using that by (auto elim!: run_writeJson_ok)
qed

lemma sends_reauthenticate_url:
  "sends (reauthenticate password) rq \<Longrightarrow>
     rq_url rq = ''/api/v1/auth/csrf'' \<or> rq_url rq = ''/api/v1/auth/reauthenticate''"
  by (auto simp: reauthenticate_def void_def writeJson_def json_request_def csrf_request_def
      get_request_def dest!: sends_bind sends_getCSRFToken sends_request)

lemma force_url_other:
  "certificate_url i @ ''/force-renew'' \<noteq> ''/api/v1/auth/csrf''"
  "certificate_url i @ ''/force-renew'' \<noteq> ''/api/v1/auth/reauthenticate''"
  by (simp_all add: certificate_url_def)

section \<open>Properties\<close>

text \<open>
  C23. The page offers an operation exactly when the server's status rule allows it: issuing,
  renewing and revoking, for each of the server's statuses and both modes.
\<close>

theorem offered_operations_match_server:
  "let c' = c\<lparr>ct_status := status_text st\<rparr>
   in canIssue c' = manualIssueAllowed st \<and> canRenew c' = renewAllowed st
      \<and> canRevoke c' = (ct_mode c = Acme \<and> revokeAllowed st)"
  by (cases st)
    (simp_all add: canIssue_def canRenew_def canRevoke_def manualIssueAllowed_def renewAllowed_def
      revokeAllowed_def)

text \<open>
  C22. No password outlives its dialog, and no request goes astray: in every state the page can reach
  a closed dialog holds no password, name or file choice; every request the page ever starts is for
  its own certificate; revoking and deleting carry a password; and a forced renewal is only ever
  started behind a reauthentication with a password.
\<close>

theorem detail_page_requests:
  assumes "run_events detail_step es (detail_init i) = (s, fs)"
  shows "detail_inv i s \<and> (\<forall>f \<in> set fs. detail_effect_ok i f)"
  using detail_page.run_inv [OF refl, of i es] detail_page.run_ok [OF refl, of _ es i] assms by auto

definition demo_certificate :: certificate where
  "demo_certificate = \<lparr>ct_id = ''c1'', ct_name = ''site'', ct_mode = Acme,
     ct_primary_domain = ''a.example'', ct_domains = [''a.example''], ct_key_type = ''ec-256'',
     ct_status = ''active'', ct_output_directory = ''a-example'', ct_issuer = [], ct_serial_number = [],
     ct_not_before = None, ct_not_after = None, ct_fingerprint_sha256 = [], ct_auto_renew_enabled = True,
     ct_renew_before_days = Fin 30, ct_self_signed_valid_days = None, ct_challenge_type = Some Dns01,
     ct_dns_credential_id = None, ct_ca_directory_url = None, ct_acme_email = None,
     ct_create_renewed_marker = True, ct_created_at = [], ct_updated_at = [], ct_last_renewed_at = None,
     ct_last_error = None\<rparr>"

definition force_events :: "detail_event list" where
  "force_events = [CertificateLoaded (QData demo_certificate), OpenForce, TypeForcePassword ''pw'',
     ConfirmForce, ForceSettled None]"

theorem detail_page_requests_witness:
  "detail_effect_ok ''c1'' (ReauthenticateThen ''pw'' (RenewCertificate ''c1'' True))
   \<and> de_forcePassword (fst (run_events detail_step force_events (detail_init ''c1''))) = []"
proof -
  obtain s fs where r: "run_events detail_step force_events (detail_init ''c1'') = (s, fs)" by fastforce
  have "ReauthenticateThen ''pw'' (RenewCertificate ''c1'' True)
      \<in> set (snd (run_events detail_step force_events (detail_init ''c1'')))"
    and "\<not> de_forceOpen (fst (run_events detail_step force_events (detail_init ''c1'')))"
    by (simp_all add: force_events_def detail_init_def loaded_def canRenew_def demo_certificate_def
        closeForceDialog_def)
  with detail_page_requests [OF r] r show ?thesis by (auto simp: detail_inv_def)
qed

text \<open>
  Deleting needs the typed name: a delete request the page starts carries exactly the name of the
  certificate it shows, and asks for the files' removal only when the file list is loaded and not
  empty.
\<close>

theorem delete_confirms_name:
  assumes "CallApi (DeleteCertificate i password confirmName deleteFiles) \<in> set (snd (detail_step e s))"
  shows "i = de_id s \<and> password \<noteq> []
    \<and> (\<exists>c. de_certificate s = QData c \<and> confirmName = ct_name c)
    \<and> (deleteFiles \<longrightarrow> (\<exists>files. de_availableFiles s = QData files \<and> files \<noteq> []))"
  using assms
  by (cases e)
    (auto simp: loaded_def hasPublishedFiles_def show_certificate_def split: if_splits query.splits)

theorem delete_confirms_name_witness:
  "\<exists>c. de_certificate (fst (run_events detail_step [CertificateLoaded (QData demo_certificate),
        OpenDelete, TypeDeleteName ''site'', TypeDeletePassword ''pw''] (detail_init ''c1''))) = QData c
     \<and> ''site'' = ct_name c"
proof -
  let ?s = "fst (run_events detail_step [CertificateLoaded (QData demo_certificate), OpenDelete,
     TypeDeleteName ''site'', TypeDeletePassword ''pw''] (detail_init ''c1''))"
  have "CallApi (DeleteCertificate ''c1'' ''pw'' ''site'' False) \<in> set (snd (detail_step ConfirmDelete ?s))"
    by (simp add: detail_init_def loaded_def demo_certificate_def)
  from delete_confirms_name [OF this] show ?thesis by blast
qed

text \<open>
  C21. A forced renewal is sent only after the password was accepted: in every run against any
  server, before a request to the certificate's force-renew path there is a reauthentication request
  with the typed password that was answered with success.
\<close>

theorem forced_renewal_reauthenticates:
  assumes "exchanges (snd (run srv (forceRenew_program pw i) c)) = exchanges c @ ys @ (rq, res) # zs"
    and "rq_url rq = certificate_url i @ ''/force-renew''"
  shows "\<exists>rq0 r. (rq0, Response r) \<in> set ys \<and> rq_url rq0 = ''/api/v1/auth/reauthenticate''
    \<and> rq_body rq0 = Some (JObj [(''password'', JStr pw)]) \<and> rs_ok r"
proof -
  obtain out c' where re: "run srv (reauthenticate pw) c = (out, c')" by fastforce
  obtain us where us: "exchanges c' = exchanges c @ us" "\<forall>x \<in> set us. sends (reauthenticate pw) (fst x)"
    using run_new_exchanges [of srv "reauthenticate pw" c] re by auto
  have other: "rq \<notin> fst ` set us"
    using us(2) assms(2) force_url_other sends_reauthenticate_url by fastforce
  show ?thesis
  proof (cases out)
    case (Inl e)
    then have "exchanges c' = exchanges c @ ys @ (rq, res) # zs"
      using assms(1) re by (simp add: forceRenew_program_def run_bind)
    with us(1) other show ?thesis by force
  next
    case (Inr v)
    obtain vs where "exchanges (snd (run srv (renewCertificate i True) c')) = exchanges c' @ vs"
      using run_exchanges_prefix by blast
    then have "exchanges c @ us @ vs = exchanges c @ ys @ (rq, res) # zs"
      using assms(1) re Inr us(1) by (simp add: forceRenew_program_def run_bind)
    then have "us @ vs = ys @ (rq, res) # zs" by simp
    then have sub: "set us \<subseteq> set ys"
      using other by (auto simp: append_eq_append_conv2 append_eq_Cons_conv Cons_eq_append_conv)
    obtain xs t r where "exchanges c' = exchanges c @ xs @ [(json_request POST
        ''/api/v1/auth/reauthenticate'' t (Some (JObj [(''password'', JStr pw)])), Response r)]" "rs_ok r"
      using re [unfolded Inr] by (rule run_reauthenticate_ok)
    with us(1) sub show ?thesis by (fastforce simp: json_request_def)
  qed
qed

definition accepting_server :: "unit \<Rightarrow> http_request \<Rightarrow> fetch_result \<times> unit" where
  "accepting_server w rq =
     (Response \<lparr>rs_status = 200, rs_json = Some (JObj [(''csrf_token'', JStr ''t1'')]), rs_text = None\<rparr>, w)"

definition fresh_client :: "unit client" where
  "fresh_client = \<lparr>csrfToken = JUndef, exchanges = [], browser_log = [], net = ()\<rparr>"

theorem forced_renewal_reauthenticates_witness:
  "\<exists>ys rq res. exchanges (snd (run accepting_server (forceRenew_program ''pw'' ''c1'') fresh_client))
       = ys @ [(rq, res)]
     \<and> (\<exists>rq0 r. (rq0, Response r) \<in> set ys \<and> rq_url rq0 = ''/api/v1/auth/reauthenticate''
          \<and> rq_body rq0 = Some (JObj [(''password'', JStr ''pw'')]) \<and> rs_ok r)"
proof -
  let ?ex = "exchanges (snd (run accepting_server (forceRenew_program ''pw'' ''c1'') fresh_client))"
  let ?rq = "json_request POST (certificate_url ''c1'' @ ''/force-renew'') (JStr ''t1'') (Some (JObj []))"
  obtain ys res where ys: "?ex = exchanges fresh_client @ ys @ (?rq, res) # []"
    by (auto simp: forceRenew_program_def api_defs void_def writeJson_def getCSRFToken_def request_def
        readJson_def get_prop_def rs_ok_def accepting_server_def fresh_client_def)
  have "rq_url ?rq = certificate_url ''c1'' @ ''/force-renew''" by (simp add: json_request_def)
  from forced_renewal_reauthenticates [OF ys this] ys show ?thesis
    by (intro exI [of _ ys] exI [of _ ?rq] exI [of _ res]) (simp add: fresh_client_def)
qed

text \<open>
  What the settings tab saves the server accepts: an update the tab sends names the certificate
  it was opened for and, when the number of days is an integer, passes the server's checks. The
  name must fit in 100 bytes and must not contain U+0085.
\<close>

theorem saved_settings_are_accepted:
  assumes "CallApi (UpdateCertificate i v) \<in> set (snd (settings_step e s))"
    and "cu_renew_before_days v = Fin (of_int days)"
    and "go_len (trim (cu_name v)) \<le> 100" and "CHR 0x85 \<notin> set (cu_name v)"
  shows "i = sf_id s \<and> go_Update_check (cu_name v) days = None"
proof -
  have i: "i = sf_id s" and v: "v = settings_value s" and name: "trim (sf_name s) \<noteq> []"
    and days: "\<not> number_lt (sf_days s) (Fin 1)" "\<not> number_lt (Fin 365) (sf_days s)"
    using assms(1) by (cases e; auto simp: show_certificate_def split: if_splits)+
  have "1 \<le> days" "days \<le> 365"
    using days assms(2) by (auto simp: v settings_value_def)
  moreover have "go_TrimSpace (cu_name v) = trim (cu_name v)"
    using assms(4) by (rule go_TrimSpace_eq_trim)
  ultimately show ?thesis
    using i name assms(3) by (simp add: go_Update_check_def Let_def v settings_value_def)
qed

theorem saved_settings_are_accepted_witness: "go_Update_check ''site'' 45 = None"
proof -
  let ?s = "fst (run_events settings_step [SetDays ''45''] (settings_init demo_certificate))"
  have days: "js_Number ''45'' = Fin 45" and name: "trim ''site'' = ''site''"
    and len: "go_len ''site'' \<le> 100"
    by code_simp+
  have "CallApi (UpdateCertificate ''c1'' (settings_value ?s)) \<in> set (snd (settings_step ClickSave ?s))"
    and v: "cu_name (settings_value ?s) = ''site''" "cu_renew_before_days (settings_value ?s) = Fin (of_int 45)"
    by (simp_all add: settings_init_def demo_certificate_def settings_value_def days name)
  from saved_settings_are_accepted [OF this(1) v(2)] show ?thesis
    unfolding v(1) using len by (simp add: name)
qed

end
