(* ===== verification/Dns_Providers.thy ===== *)
theory Dns_Providers
  imports Js_Text
begin

text \<open>
  \<open>internal/credential/providers.go\<close>: the DNS providers the server knows, the names it accepts for
  environment variables and provider codes, and the check of the values given for a provider. The
  display texts of providers and fields are left out: nothing is decided by them.

  Go maps from names to values are association lists with distinct names; a lookup of a missing name
  gives the empty text. A loop over such a map has no fixed order, so where it can fail in more than
  one way the error depends on the order, and the outcome here is an option of the first error in the
  order of the list.
\<close>

section \<open>The registry\<close>

record field =
  fd_Name :: string
  fd_Required :: bool
  fd_Secret :: bool

record provider =
  pr_Code :: string
  pr_ACMEDNSCode :: string
  pr_Fields :: "field list"
  pr_Custom :: bool

definition required_field :: "string \<Rightarrow> field" where
  "required_field n = \<lparr>fd_Name = n, fd_Required = True, fd_Secret = True\<rparr>"

definition optional_field :: "string \<Rightarrow> field" where
  "optional_field n = \<lparr>fd_Name = n, fd_Required = False, fd_Secret = True\<rparr>"

definition public_field :: "string \<Rightarrow> field" where
  "public_field n = \<lparr>fd_Name = n, fd_Required = True, fd_Secret = False\<rparr>"

definition registry :: "provider list" where
  "registry =
    [\<lparr>pr_Code = ''cloudflare'', pr_ACMEDNSCode = ''dns_cf'',
       pr_Fields = [required_field ''CF_Token'', optional_field ''CF_Zone_ID'', optional_field ''CF_Account_ID''],
       pr_Custom = False\<rparr>,
     \<lparr>pr_Code = ''alidns'', pr_ACMEDNSCode = ''dns_ali'',
       pr_Fields = [required_field ''Ali_Key'', required_field ''Ali_Secret''], pr_Custom = False\<rparr>,
     \<lparr>pr_Code = ''dnspod'', pr_ACMEDNSCode = ''dns_dp'',
       pr_Fields = [required_field ''DP_Id'', required_field ''DP_Key''], pr_Custom = False\<rparr>,
     \<lparr>pr_Code = ''route53'', pr_ACMEDNSCode = ''dns_aws'',
       pr_Fields = [required_field ''AWS_ACCESS_KEY_ID'', required_field ''AWS_SECRET_ACCESS_KEY'',
         optional_field ''AWS_SESSION_TOKEN''],
       pr_Custom = False\<rparr>,
     \<lparr>pr_Code = ''huaweicloud'', pr_ACMEDNSCode = ''dns_huaweicloud'',
       pr_Fields = [required_field ''HUAWEICLOUD_Username'', required_field ''HUAWEICLOUD_Password'',
         public_field ''HUAWEICLOUD_DomainName'', public_field ''HUAWEICLOUD_Region''],
       pr_Custom = False\<rparr>,
     \<lparr>pr_Code = ''custom'', pr_ACMEDNSCode = [], pr_Fields = [], pr_Custom = True\<rparr>]"

definition registry_Get :: "string \<Rightarrow> provider option" where
  "registry_Get providerCode = List.find (\<lambda>p. pr_Code p = providerCode) registry"

section \<open>Names\<close>

definition upper_char :: "char \<Rightarrow> char" where
  "upper_char c = (if is_lower_ascii c then char_of (code c - 32) else c)"

definition is_underscore :: "char \<Rightarrow> bool" where
  "is_underscore c \<longleftrightarrow> c = CHR ''_''"

definition environmentNamePattern :: "string \<Rightarrow> bool" where
  "environmentNamePattern s \<longleftrightarrow> (case s of [] \<Rightarrow> False
     | c # cs \<Rightarrow> is_upper_ascii c
         \<and> list_all (\<lambda>d. is_upper_ascii d \<or> is_digit d \<or> is_underscore d) cs)"

definition processEnvironmentNamePattern :: "string \<Rightarrow> bool" where
  "processEnvironmentNamePattern s \<longleftrightarrow> (case s of [] \<Rightarrow> False
     | c # cs \<Rightarrow> (is_upper_ascii c \<or> is_lower_ascii c \<or> is_underscore c)
         \<and> list_all (\<lambda>d. is_upper_ascii d \<or> is_lower_ascii d \<or> is_digit d \<or> is_underscore d) cs)"

definition providerCodePattern :: "string \<Rightarrow> bool" where
  "providerCodePattern s \<longleftrightarrow> startsWith s ''dns_'' \<and> drop 4 s \<noteq> []
     \<and> list_all (\<lambda>d. is_lower_ascii d \<or> is_digit d \<or> is_underscore d) (drop 4 s)"

definition forbiddenEnvironmentNames :: "string list" where
  "forbiddenEnvironmentNames =
    [''PATH'', ''HOME'', ''SHELL'', ''LD_PRELOAD'', ''LD_LIBRARY_PATH'', ''GODEBUG'',
     ''HTTP_PROXY'', ''HTTPS_PROXY'', ''NO_PROXY'', ''APP_ENCRYPTION_KEY'', ''ADMIN_PASSWORD'', ''SESSION_SECRET'']"

datatype credential_error =
    NameFormat | NameForbidden | CodeFormat | EmptyValue | FieldMissing | FieldUndeclared
  | CredentialNameLength | ProviderUnsupported | CipherUnavailable | CipherFailed | RefsEmpty
  | RefUndeclared | RefMissing | SourceModeInvalid | RefUnset | CredentialNotFound | CredentialStore
  | NilCipherPanic

definition ValidateEnvironmentName :: "string \<Rightarrow> credential_error option" where
  "ValidateEnvironmentName n =
     (if \<not> environmentNamePattern n then Some NameFormat
      else if map upper_char n \<in> set forbiddenEnvironmentNames then Some NameForbidden
      else None)"

definition ValidateProcessEnvironmentName :: "string \<Rightarrow> credential_error option" where
  "ValidateProcessEnvironmentName n =
     (if \<not> processEnvironmentNamePattern n then Some NameFormat
      else if map upper_char n \<in> set forbiddenEnvironmentNames then Some NameForbidden
      else None)"

definition ValidateCustomProviderCode :: "string \<Rightarrow> credential_error option" where
  "ValidateCustomProviderCode c = (if \<not> providerCodePattern c then Some CodeFormat else None)"

section \<open>Values\<close>

type_synonym variables = "(string \<times> string) list"

definition get_value :: "variables \<Rightarrow> string \<Rightarrow> string" where
  "get_value vs n = (case map_of vs n of None \<Rightarrow> [] | Some v \<Rightarrow> v)"

fun first_error :: "('a \<Rightarrow> 'e option) \<Rightarrow> 'a list \<Rightarrow> 'e option" where
  "first_error check [] = None"
| "first_error check (x # xs) = (case check x of Some e \<Rightarrow> Some e | None \<Rightarrow> first_error check xs)"

definition ValidateValues :: "provider \<Rightarrow> variables \<Rightarrow> credential_error option" where
  "ValidateValues p vs =
     (if pr_Custom p then
        first_error (\<lambda>(n, v). case ValidateEnvironmentName n of
            Some e \<Rightarrow> Some e
          | None \<Rightarrow> if v = [] then Some EmptyValue else None) vs
      else
        (case first_error (\<lambda>f. if fd_Required f \<and> go_TrimSpace (get_value vs (fd_Name f)) = []
             then Some FieldMissing else None) (pr_Fields p) of
           Some e \<Rightarrow> Some e
         | None \<Rightarrow> first_error (\<lambda>(n, v). if n \<notin> fd_Name ` set (pr_Fields p)
             then Some FieldUndeclared else None) vs))"

section \<open>Facts about names\<close>

lemma first_error_None: "first_error check xs = None \<longleftrightarrow> (\<forall>x \<in> set xs. check x = None)"
  by (induction xs) (auto split: option.splits)

lemma ValidateEnvironmentName_process:
  "ValidateEnvironmentName n = None \<Longrightarrow> ValidateProcessEnvironmentName n = None"
  by (auto simp: ValidateEnvironmentName_def ValidateProcessEnvironmentName_def
      environmentNamePattern_def processEnvironmentNamePattern_def list_all_iff
      split: if_splits list.splits)

lemma registry_Get_member: "registry_Get c = Some p \<Longrightarrow> p \<in> set registry \<and> pr_Code p = c"
  by (auto simp: registry_Get_def dest: find_SomeD)

lemma registry_names:
  "\<forall>p \<in> set registry. \<forall>f \<in> set (pr_Fields p). ValidateProcessEnvironmentName (fd_Name f) = None"
  by code_simp

lemma registry_codes:
  "\<forall>p \<in> set registry. pr_Custom p \<or> ValidateCustomProviderCode (pr_ACMEDNSCode p) = None"
  by code_simp

lemma registry_required:
  "\<forall>p \<in> set registry. pr_Custom p \<or> (\<exists>f \<in> set (pr_Fields p). fd_Required f)"
  by code_simp

end
