(* ===== verification/Timestamps.thy ===== *)
theory Timestamps
  imports Js_Text
begin

text \<open>
  The time columns of \<open>internal/store/sqlite/store.go\<close>: texts in the layout \<open>time.RFC3339Nano\<close>, which
  the database compares byte by byte. Times are nanoseconds since 1970-01-01T00:00:00Z, not before it.
\<close>

section \<open>The calendar\<close>

definition leap_year :: "int \<Rightarrow> bool" where
  "leap_year y \<longleftrightarrow> y mod 4 = 0 \<and> (y mod 100 \<noteq> 0 \<or> y mod 400 = 0)"

definition year_length :: "int \<Rightarrow> int" where
  "year_length y = (if leap_year y then 366 else 365)"

definition month_length :: "int \<Rightarrow> int \<Rightarrow> int" where
  "month_length y m = (if m = 2 then (if leap_year y then 29 else 28) else if m \<in> {4, 6, 9, 11} then 30 else 31)"

text \<open>Units of varying length counted off a number of days: the unit that contains the day, and the day in it.\<close>

function count_off :: "(int \<Rightarrow> int) \<Rightarrow> int \<Rightarrow> int \<Rightarrow> int \<times> int" where
  "count_off len k d = (if len k \<le> 0 \<or> d < len k then (k, d) else count_off len (k + 1) (d - len k))"
  by auto
termination by (relation "measure (\<lambda>(len, k, d). nat d)") auto

declare count_off.simps [simp del]

definition nanos :: int where
  "nanos = 1000000000"

definition utc_year :: "int \<Rightarrow> int" where
  "utc_year t = fst (count_off year_length 1970 (t div nanos div 86400))"

text \<open>Year, month, day, hour, minute, second.\<close>

definition utc_fields :: "int \<Rightarrow> int \<times> int \<times> int \<times> int \<times> int \<times> int" where
  "utc_fields t = (let s = t div nanos; (y, d) = count_off year_length 1970 (s div 86400);
       (m, e) = count_off (month_length y) 1 d
     in (y, m, e + 1, s mod 86400 div 3600, s mod 3600 div 60, s mod 60))"

section \<open>The layout\<close>

fun digits :: "nat \<Rightarrow> int \<Rightarrow> string" where
  "digits 0 k = []"
| "digits (Suc n) k = digits n (k div 10) @ [char_of (48 + nat (k mod 10))]"

definition second_text :: "int \<Rightarrow> string" where
  "second_text t = (case utc_fields t of (y, mo, d, h, mi, s) \<Rightarrow>
     digits 4 y @ ''-'' @ digits 2 mo @ ''-'' @ digits 2 d @ ''T'' @ digits 2 h @ '':'' @ digits 2 mi @ '':'' @ digits 2 s)"

text \<open>The fraction: nine digits without the zeros at the end, nothing for a whole second.\<close>

definition fraction_text :: "int \<Rightarrow> string" where
  "fraction_text n = (if n = 0 then [] else ''.'' @ rev (dropWhile (\<lambda>c. c = CHR ''0'') (rev (digits 9 n))))"

definition timestamp_text :: "int \<Rightarrow> string" where
  "timestamp_text t = second_text t @ fraction_text (t mod nanos) @ ''Z''"

text \<open>
  The order of the database on such texts, as the order of numbers: the first \<open>n\<close> bytes read as the
  digits of a number. No timestamp is longer than 30 bytes.
\<close>

fun text_rank :: "nat \<Rightarrow> string \<Rightarrow> int" where
  "text_rank 0 s = 0"
| "text_rank (Suc n) [] = 0"
| "text_rank (Suc n) (c # s) = int (code c) * 256 ^ n + text_rank n s"

definition column_rank :: "int \<Rightarrow> int" where
  "column_rank t = text_rank 30 (timestamp_text t)"

section \<open>Counting off\<close>

lemma count_off_ge: "k \<le> fst (count_off len k d)"
proof (induction len k d rule: count_off.induct)
  case (1 len k d)
  then show ?case by (subst count_off.simps) fastforce
qed

lemma count_off_rest: "\<forall>k. 0 < len k \<Longrightarrow> 0 \<le> d \<Longrightarrow> count_off len k d = (k', r) \<Longrightarrow> 0 \<le> r \<and> r < len k'"
proof (induction len k d rule: count_off.induct)
  case (1 len k d)
  show ?case
  proof (cases "d < len k")
    case True
    then show ?thesis using 1 by (auto simp: count_off.simps [of len k d])
  next
    case False
    then have go: "\<not> (len k \<le> 0 \<or> d < len k)" using 1(2) by (simp add: not_le)
    then have "count_off len (k + 1) (d - len k) = (k', r)" using 1(4) by (simp add: count_off.simps [of len k d])
    with 1(1) [OF go 1(2)] False show ?thesis by simp
  qed
qed

lemma count_off_stop: "d < len k \<Longrightarrow> count_off len k d = (k, d)"
  by (simp add: count_off.simps)

lemma count_off_mono:
  assumes "\<forall>k. 0 < len k" "0 \<le> d" "d < d'" "count_off len k d = (x, r)" "count_off len k d' = (x', r')"
  shows "x < x' \<or> x = x' \<and> r < r'"
  using assms
proof (induction len k d arbitrary: d' rule: count_off.induct)
  case (1 len k d)
  consider "d' < len k" | "d < len k" "len k \<le> d'" | "len k \<le> d" by linarith
  then show ?case
  proof cases
    case 1
    then have "count_off len k d = (k, d)" "count_off len k d' = (k, d')"
      using "1.prems"(3) by (simp_all add: count_off_stop)
    with "1.prems" show ?thesis by simp
  next
    case 2
    have "0 < len k" using "1.prems"(1) by blast
    with 2 have "count_off len k d = (k, d)" "count_off len k d' = count_off len (k + 1) (d' - len k)"
      by (simp_all add: count_off_stop) (simp add: count_off.simps [of len k d'])
    then have "x = k" "count_off len (k + 1) (d' - len k) = (x', r')" using "1.prems"(4,5) by simp_all
    with count_off_ge [of "k + 1" len "d' - len k"] show ?thesis by simp
  next
    case 3
    have "0 < len k" using "1.prems"(1) by blast
    with 3 have "\<not> (len k \<le> 0 \<or> d < len k)" "\<not> d' < len k" using "1.prems"(3) by auto
    with "1.IH" [OF this(1), of "d' - len k"] "1.prems" 3 \<open>0 < len k\<close> show ?thesis
      by (simp add: count_off.simps [of len k d] count_off.simps [of len k d'])
  qed
qed

lemma count_off_less:
  "0 \<le> d \<Longrightarrow> d < (\<Sum>j < n. len (k + int j)) \<Longrightarrow> \<forall>k. 0 < len k \<Longrightarrow> fst (count_off len k d) < k + int n"
proof (induction n arbitrary: k d)
  case (Suc n)
  show ?case
  proof (cases "d < len k")
    case True
    then show ?thesis by (simp add: count_off.simps)
  next
    case False
    have "(\<Sum>j < Suc n. len (k + int j)) = len k + (\<Sum>j < n. len (k + 1 + int j))"
      by (subst sum.lessThan_Suc_shift) (simp add: algebra_simps)
    then have "fst (count_off len (k + 1) (d - len k)) < k + 1 + int n"
      using Suc False by (intro Suc.IH) auto
    with False Suc.prems(3) show ?thesis by (subst count_off.simps) (simp add: not_le)
  qed
qed simp

section \<open>The order of the texts\<close>

lemma text_rank_bounds: "0 \<le> text_rank n s \<and> text_rank n s < 256 ^ n"
proof (induction n s rule: text_rank.induct)
  case (3 n c s)
  have "code c \<le> 255" using code_bound [of c] by linarith
  then have "int (code c) * 256 ^ n \<le> 255 * 256 ^ n" by simp
  moreover have "0 \<le> int (code c) * 256 ^ n" by simp
  ultimately show ?case using 3 unfolding text_rank.simps power_Suc by linarith
qed auto

fun lex_less :: "string \<Rightarrow> string \<Rightarrow> bool" where
  "lex_less (c # s) (d # t) \<longleftrightarrow> code c < code d \<or> c = d \<and> lex_less s t"
| "lex_less s t \<longleftrightarrow> False"

lemma text_rank_less:
  "lex_less u v \<Longrightarrow> length u \<le> n \<Longrightarrow> text_rank n (u @ s) < text_rank n (v @ t)"
proof (induction u v arbitrary: n rule: lex_less.induct)
  case (1 c u d v)
  then obtain m where n: "n = Suc m" by (cases n) auto
  show ?case
  proof (cases "c = d")
    case True
    with 1 n show ?thesis by auto
  next
    case False
    with 1 have "int (code c) + 1 \<le> int (code d)" by simp
    from mult_right_mono [OF this, of "256 ^ m"] show ?thesis
      using n text_rank_bounds [of m "u @ s"] text_rank_bounds [of m "v @ t"] by (simp add: algebra_simps)
  qed
qed auto

lemma lex_less_append:
  "length u = length v \<Longrightarrow> lex_less (u @ s) (v @ t) \<longleftrightarrow> lex_less u v \<or> u = v \<and> lex_less s t"
  by (induction u v rule: list_induct2) auto

lemma length_digits [simp]: "length (digits n k) = n"
  by (induction n arbitrary: k) auto

lemma digit_code: "code (char_of (48 + nat (k mod 10))) = 48 + nat (k mod 10)"
proof -
  have "nat (k mod 10) < 10" by (simp add: nat_less_iff)
  then show ?thesis by (simp add: code_def)
qed

lemma div_mod_less: "x < y \<Longrightarrow> 0 < n \<Longrightarrow> x div n < y div n \<or> x div n = y div n \<and> x mod n < (y :: int) mod n"
  by (metis div_mult_mod_eq linorder_neqE not_less zdiv_mono1 less_le add_less_cancel_left)

lemma lex_less_digits: "0 \<le> a \<Longrightarrow> a < b \<Longrightarrow> b < 10 ^ n \<Longrightarrow> lex_less (digits n a) (digits n b)"
proof (induction n arbitrary: a b)
  case (Suc n)
  have b: "b div 10 < 10 ^ n" using Suc.prems by simp
  consider "a div 10 < b div 10" | "a div 10 = b div 10" "a mod 10 < b mod 10"
  proof -
    show thesis using div_mod_less [OF Suc.prems(2), of 10] that by auto
  qed
  then show ?case
  proof cases
    case 1
    then show ?thesis using Suc b by (simp add: lex_less_append)
  next
    case 2
    then have "nat (a mod 10) < nat (b mod 10)" by simp
    with 2 show ?thesis by (simp add: lex_less_append digit_code)
  qed
qed simp

lemma year_length_pos: "\<forall>y. 0 < year_length y" and month_length_pos: "\<forall>m. 0 < month_length y m"
  by (simp_all add: year_length_def month_length_def)

lemma months_of_year: "(\<Sum>j < 12. month_length y (1 + int j)) = year_length y"
  by (simp add: month_length_def year_length_def lessThan_nat_numeral)

lemma lex_less_fields:
  assumes "y < y' \<or> y = y' \<and> (mo < mo' \<or> mo = mo' \<and> (d < d' \<or> d = d' \<and> (h < h' \<or> h = h' \<and> (mi < mi' \<or> mi = mi' \<and> s < s'))))"
    and "0 \<le> y" "0 \<le> mo" "0 \<le> d" "0 \<le> h" "0 \<le> mi" "0 \<le> s"
    and "y' < 10 ^ 4" "mo' < 10 ^ 2" "d' < 10 ^ 2" "h' < 10 ^ 2" "mi' < 10 ^ 2" "s' < 10 ^ 2"
  shows "lex_less (digits 4 y @ ''-'' @ digits 2 mo @ ''-'' @ digits 2 d @ ''T'' @ digits 2 h @ '':'' @ digits 2 mi @ '':'' @ digits 2 s)
    (digits 4 y' @ ''-'' @ digits 2 mo' @ ''-'' @ digits 2 d' @ ''T'' @ digits 2 h' @ '':'' @ digits 2 mi' @ '':'' @ digits 2 s')"
  using assms by (auto simp: lex_less_append lex_less_digits)

lemma utc_fields_bounds:
  assumes "0 \<le> t" "utc_fields t = (y, mo, d, h, mi, s)"
  shows "1970 \<le> y" "y = utc_year t" "1 \<le> mo" "mo \<le> 12" "1 \<le> d" "d \<le> 31"
    "0 \<le> h" "h < 24" "0 \<le> mi" "mi < 60" "0 \<le> s" "s < 60"
proof -
  let ?day = "t div nanos div 86400"
  obtain d0 where y: "count_off year_length 1970 ?day = (y, d0)"
    and m: "count_off (month_length y) 1 d0 = (mo, d - 1)"
    and rest: "h = t div nanos mod 86400 div 3600" "mi = t div nanos mod 3600 div 60" "s = t div nanos mod 60"
    using assms(2) by (auto simp: utc_fields_def Let_def split: prod.splits)
  have day: "0 \<le> ?day" using assms(1) by (simp add: nanos_def)
  from count_off_rest [OF year_length_pos day y] have d0: "0 \<le> d0" "d0 < year_length y" by auto
  show "1970 \<le> y" using count_off_ge [of 1970 year_length ?day] y by simp
  show "y = utc_year t" using y by (simp add: utc_year_def)
  show "1 \<le> mo" using count_off_ge [of 1 "month_length y" d0] m by simp
  show "mo \<le> 12" using count_off_less [where d = d0 and n = 12 and len = "month_length y" and k = 1] d0 months_of_year [of y] month_length_pos m by simp
  from count_off_rest [OF month_length_pos d0(1) m] show "1 \<le> d" "d \<le> 31"
    by (auto simp: month_length_def split: if_splits)
  have small: "y div 3600 < 24" if "y < 86400" for y :: int using that by presburger
  have smaller: "y div 60 < 60" if "y < 3600" for y :: int using that by presburger
  show "0 \<le> h" "h < 24" "0 \<le> mi" "mi < 60" "0 \<le> s" "s < 60"
    unfolding rest by (simp_all add: small smaller pos_imp_zdiv_nonneg_iff)
qed

lemma clock_mono:
  fixes a b :: int
  assumes "a < b"
  shows "a div 86400 < b div 86400 \<or> a div 86400 = b div 86400 \<and>
    (a mod 86400 div 3600 < b mod 86400 div 3600 \<or> a mod 86400 div 3600 = b mod 86400 div 3600 \<and>
      (a mod 3600 div 60 < b mod 3600 div 60 \<or> a mod 3600 div 60 = b mod 3600 div 60 \<and> a mod 60 < b mod 60))"
proof -
  have "x mod 86400 mod 3600 = x mod 3600" "x mod 3600 mod 60 = x mod 60" for x :: int
    by (simp_all add: mod_mod_cancel)
  then show ?thesis
    using div_mod_less [OF assms, of 86400] div_mod_less [of "a mod 86400" "b mod 86400" 3600]
      div_mod_less [of "a mod 3600" "b mod 3600" 60]
    by auto
qed

lemma utc_fields_mono:
  assumes "0 \<le> a" "a div nanos < b div nanos"
    and "utc_fields a = (y, mo, d, h, mi, s)" "utc_fields b = (y', mo', d', h', mi', s')"
  shows "y < y' \<or> y = y' \<and> (mo < mo' \<or> mo = mo' \<and> (d < d' \<or> d = d' \<and> (h < h' \<or> h = h' \<and> (mi < mi' \<or> mi = mi' \<and> s < s'))))"
proof -
  let ?a = "a div nanos" and ?b = "b div nanos"
  obtain d0 where y: "count_off year_length 1970 (?a div 86400) = (y, d0)"
    and m: "count_off (month_length y) 1 d0 = (mo, d - 1)"
    and r: "h = ?a mod 86400 div 3600" "mi = ?a mod 3600 div 60" "s = ?a mod 60"
    using assms(3) by (auto simp: utc_fields_def Let_def split: prod.splits)
  obtain d0' where y': "count_off year_length 1970 (?b div 86400) = (y', d0')"
    and m': "count_off (month_length y') 1 d0' = (mo', d' - 1)"
    and r': "h' = ?b mod 86400 div 3600" "mi' = ?b mod 3600 div 60" "s' = ?b mod 60"
    using assms(4) by (auto simp: utc_fields_def Let_def split: prod.splits)
  have day: "0 \<le> ?a div 86400" using assms(1) by (simp add: nanos_def)
  from count_off_rest [OF year_length_pos day y] have d0: "0 \<le> d0" by simp
  have "?a div 86400 < ?b div 86400 \<or> ?a div 86400 = ?b div 86400
      \<and> (h < h' \<or> h = h' \<and> (mi < mi' \<or> mi = mi' \<and> s < s'))"
    unfolding r r' by (rule clock_mono [OF assms(2)])
  then show ?thesis
  proof
    assume less: "?a div 86400 < ?b div 86400"
    from count_off_mono [OF year_length_pos day less y y'] show ?thesis
      using count_off_mono [OF month_length_pos d0 _ m] m' by fastforce
  next
    assume "?a div 86400 = ?b div 86400 \<and> (h < h' \<or> h = h' \<and> (mi < mi' \<or> mi = mi' \<and> s < s'))"
    then show ?thesis using y y' m m' by auto
  qed
qed

lemma second_text_less:
  assumes "0 \<le> a" "a div nanos < b div nanos" "utc_year b \<le> 9999"
  shows "lex_less (second_text a) (second_text b)"
proof -
  obtain y mo d h mi s where a: "utc_fields a = (y, mo, d, h, mi, s)" by (cases "utc_fields a") auto
  obtain y' mo' d' h' mi' s' where b: "utc_fields b = (y', mo', d', h', mi', s')" by (cases "utc_fields b") auto
  have "0 \<le> b" using assms(1,2) by (simp add: nanos_def)
  note bounds = utc_fields_bounds [OF assms(1) a] utc_fields_bounds [OF this b]
  show ?thesis
    unfolding second_text_def a b prod.case
    by (rule lex_less_fields [OF utc_fields_mono [OF assms(1,2) a b]]) (use bounds assms(3) in simp_all)
qed

lemma length_second_text: "length (second_text t) = 19"
  by (simp add: second_text_def split: prod.splits)

text \<open>Times in different seconds are ordered by their texts.\<close>

lemma column_rank_less:
  assumes "0 \<le> a" "a div nanos < b div nanos" "utc_year b \<le> 9999"
  shows "column_rank a < column_rank b"
  unfolding column_rank_def timestamp_text_def
  by (rule text_rank_less [OF second_text_less [OF assms]]) (simp add: length_second_text)

end
