(* ===== verification/Service_World.thy ===== *)
theory Service_World
  imports Go_Create Timestamps
begin

text \<open>
  What the certificate service of the server works on: the tables of the store
  (\<open>internal/store/sqlite/store.go\<close> and \<open>migrations\<close>), the published certificate directories
  (\<open>internal/certificate/files/publisher.go\<close>), the per-certificate locks, and the engines. The
  service is a program over the actions of these parts; each action is atomic, so programs can be
  run alone or interleaved. An \<open>environment\<close> decides, call by call, whether a database or file
  operation fails, what the engines and the credential service answer, which identifiers are drawn
  and what the clock shows; every statement holds for all environments.
\<close>

section \<open>Records\<close>

record cert_row = new_certificate +
  cr_ID :: string
  cr_Issuer :: string
  cr_SerialNumber :: string
  cr_NotBefore :: "int option"
  cr_NotAfter :: "int option"
  cr_FingerprintSHA256 :: string
  cr_CreatedAt :: int
  cr_UpdatedAt :: int
  cr_LastIssuedAt :: "int option"
  cr_LastRenewedAt :: "int option"
  cr_NextCheckAt :: "int option"
  cr_LastError :: string

record stored_job =
  jb_ID :: string
  jb_CertificateID :: string
  jb_JobType :: string
  jb_Status :: string
  jb_StartedAt :: int
  jb_FinishedAt :: "int option"
  jb_ExitCode :: "int option"
  jb_SanitizedOutput :: string
  jb_ErrorMessage :: string
  jb_Attempt :: int

datatype detail = DText string | DBool bool | DInt int

record stored_event =
  au_CertificateID :: string
  au_EventType :: string
  au_Actor :: string
  au_ClientIP :: string
  au_Result :: string
  au_Detail :: "(string \<times> detail) list"
  au_CreatedAt :: int

text \<open>What an engine delivers, and the files of a published directory.\<close>

record issued_certificate =
  is_CertificatePEM :: string
  is_ChainPEM :: string
  is_FullchainPEM :: string
  is_PrivateKeyPEM :: string
  is_Issuer :: string
  is_SerialNumber :: string
  is_NotBefore :: int
  is_NotAfter :: int
  is_FingerprintSHA256 :: string
  is_KeyAlgorithm :: string
  is_ExitCode :: int
  is_OutputSummary :: string

record metadata_document =
  md_certificate_id :: string
  md_name :: string
  md_mode :: string
  md_primary_domain :: string
  md_domains :: "string list"
  md_issuer :: string
  md_serial_number :: string
  md_not_before :: int
  md_not_after :: int
  md_fingerprint_sha256 :: string
  md_key_algorithm :: string
  md_updated_at :: int

record payload =
  pl_CertPEM :: string
  pl_ChainPEM :: string
  pl_FullchainPEM :: string
  pl_PrivateKeyPEM :: string
  pl_Metadata :: metadata_document
  pl_CreateMarker :: bool

text \<open>The content of a published file: PEM text, or the metadata document.\<close>

datatype file_content = Pem string | Metadata metadata_document

record process_values =
  pv_ACMEDNSCode :: string
  pv_Environment :: "(string \<times> string) list"

section \<open>Errors\<close>

datatype engine_error =
    SelfSignedCommand int | AcmeCommand int bool | EngineCanceled | EngineOther

text \<open>The flag of \<^const>\<open>AcmeCommand\<close> says that the failure is \<open>FailureDNSZoneUnavailable\<close>.\<close>

datatype service_error =
    ErrNotFound | ErrOperationRunning | ErrRevokeNotAllowed | ErrDeleteFilesBackup
  | ErrStore | ErrIssueNotAllowed | ErrRenewNotAllowed | ErrAcmeDisabled | ErrSelfSignedDisabled
  | ErrCredentialsUnavailable | ErrCredential | ErrNoResult | ErrUnknownMode | ErrChallenge
  | ErrMarshal | ErrPublish | ErrCleanup | ErrFile | ErrJobRecord | ErrPanic | ErrContext
  | ErrEngine engine_error | ErrDNSZoneUnavailable string engine_error
  | ErrCreate create_error | ErrRedundant redundantDomainError | ErrUpdate update_error

section \<open>Actions\<close>

record selfsigned_request =
  sr_PrimaryDomain :: string
  sr_Domains :: "string list"
  sr_KeyType :: string
  sr_ValidDays :: int

record acme_issue_request =
  ai_CertificateID :: string
  ai_PrimaryDomain :: string
  ai_Domains :: "string list"
  ai_KeyType :: string
  ai_ChallengeType :: string
  ai_DNSProvider :: string
  ai_DNSVariables :: "(string \<times> string) list"
  ai_CADirectory :: string
  ai_Email :: string

record acme_renew_request =
  ar_CertificateID :: string
  ar_PrimaryDomain :: string
  ar_KeyType :: string
  ar_Force :: bool
  ar_DNSProvider :: string
  ar_DNSVariables :: "(string \<times> string) list"
  ar_CADirectory :: string

datatype engine_call =
    SelfSignedIssue selfsigned_request | SelfSignedRenew selfsigned_request
  | AcmeIssue acme_issue_request | AcmeRenew acme_renew_request
  | AcmeRevoke string string

text \<open>
  The calls the service makes. \<open>CallEngine\<close> names the certificate it is made for beside the request
  itself, so that statements can speak about it.
\<close>

datatype action =
    GetRow string | ListRows | CreateRow new_certificate
  | CreateJob string string | FinishJob string string int string string
  | MarkFailed string string | MarkIssued cert_row | MarkRenewed cert_row
  | SetStatus string status | UpdateSettings string string bool int bool
  | DeleteRow string stored_event | AddAudit stored_event
  | LoadOrStoreLock string | TryLock nat | Unlock nat | DeleteLock string
  | ResolveCredential string | CallEngine string engine_call
  | ReadClock | MarshalMetadata metadata_document
  | Publish string payload | Backup string | RemoveFiles string
  | ReadFile string string | ListFiles string
  | WaitSeconds int

record reply =
  re_err :: "service_error option"
  re_row :: "service_error + cert_row"
  re_rows :: "cert_row list"
  re_id :: string
  re_mutex :: nat
  re_locked :: bool
  re_values :: "service_error + process_values"
  re_result :: "service_error + issued_certificate option"
  re_time :: int
  re_existed :: bool
  re_backup :: bool
  re_content :: "service_error + file_content"
  re_names :: "service_error + string list"

definition ok_reply :: reply where
  "ok_reply = \<lparr>re_err = None, re_row = Inl ErrNotFound, re_rows = [], re_id = [], re_mutex = 0,
     re_locked = False, re_values = Inl ErrCredential, re_result = Inr None, re_time = 0,
     re_existed = False, re_backup = False, re_content = Inl ErrFile, re_names = Inl ErrFile\<rparr>"

section \<open>State\<close>

record world =
  wd_certs :: "cert_row list"
  wd_jobs :: "stored_job list"
  wd_audit :: "stored_event list"
  wd_files :: "string \<rightharpoonup> payload"
  wd_locks :: "string \<rightharpoonup> nat"
  wd_held :: "nat list"
  wd_mutexes :: nat
  wd_tick :: nat

definition empty_world :: world where
  "empty_world = \<lparr>wd_certs = [], wd_jobs = [], wd_audit = [], wd_files = Map.empty,
     wd_locks = Map.empty, wd_held = [], wd_mutexes = 0, wd_tick = 0\<rparr>"

text \<open>
  A failing file operation usually leaves the published directory as it was; \<open>FaultLosing\<close> is the
  publication that moved the old directory away, could not move the new one in and could not move
  the old one back.
\<close>

datatype fault = NoFault | Fault | FaultLosing

record environment =
  en_fault :: "nat \<Rightarrow> fault"
  en_newID :: "nat \<Rightarrow> string"
  en_now :: "nat \<Rightarrow> int"
  en_resolve :: "nat \<Rightarrow> string \<Rightarrow> process_values option"
  en_engine :: "nat \<Rightarrow> engine_call \<Rightarrow> engine_error + issued_certificate option"

section \<open>The store\<close>

definition find_row :: "string \<Rightarrow> cert_row list \<Rightarrow> cert_row option" where
  "find_row i rows = List.find (\<lambda>r. cr_ID r = i) rows"

definition update_rows :: "string \<Rightarrow> (cert_row \<Rightarrow> cert_row) \<Rightarrow> cert_row list \<Rightarrow> cert_row list" where
  "update_rows i f rows = map (\<lambda>r. if cr_ID r = i then f r else r) rows"

definition row_exists :: "world \<Rightarrow> string \<Rightarrow> bool" where
  "row_exists w i \<longleftrightarrow> list_ex (\<lambda>r. cr_ID r = i) (wd_certs w)"

definition new_row :: "string \<Rightarrow> int \<Rightarrow> new_certificate \<Rightarrow> cert_row" where
  "new_row i now c = \<lparr>nc_Name = nc_Name c, nc_Mode = nc_Mode c, nc_PrimaryDomain = nc_PrimaryDomain c,
     nc_Domains = nc_Domains c, nc_KeyType = nc_KeyType c, nc_Status = nc_Status c,
     nc_OutputDirectory = nc_OutputDirectory c, nc_AutoRenewEnabled = nc_AutoRenewEnabled c,
     nc_RenewBeforeDays = nc_RenewBeforeDays c, nc_SelfSignedValidDays = nc_SelfSignedValidDays c,
     nc_ChallengeType = nc_ChallengeType c, nc_DNSProvider = nc_DNSProvider c,
     nc_DNSCredentialID = nc_DNSCredentialID c, nc_CADirectoryURL = nc_CADirectoryURL c,
     nc_ACMEEmail = nc_ACMEEmail c, nc_CreateRenewedMarker = nc_CreateRenewedMarker c,
     cr_ID = i, cr_Issuer = [], cr_SerialNumber = [], cr_NotBefore = None, cr_NotAfter = None,
     cr_FingerprintSHA256 = [], cr_CreatedAt = now, cr_UpdatedAt = now, cr_LastIssuedAt = None,
     cr_LastRenewedAt = None, cr_NextCheckAt = None, cr_LastError = []\<rparr>"

text \<open>
  The order of \<open>Certificates\<close>: by expiry, certificates without one last, newer ones first; the columns
  are compared as texts.
\<close>

definition listed_rows :: "cert_row list \<Rightarrow> cert_row list" where
  "listed_rows rows =
     sort_key (\<lambda>r. if cr_NotAfter r = None then 1 else 0 :: int)
       (sort_key (\<lambda>r. case cr_NotAfter r of Some t \<Rightarrow> column_rank t | None \<Rightarrow> 0)
         (sort_key (\<lambda>r. - column_rank (cr_CreatedAt r)) rows))"

definition store_CreateCertificate ::
  "string \<Rightarrow> int \<Rightarrow> new_certificate \<Rightarrow> world \<Rightarrow> (service_error + cert_row) \<times> world" where
  "store_CreateCertificate i now c w =
     (if row_exists w i \<or> list_ex (\<lambda>r. nc_OutputDirectory r = nc_OutputDirectory c) (wd_certs w)
         \<or> nc_RenewBeforeDays c < 1 \<or> nc_RenewBeforeDays c > 365
      then (Inl ErrStore, w)
      else (Inr (new_row i now c), w\<lparr>wd_certs := wd_certs w @ [new_row i now c]\<rparr>))"

definition store_CreateJob ::
  "string \<Rightarrow> int \<Rightarrow> string \<Rightarrow> string \<Rightarrow> world \<Rightarrow> service_error option \<times> world" where
  "store_CreateJob jid now cid jobType w =
     (if list_ex (\<lambda>j. jb_ID j = jid) (wd_jobs w) \<or> \<not> row_exists w cid then (Some ErrStore, w)
      else (None, w\<lparr>wd_jobs := wd_jobs w @ [\<lparr>jb_ID = jid, jb_CertificateID = cid, jb_JobType = jobType,
        jb_Status = ''running'', jb_StartedAt = now, jb_FinishedAt = None, jb_ExitCode = None,
        jb_SanitizedOutput = [], jb_ErrorMessage = [], jb_Attempt = 1\<rparr>]\<rparr>))"

definition store_FinishJob ::
  "string \<Rightarrow> string \<Rightarrow> int \<Rightarrow> string \<Rightarrow> string \<Rightarrow> int \<Rightarrow> world \<Rightarrow> world" where
  "store_FinishJob jid st ex out msg now w = w\<lparr>wd_jobs :=
     map (\<lambda>j. if jb_ID j = jid
       then j\<lparr>jb_Status := st, jb_FinishedAt := Some now, jb_ExitCode := Some ex,
              jb_SanitizedOutput := out, jb_ErrorMessage := msg\<rparr> else j) (wd_jobs w)\<rparr>"

definition marked_issued :: "cert_row \<Rightarrow> int \<Rightarrow> cert_row \<Rightarrow> cert_row" where
  "marked_issued v now r = r\<lparr>nc_Status := StatusActive, cr_Issuer := cr_Issuer v,
     cr_SerialNumber := cr_SerialNumber v, cr_NotBefore := cr_NotBefore v, cr_NotAfter := cr_NotAfter v,
     cr_FingerprintSHA256 := cr_FingerprintSHA256 v, cr_UpdatedAt := now, cr_LastIssuedAt := Some now,
     cr_LastError := []\<rparr>"

definition marked_renewed :: "cert_row \<Rightarrow> int \<Rightarrow> cert_row \<Rightarrow> cert_row" where
  "marked_renewed v now r = r\<lparr>nc_Status := StatusActive, cr_Issuer := cr_Issuer v,
     cr_SerialNumber := cr_SerialNumber v, cr_NotBefore := cr_NotBefore v, cr_NotAfter := cr_NotAfter v,
     cr_FingerprintSHA256 := cr_FingerprintSHA256 v, cr_UpdatedAt := now, cr_LastRenewedAt := Some now,
     cr_LastError := []\<rparr>"

definition marked_failed :: "string \<Rightarrow> int \<Rightarrow> cert_row \<Rightarrow> cert_row" where
  "marked_failed msg now r = r\<lparr>nc_Status := StatusFailed, cr_LastError := msg, cr_UpdatedAt := now\<rparr>"

definition with_status :: "status \<Rightarrow> int \<Rightarrow> cert_row \<Rightarrow> cert_row" where
  "with_status st now r = r\<lparr>nc_Status := st, cr_UpdatedAt := now\<rparr>"

definition with_settings :: "string \<Rightarrow> bool \<Rightarrow> int \<Rightarrow> bool \<Rightarrow> int \<Rightarrow> cert_row \<Rightarrow> cert_row" where
  "with_settings name auto_renew days marker now r = r\<lparr>nc_Name := name, nc_AutoRenewEnabled := auto_renew,
     nc_RenewBeforeDays := days, nc_CreateRenewedMarker := marker, cr_UpdatedAt := now\<rparr>"

text \<open>Changing one certificate's row; an \<open>UPDATE\<close> without a matching row changes nothing.\<close>

definition upd_cert :: "string \<Rightarrow> (cert_row \<Rightarrow> cert_row) \<Rightarrow> world \<Rightarrow> world" where
  "upd_cert i f w = w\<lparr>wd_certs := update_rows i f (wd_certs w)\<rparr>"

definition store_UpdateSettings ::
  "string \<Rightarrow> string \<Rightarrow> bool \<Rightarrow> int \<Rightarrow> bool \<Rightarrow> int \<Rightarrow> world \<Rightarrow> service_error option \<times> world" where
  "store_UpdateSettings i name auto_renew days marker now w =
     (if days < 1 \<or> days > 365 then (Some ErrStore, w)
      else if \<not> row_exists w i then (Some ErrNotFound, w)
      else (None, upd_cert i (with_settings name auto_renew days marker now) w))"

definition store_CreateAuditEvent :: "stored_event \<Rightarrow> world \<Rightarrow> service_error option \<times> world" where
  "store_CreateAuditEvent ev w =
     (if au_CertificateID ev \<noteq> [] \<and> \<not> row_exists w (au_CertificateID ev) then (Some ErrStore, w)
      else (None, w\<lparr>wd_audit := wd_audit w @ [ev]\<rparr>))"

text \<open>Deleting a certificate sets the references to it in the other tables to \<open>NULL\<close>.\<close>

definition store_DeleteCertificateWithAudit ::
  "string \<Rightarrow> stored_event \<Rightarrow> world \<Rightarrow> service_error option \<times> world" where
  "store_DeleteCertificateWithAudit i ev w =
     (case store_CreateAuditEvent ev w of
        (Some e, _) \<Rightarrow> (Some e, w)
      | (None, w') \<Rightarrow>
          if \<not> row_exists w i then (Some ErrNotFound, w)
          else (None, w'\<lparr>
            wd_certs := filter (\<lambda>r. cr_ID r \<noteq> i) (wd_certs w'),
            wd_jobs := map (\<lambda>j. if jb_CertificateID j = i then j\<lparr>jb_CertificateID := []\<rparr> else j) (wd_jobs w'),
            wd_audit := map (\<lambda>e. if au_CertificateID e = i then e\<lparr>au_CertificateID := []\<rparr> else e) (wd_audit w')\<rparr>))"

definition payload_complete :: "payload \<Rightarrow> bool" where
  "payload_complete p \<longleftrightarrow> pl_CertPEM p \<noteq> [] \<and> pl_ChainPEM p \<noteq> [] \<and> pl_FullchainPEM p \<noteq> []
     \<and> pl_PrivateKeyPEM p \<noteq> []"

definition allowedFiles :: "string list" where
  "allowedFiles = [''cert.pem'', ''chain.pem'', ''fullchain.pem'', ''privkey.pem'', ''metadata.json'']"

text \<open>What \<open>Publish\<close> wrote under a name; the marker is not one of the allowed names.\<close>

definition published_file :: "payload \<Rightarrow> string \<Rightarrow> file_content option" where
  "published_file p name =
     (if name = ''cert.pem'' then Some (Pem (pl_CertPEM p))
      else if name = ''chain.pem'' then Some (Pem (pl_ChainPEM p))
      else if name = ''fullchain.pem'' then Some (Pem (pl_FullchainPEM p))
      else if name = ''privkey.pem'' then Some (Pem (pl_PrivateKeyPEM p))
      else if name = ''metadata.json'' then Some (Metadata (pl_Metadata p))
      else None)"

section \<open>Performing an action\<close>

definition err_reply :: "service_error option \<Rightarrow> reply" where
  "err_reply e = ok_reply\<lparr>re_err := e\<rparr>"

fun perform_action :: "environment \<Rightarrow> action \<Rightarrow> world \<Rightarrow> reply \<times> world" where
  "perform_action env (GetRow i) w =
     (if en_fault env (wd_tick w) \<noteq> NoFault then (ok_reply\<lparr>re_row := Inl ErrStore\<rparr>, w)
      else (ok_reply\<lparr>re_row := case find_row i (wd_certs w) of None \<Rightarrow> Inl ErrNotFound | Some r \<Rightarrow> Inr r\<rparr>, w))"
| "perform_action env ListRows w =
     (if en_fault env (wd_tick w) \<noteq> NoFault then (err_reply (Some ErrStore), w)
      else (ok_reply\<lparr>re_rows := listed_rows (wd_certs w)\<rparr>, w))"
| "perform_action env (CreateRow c) w =
     (if en_fault env (wd_tick w) \<noteq> NoFault then (ok_reply\<lparr>re_row := Inl ErrStore\<rparr>, w)
      else (let (r, w') = store_CreateCertificate (en_newID env (wd_tick w)) (en_now env (wd_tick w)) c w
            in (ok_reply\<lparr>re_row := r\<rparr>, w')))"
| "perform_action env (CreateJob cid jt) w =
     (if en_fault env (wd_tick w) \<noteq> NoFault then (err_reply (Some ErrStore), w)
      else (let jid = en_newID env (wd_tick w);
                (e, w') = store_CreateJob jid (en_now env (wd_tick w)) cid jt w
            in ((err_reply e)\<lparr>re_id := jid\<rparr>, w')))"
| "perform_action env (FinishJob jid st ex out msg) w =
     (if en_fault env (wd_tick w) \<noteq> NoFault then (err_reply (Some ErrStore), w)
      else (ok_reply, store_FinishJob jid st ex out msg (en_now env (wd_tick w)) w))"
| "perform_action env (MarkFailed i msg) w =
     (if en_fault env (wd_tick w) \<noteq> NoFault then (err_reply (Some ErrStore), w)
      else (ok_reply, upd_cert i (marked_failed msg (en_now env (wd_tick w))) w))"
| "perform_action env (MarkIssued v) w =
     (if en_fault env (wd_tick w) \<noteq> NoFault then (err_reply (Some ErrStore), w)
      else (ok_reply, upd_cert (cr_ID v) (marked_issued v (en_now env (wd_tick w))) w))"
| "perform_action env (MarkRenewed v) w =
     (if en_fault env (wd_tick w) \<noteq> NoFault then (err_reply (Some ErrStore), w)
      else (ok_reply, upd_cert (cr_ID v) (marked_renewed v (en_now env (wd_tick w))) w))"
| "perform_action env (SetStatus i st) w =
     (if en_fault env (wd_tick w) \<noteq> NoFault then (err_reply (Some ErrStore), w)
      else (ok_reply, upd_cert i (with_status st (en_now env (wd_tick w))) w))"
| "perform_action env (UpdateSettings i name auto_renew days marker) w =
     (if en_fault env (wd_tick w) \<noteq> NoFault then (err_reply (Some ErrStore), w)
      else (let (e, w') = store_UpdateSettings i name auto_renew days marker (en_now env (wd_tick w)) w
            in (err_reply e, w')))"
| "perform_action env (DeleteRow i ev) w =
     (if en_fault env (wd_tick w) \<noteq> NoFault then (err_reply (Some ErrStore), w)
      else (let (e, w') = store_DeleteCertificateWithAudit i (ev\<lparr>au_CreatedAt := en_now env (wd_tick w)\<rparr>) w
            in (err_reply e, w')))"
| "perform_action env (AddAudit ev) w =
     (if en_fault env (wd_tick w) \<noteq> NoFault then (err_reply (Some ErrStore), w)
      else (let (e, w') = store_CreateAuditEvent (ev\<lparr>au_CreatedAt := en_now env (wd_tick w)\<rparr>) w
            in (err_reply e, w')))"
| "perform_action env (LoadOrStoreLock i) w =
     (case wd_locks w i of
        Some m \<Rightarrow> (ok_reply\<lparr>re_mutex := m\<rparr>, w)
      | None \<Rightarrow> (ok_reply\<lparr>re_mutex := wd_mutexes w\<rparr>,
          w\<lparr>wd_locks := (wd_locks w)(i \<mapsto> wd_mutexes w), wd_mutexes := Suc (wd_mutexes w)\<rparr>))"
| "perform_action env (TryLock m) w =
     (if m \<in> set (wd_held w) then (ok_reply, w)
      else (ok_reply\<lparr>re_locked := True\<rparr>, w\<lparr>wd_held := m # wd_held w\<rparr>))"
| "perform_action env (Unlock m) w = (ok_reply, w\<lparr>wd_held := filter (\<lambda>k. k \<noteq> m) (wd_held w)\<rparr>)"
| "perform_action env (DeleteLock i) w = (ok_reply, w\<lparr>wd_locks := (wd_locks w)(i := None)\<rparr>)"
| "perform_action env (ResolveCredential c) w =
     (ok_reply\<lparr>re_values := case en_resolve env (wd_tick w) c of None \<Rightarrow> Inl ErrCredential | Some v \<Rightarrow> Inr v\<rparr>, w)"
| "perform_action env (CallEngine i call) w =
     (ok_reply\<lparr>re_result := case en_engine env (wd_tick w) call of Inl e \<Rightarrow> Inl (ErrEngine e) | Inr r \<Rightarrow> Inr r\<rparr>, w)"
| "perform_action env ReadClock w = (ok_reply\<lparr>re_time := en_now env (wd_tick w)\<rparr>, w)"
| "perform_action env (MarshalMetadata d) w =
     (if en_fault env (wd_tick w) \<noteq> NoFault then (err_reply (Some ErrMarshal), w) else (ok_reply, w))"
| "perform_action env (Publish dir p) w =
     (if \<not> validateSafeDirectory dir \<or> \<not> payload_complete p then (err_reply (Some ErrPublish), w)
      else case en_fault env (wd_tick w) of
        NoFault \<Rightarrow> (ok_reply, w\<lparr>wd_files := (wd_files w)(dir \<mapsto> p)\<rparr>)
      | Fault \<Rightarrow> (err_reply (Some ErrPublish), w)
      | FaultLosing \<Rightarrow> (err_reply (Some ErrPublish), w\<lparr>wd_files := (wd_files w)(dir := None)\<rparr>))"
| "perform_action env (Backup dir) w =
     (if \<not> validateSafeDirectory dir then (err_reply (Some ErrPublish), w)
      else if en_fault env (wd_tick w) \<noteq> NoFault
      then ((err_reply (Some ErrPublish))\<lparr>re_existed := wd_files w dir \<noteq> None\<rparr>, w)
      else (ok_reply\<lparr>re_existed := wd_files w dir \<noteq> None, re_backup := wd_files w dir \<noteq> None\<rparr>, w))"
| "perform_action env (RemoveFiles dir) w =
     (if \<not> validateSafeDirectory dir \<or> en_fault env (wd_tick w) \<noteq> NoFault
      then (err_reply (Some ErrCleanup), w)
      else (ok_reply, w\<lparr>wd_files := (wd_files w)(dir := None)\<rparr>))"
| "perform_action env (ReadFile dir name) w =
     (if \<not> validateSafeDirectory dir \<or> name \<notin> set allowedFiles \<or> en_fault env (wd_tick w) \<noteq> NoFault
      then (ok_reply, w)
      else (ok_reply\<lparr>re_content := case wd_files w dir of
          None \<Rightarrow> Inl ErrFile
        | Some p \<Rightarrow> (case published_file p name of None \<Rightarrow> Inl ErrFile | Some c \<Rightarrow> Inr c)\<rparr>, w))"
| "perform_action env (ListFiles dir) w =
     (if \<not> validateSafeDirectory dir \<or> en_fault env (wd_tick w) \<noteq> NoFault then (ok_reply, w)
      else (ok_reply\<lparr>re_names := Inr (if wd_files w dir = None then [] else allowedFiles)\<rparr>, w))"
| "perform_action env (WaitSeconds n) w =
     (if en_fault env (wd_tick w) \<noteq> NoFault then (err_reply (Some ErrContext), w) else (ok_reply, w))"

definition perform :: "environment \<Rightarrow> action \<Rightarrow> world \<Rightarrow> reply \<times> world" where
  "perform env a w = (let (r, w') = perform_action env a w in (r, w'\<lparr>wd_tick := Suc (wd_tick w')\<rparr>))"

section \<open>Programs\<close>

datatype 'a svc = Ret 'a | Act action "reply \<Rightarrow> 'a svc"

primrec svc_bind :: "'a svc \<Rightarrow> ('a \<Rightarrow> 'b svc) \<Rightarrow> 'b svc" where
  "svc_bind (Ret v) f = f v"
| "svc_bind (Act a k) f = Act a (\<lambda>r. svc_bind (k r) f)"

text \<open>\<open>if err := call; err != nil { return err }\<close>, \<open>_ = call\<close>, and \<open>defer lock.Unlock()\<close>.\<close>

definition checked :: "action \<Rightarrow> (service_error + 'a) svc \<Rightarrow> (service_error + 'a) svc" where
  "checked a m = Act a (\<lambda>r. case re_err r of Some e \<Rightarrow> Ret (Inl e) | None \<Rightarrow> m)"

definition ignored :: "action \<Rightarrow> 'a svc \<Rightarrow> 'a svc" where
  "ignored a m = Act a (\<lambda>_. m)"

definition unlocking :: "nat \<Rightarrow> 'a svc \<Rightarrow> 'a svc" where
  "unlocking m body = svc_bind body (\<lambda>v. Act (Unlock m) (\<lambda>_. Ret v))"

primrec run_svc :: "environment \<Rightarrow> 'a svc \<Rightarrow> world \<Rightarrow> 'a \<times> world" where
  "run_svc env (Ret v) w = (v, w)"
| "run_svc env (Act a k) w = (let (r, w') = perform env a w in run_svc env (k r) w')"

lemma run_svc_bind: "run_svc env (svc_bind m f) w = (case run_svc env m w of (v, w') \<Rightarrow> run_svc env (f v) w')"
  by (induction m arbitrary: w) (auto simp: split_beta)

end
