(* ===== verification/Credential_Service.thy ===== *)
theory Credential_Service
  imports Dns_Providers Service_World
begin

text \<open>
  \<open>internal/credential/service.go\<close> and \<open>encryption.go\<close> with the statements of
  \<open>internal/store/sqlite/store.go\<close> on the table \<open>dns_credentials\<close>: creating, replacing, renaming,
  listing, resolving, testing and deleting DNS credentials.

  AES-GCM and JSON are the standard library's: \<^term>\<open>crypto_lib\<close> holds the functions the code calls,
  and \<open>crypto_lib_ok\<close> what their documentation promises. The random nonce, a fresh identifier, the
  clock and a failing statement are arguments.
\<close>

section \<open>The cipher\<close>

record crypto_lib =
  cl_Seal :: "string \<Rightarrow> string \<Rightarrow> string"
  cl_Open :: "string \<Rightarrow> string \<Rightarrow> string option"
  cl_Marshal :: "variables \<Rightarrow> string"
  cl_Unmarshal :: "string \<Rightarrow> variables option"

definition nonce_size :: nat where
  "nonce_size = 12"

text \<open>
  \<open>Open\<close> reads back what \<open>Seal\<close> produced with the same nonce; \<open>Marshal\<close> writes the names of a map in
  order and \<open>Unmarshal\<close> reads them back.
\<close>

definition crypto_lib_ok :: "crypto_lib \<Rightarrow> bool" where
  "crypto_lib_ok lib \<longleftrightarrow>
     (\<forall>nonce p. length nonce = nonce_size \<longrightarrow> cl_Open lib nonce (cl_Seal lib nonce p) = Some p)
     \<and> (\<forall>vs. distinct (map fst vs) \<longrightarrow> cl_Unmarshal lib (cl_Marshal lib vs) = Some (sort_key fst vs))"

definition cipher_Encrypt :: "crypto_lib \<Rightarrow> string option \<Rightarrow> variables \<Rightarrow> credential_error + string" where
  "cipher_Encrypt lib nonce vs =
     (case nonce of
        None \<Rightarrow> Inl CipherFailed
      | Some n \<Rightarrow> Inr (n @ cl_Seal lib n (cl_Marshal lib vs)))"

definition cipher_Decrypt :: "crypto_lib \<Rightarrow> string \<Rightarrow> credential_error + variables" where
  "cipher_Decrypt lib s =
     (if length s < nonce_size then Inl CipherFailed
      else case cl_Open lib (take nonce_size s) (drop nonce_size s) of
          None \<Rightarrow> Inl CipherFailed
        | Some plaintext \<Rightarrow>
            (case cl_Unmarshal lib plaintext of None \<Rightarrow> Inl CipherFailed | Some vs \<Rightarrow> Inr vs))"

section \<open>Records\<close>

record credential =
  cd_ID :: string
  cd_Name :: string
  cd_Provider :: string
  cd_ACMEDNSCode :: string
  cd_SourceMode :: string
  cd_MaskedFields :: "string list"
  cd_EnvironmentRefs :: variables
  cd_CreatedAt :: int
  cd_UpdatedAt :: int

record credential_request =
  rq_Name :: string
  rq_Provider :: string
  rq_CustomACMECode :: string
  rq_SourceMode :: string
  rq_Values :: variables
  rq_EnvironmentRefs :: variables

text \<open>A row of \<open>dns_credentials\<close>, and the two tables a statement on it can change.\<close>

type_synonym credential_row = "credential \<times> string option"

record dns_store =
  ds_credentials :: "credential_row list"
  ds_certificates :: "cert_row list"

section \<open>The store's statements\<close>

definition row_ids :: "dns_store \<Rightarrow> string list" where
  "row_ids st = map (\<lambda>row. cd_ID (fst row)) (ds_credentials st)"

definition name_taken :: "string \<Rightarrow> string \<Rightarrow> dns_store \<Rightarrow> bool" where
  "name_taken i n st \<longleftrightarrow> (\<exists>row \<in> set (ds_credentials st). cd_Name (fst row) = n \<and> cd_ID (fst row) \<noteq> i)"

definition nullableBytes :: "string \<Rightarrow> string option" where
  "nullableBytes b = (if b = [] then None else Some b)"

definition source_modes :: "string list" where
  "source_modes = [''encrypted'', ''environment'']"

definition store_CreateDNSCredential ::
  "bool \<Rightarrow> string \<Rightarrow> int \<Rightarrow> credential \<Rightarrow> string \<Rightarrow> dns_store \<Rightarrow> credential_error + (credential \<times> dns_store)" where
  "store_CreateDNSCredential fails newID now value0 encrypted st =
     (let v = value0\<lparr>cd_ID := if cd_ID value0 = [] then newID else cd_ID value0,
            cd_CreatedAt := now, cd_UpdatedAt := now\<rparr>
      in if fails \<or> cd_ID v \<in> set (row_ids st) \<or> name_taken (cd_ID v) (cd_Name v) st
            \<or> cd_SourceMode v \<notin> set source_modes
         then Inl CredentialStore
         else Inr (v, st\<lparr>ds_credentials := ds_credentials st @ [(v, nullableBytes encrypted)]\<rparr>))"

definition store_DNSCredential :: "string \<Rightarrow> dns_store \<Rightarrow> credential_error + (credential \<times> string)" where
  "store_DNSCredential i st =
     (case List.find (\<lambda>(c, _). cd_ID c = i) (ds_credentials st) of
        None \<Rightarrow> Inl CredentialNotFound
      | Some (c, b) \<Rightarrow> Inr (c, case b of None \<Rightarrow> [] | Some e \<Rightarrow> e))"

definition updated_row :: "int \<Rightarrow> credential \<Rightarrow> string \<Rightarrow> credential_row \<Rightarrow> credential_row" where
  "updated_row now v encrypted row =
     (if cd_ID (fst row) = cd_ID v
      then (v\<lparr>cd_CreatedAt := cd_CreatedAt (fst row), cd_UpdatedAt := now\<rparr>, nullableBytes encrypted)
      else row)"

definition store_UpdateDNSCredential ::
  "bool \<Rightarrow> int \<Rightarrow> credential \<Rightarrow> string \<Rightarrow> dns_store \<Rightarrow> credential_error + (credential \<times> dns_store)" where
  "store_UpdateDNSCredential fails now v encrypted st =
     (if fails \<or> name_taken (cd_ID v) (cd_Name v) st \<and> cd_ID v \<in> set (row_ids st)
         \<or> cd_SourceMode v \<notin> set source_modes \<and> cd_ID v \<in> set (row_ids st)
      then Inl CredentialStore
      else if cd_ID v \<notin> set (row_ids st) then Inl CredentialNotFound
      else (let st' = st\<lparr>ds_credentials := map (updated_row now v encrypted) (ds_credentials st)\<rparr>
            in case store_DNSCredential (cd_ID v) st' of
                 Inl e \<Rightarrow> Inl e
               | Inr (stored, _) \<Rightarrow> Inr (stored, st')))"

text \<open>
  \<open>ORDER BY name ASC\<close>; deleting a row sets the references of the table \<open>certificates\<close> to it to NULL
  (\<open>migrations/00001_initial.sql\<close>).
\<close>

definition store_DNSCredentials :: "dns_store \<Rightarrow> credential list" where
  "store_DNSCredentials st = sort_key cd_Name (map fst (ds_credentials st))"

definition detached :: "string \<Rightarrow> cert_row \<Rightarrow> cert_row" where
  "detached i r = (if nc_DNSCredentialID r = i then r\<lparr>nc_DNSCredentialID := []\<rparr> else r)"

definition store_DeleteDNSCredential :: "bool \<Rightarrow> string \<Rightarrow> dns_store \<Rightarrow> credential_error + dns_store" where
  "store_DeleteDNSCredential fails i st =
     (if fails then Inl CredentialStore
      else if i \<notin> set (row_ids st) then Inl CredentialNotFound
      else Inr \<lparr>ds_credentials = filter (\<lambda>row. cd_ID (fst row) \<noteq> i) (ds_credentials st),
                ds_certificates = map (detached i) (ds_certificates st)\<rparr>)"

section \<open>The service\<close>

record credential_service =
  se_cipher :: "crypto_lib option"
  se_lookup :: "string \<Rightarrow> string option"

definition sortedKeys :: "variables \<Rightarrow> string list" where
  "sortedKeys vs = sort (map fst vs)"

definition check_reference :: "provider \<Rightarrow> string \<times> string \<Rightarrow> credential_error option" where
  "check_reference p = (\<lambda>(name, environmentName).
     case (if pr_Custom p then ValidateEnvironmentName name
           else if name \<notin> fd_Name ` set (pr_Fields p) then Some RefUndeclared else None) of
       Some e \<Rightarrow> Some e
     | None \<Rightarrow> ValidateEnvironmentName environmentName)"

definition check_references :: "provider \<Rightarrow> variables \<Rightarrow> credential_error option" where
  "check_references p refs =
     (if refs = [] then Some RefsEmpty
      else case first_error (check_reference p) refs of
          Some e \<Rightarrow> Some e
        | None \<Rightarrow>
            if pr_Custom p then None
            else first_error (\<lambda>f. if fd_Required f \<and> go_TrimSpace (get_value refs (fd_Name f)) = []
                   then Some RefMissing else None) (pr_Fields p))"

definition prepare_source ::
  "credential_service \<Rightarrow> string option \<Rightarrow> provider \<Rightarrow> credential_request \<Rightarrow> credential
     \<Rightarrow> credential_error + (credential \<times> string)" where
  "prepare_source s nonce p r v =
     (if rq_SourceMode r = ''encrypted'' then
        (case se_cipher s of
           None \<Rightarrow> Inl CipherUnavailable
         | Some lib \<Rightarrow>
             (case ValidateValues p (rq_Values r) of
                Some e \<Rightarrow> Inl e
              | None \<Rightarrow>
                  (case cipher_Encrypt lib nonce (rq_Values r) of
                     Inl e \<Rightarrow> Inl e
                   | Inr encrypted \<Rightarrow> Inr (v\<lparr>cd_MaskedFields := sortedKeys (rq_Values r)\<rparr>, encrypted))))
      else if rq_SourceMode r = ''environment'' then
        (case check_references p (rq_EnvironmentRefs r) of
           Some e \<Rightarrow> Inl e
         | None \<Rightarrow> Inr (v\<lparr>cd_EnvironmentRefs := rq_EnvironmentRefs r,
             cd_MaskedFields := sortedKeys (rq_EnvironmentRefs r)\<rparr>, []))
      else Inl SourceModeInvalid)"

definition prepare ::
  "credential_service \<Rightarrow> string option \<Rightarrow> credential_request \<Rightarrow> credential_error + (credential \<times> string)" where
  "prepare s nonce r =
     (let name = go_TrimSpace (rq_Name r) in
      if name = [] \<or> go_len name > 100 then Inl CredentialNameLength
      else case registry_Get (rq_Provider r) of
        None \<Rightarrow> Inl ProviderUnsupported
      | Some p \<Rightarrow>
          (let acmeCode = (if pr_Custom p then go_TrimSpace (rq_CustomACMECode r) else pr_ACMEDNSCode p) in
           case (if pr_Custom p then ValidateCustomProviderCode acmeCode else None) of
             Some e \<Rightarrow> Inl e
           | None \<Rightarrow> prepare_source s nonce p r
               \<lparr>cd_ID = [], cd_Name = name, cd_Provider = pr_Code p, cd_ACMEDNSCode = acmeCode,
                cd_SourceMode = rq_SourceMode r, cd_MaskedFields = [], cd_EnvironmentRefs = [],
                cd_CreatedAt = 0, cd_UpdatedAt = 0\<rparr>))"

definition credential_Create ::
  "credential_service \<Rightarrow> string option \<Rightarrow> bool \<Rightarrow> string \<Rightarrow> int \<Rightarrow> credential_request \<Rightarrow> dns_store
     \<Rightarrow> (credential_error + credential) \<times> dns_store" where
  "credential_Create s nonce fails newID now r st =
     (case prepare s nonce r of
        Inl e \<Rightarrow> (Inl e, st)
      | Inr (v, encrypted) \<Rightarrow>
          (case store_CreateDNSCredential fails newID now v encrypted st of
             Inl e \<Rightarrow> (Inl e, st)
           | Inr (v', st') \<Rightarrow> (Inr v', st')))"

definition credential_Update ::
  "credential_service \<Rightarrow> string option \<Rightarrow> bool \<Rightarrow> int \<Rightarrow> string \<Rightarrow> credential_request \<Rightarrow> dns_store
     \<Rightarrow> (credential_error + credential) \<times> dns_store" where
  "credential_Update s nonce fails now i r st =
     (case prepare s nonce r of
        Inl e \<Rightarrow> (Inl e, st)
      | Inr (v, encrypted) \<Rightarrow>
          (case store_UpdateDNSCredential fails now (v\<lparr>cd_ID := go_TrimSpace i\<rparr>) encrypted st of
             Inl e \<Rightarrow> (Inl e, st)
           | Inr (v', st') \<Rightarrow> (Inr v', st')))"

definition credential_Rename ::
  "bool \<Rightarrow> int \<Rightarrow> string \<Rightarrow> string \<Rightarrow> dns_store \<Rightarrow> (credential_error + credential) \<times> dns_store" where
  "credential_Rename fails now i n st =
     (let name = go_TrimSpace n in
      if name = [] \<or> go_len name > 100 then (Inl CredentialNameLength, st)
      else case store_DNSCredential (go_TrimSpace i) st of
        Inl e \<Rightarrow> (Inl e, st)
      | Inr (v, encrypted) \<Rightarrow>
          (case store_UpdateDNSCredential fails now (v\<lparr>cd_Name := name\<rparr>) encrypted st of
             Inl e \<Rightarrow> (Inl e, st)
           | Inr (v', st') \<Rightarrow> (Inr v', st')))"

definition credential_Delete :: "bool \<Rightarrow> string \<Rightarrow> dns_store \<Rightarrow> (credential_error + unit) \<times> dns_store" where
  "credential_Delete fails i st =
     (case store_DeleteDNSCredential fails i st of Inl e \<Rightarrow> (Inl e, st) | Inr st' \<Rightarrow> (Inr (), st'))"

fun resolve_refs :: "(string \<Rightarrow> string option) \<Rightarrow> variables \<Rightarrow> credential_error + variables" where
  "resolve_refs lookup [] = Inr []"
| "resolve_refs lookup ((name, environmentName) # refs) =
     (case lookup environmentName of
        None \<Rightarrow> Inl RefUnset
      | Some resolved \<Rightarrow>
          if resolved = [] then Inl RefUnset
          else (case resolve_refs lookup refs of
              Inl e \<Rightarrow> Inl e
            | Inr environment \<Rightarrow> Inr ((name, resolved) # environment)))"

definition credential_Resolve :: "credential_service \<Rightarrow> string \<Rightarrow> dns_store \<Rightarrow> credential_error + process_values" where
  "credential_Resolve s i st =
     (case store_DNSCredential i st of
        Inl e \<Rightarrow> Inl e
      | Inr (v, encrypted) \<Rightarrow>
          (case (if cd_SourceMode v = ''encrypted'' then
                   (case se_cipher s of None \<Rightarrow> Inl NilCipherPanic | Some lib \<Rightarrow> cipher_Decrypt lib encrypted)
                 else if cd_SourceMode v = ''environment''
                 then resolve_refs (se_lookup s) (cd_EnvironmentRefs v)
                 else Inl SourceModeInvalid) of
             Inl e \<Rightarrow> Inl e
           | Inr environment \<Rightarrow> Inr \<lparr>pv_ACMEDNSCode = cd_ACMEDNSCode v, pv_Environment = environment\<rparr>))"

definition credential_Test :: "credential_service \<Rightarrow> string \<Rightarrow> dns_store \<Rightarrow> credential_error option" where
  "credential_Test s i st = (case credential_Resolve s i st of Inl e \<Rightarrow> Some e | Inr _ \<Rightarrow> None)"

section \<open>Looking rows up\<close>

definition find_credential :: "string \<Rightarrow> credential_row list \<Rightarrow> credential_row option" where
  "find_credential i rows = List.find (\<lambda>(c, _). cd_ID c = i) rows"

lemma find_credential_simps [simp]:
  "find_credential i [] = None"
  "find_credential i ((c, b) # rows) = (if cd_ID c = i then Some (c, b) else find_credential i rows)"
  by (auto simp: find_credential_def)

lemma find_credential_None: "find_credential i rows = None \<longleftrightarrow> i \<notin> (\<lambda>row. cd_ID (fst row)) ` set rows"
  by (induction rows) (auto split: if_splits)

lemma find_credential_append:
  "find_credential i (rows @ rows') =
     (case find_credential i rows of None \<Rightarrow> find_credential i rows' | Some r \<Rightarrow> Some r)"
  by (induction rows) auto

lemma find_credential_Some: "find_credential i rows = Some (c, b) \<Longrightarrow> (c, b) \<in> set rows \<and> cd_ID c = i"
  by (induction rows) (auto split: if_splits)

lemma find_updated_row:
  "find_credential i (map (updated_row now v encrypted) rows) =
     map_option (updated_row now v encrypted) (find_credential i rows)"
  by (induction rows) (auto simp: updated_row_def)

lemma store_DNSCredential_find:
  "store_DNSCredential i st =
     (case find_credential i (ds_credentials st) of
        None \<Rightarrow> Inl CredentialNotFound
      | Some (c, b) \<Rightarrow> Inr (c, case b of None \<Rightarrow> [] | Some e \<Rightarrow> e))"
  by (simp add: store_DNSCredential_def find_credential_def)

lemma nullableBytes_back [simp]: "(case nullableBytes b of None \<Rightarrow> [] | Some e \<Rightarrow> e) = b"
  by (simp add: nullableBytes_def)

text \<open>What a row resolves to.\<close>

definition resolve_row :: "credential_service \<Rightarrow> credential_row \<Rightarrow> credential_error + process_values" where
  "resolve_row s = (\<lambda>(v, b).
     case (if cd_SourceMode v = ''encrypted'' then
             (case se_cipher s of None \<Rightarrow> Inl NilCipherPanic
              | Some lib \<Rightarrow> cipher_Decrypt lib (case b of None \<Rightarrow> [] | Some e \<Rightarrow> e))
           else if cd_SourceMode v = ''environment'' then resolve_refs (se_lookup s) (cd_EnvironmentRefs v)
           else Inl SourceModeInvalid) of
       Inl e \<Rightarrow> Inl e
     | Inr environment \<Rightarrow> Inr \<lparr>pv_ACMEDNSCode = cd_ACMEDNSCode v, pv_Environment = environment\<rparr>)"

lemma credential_Resolve_find:
  "credential_Resolve s i st =
     (case find_credential i (ds_credentials st) of None \<Rightarrow> Inl CredentialNotFound | Some row \<Rightarrow> resolve_row s row)"
  by (auto simp: credential_Resolve_def store_DNSCredential_find resolve_row_def split: option.splits prod.splits)

lemma Decrypt_Encrypt:
  assumes "crypto_lib_ok lib" "length n = nonce_size" "distinct (map fst vs)"
    and "cipher_Encrypt lib (Some n) vs = Inr e"
  shows "cipher_Decrypt lib e = Inr (sort_key fst vs)"
  using assms by (auto simp: cipher_Encrypt_def cipher_Decrypt_def crypto_lib_ok_def)

section \<open>What the statements do\<close>

lemma store_CreateDNSCredential_Inr:
  assumes "store_CreateDNSCredential fails newID now v0 encrypted st = Inr (v, st')"
  shows "v = v0\<lparr>cd_ID := if cd_ID v0 = [] then newID else cd_ID v0, cd_CreatedAt := now, cd_UpdatedAt := now\<rparr>"
    and "st' = st\<lparr>ds_credentials := ds_credentials st @ [(v, nullableBytes encrypted)]\<rparr>"
    and "cd_ID v \<notin> set (row_ids st)" and "\<not> name_taken (cd_ID v) (cd_Name v) st"
    and "cd_SourceMode v \<in> set source_modes"
  using assms unfolding store_CreateDNSCredential_def Let_def by (auto split: if_splits)

lemma store_UpdateDNSCredential_Inr:
  assumes "store_UpdateDNSCredential fails now v encrypted st = Inr (v', st')"
  shows "st' = st\<lparr>ds_credentials := map (updated_row now v encrypted) (ds_credentials st)\<rparr>"
    and "cd_ID v \<in> set (row_ids st)" and "\<not> name_taken (cd_ID v) (cd_Name v) st"
    and "cd_SourceMode v \<in> set source_modes"
    and "\<exists>row. find_credential (cd_ID v) (ds_credentials st) = Some row
      \<and> (v', nullableBytes encrypted) = updated_row now v encrypted row"
proof -
  let ?st = "st\<lparr>ds_credentials := map (updated_row now v encrypted) (ds_credentials st)\<rparr>"
  have u: "cd_ID v \<in> set (row_ids st)" "\<not> name_taken (cd_ID v) (cd_Name v) st"
      "cd_SourceMode v \<in> set source_modes"
    and g: "(case store_DNSCredential (cd_ID v) ?st of Inl e \<Rightarrow> Inl e
       | Inr (stored, _) \<Rightarrow> Inr (stored, ?st)) = Inr (v', st')"
    using assms unfolding store_UpdateDNSCredential_def Let_def by (auto split: if_splits)
  from g obtain b where s: "store_DNSCredential (cd_ID v) ?st = Inr (v', b)" and st: "st' = ?st"
    by (auto split: sum.splits)
  from s obtain row where row: "find_credential (cd_ID v) (ds_credentials st) = Some row"
      and v': "fst (updated_row now v encrypted row) = v'"
    by (auto simp: store_DNSCredential_find find_updated_row split: option.splits prod.splits)
  then have "cd_ID (fst row) = cd_ID v" using find_credential_Some by (cases row) auto
  with v' have "(v', nullableBytes encrypted) = updated_row now v encrypted row"
    by (auto simp: updated_row_def)
  with row u st show "st' = ?st" "cd_ID v \<in> set (row_ids st)" "\<not> name_taken (cd_ID v) (cd_Name v) st"
    "cd_SourceMode v \<in> set source_modes"
    "\<exists>row. find_credential (cd_ID v) (ds_credentials st) = Some row
      \<and> (v', nullableBytes encrypted) = updated_row now v encrypted row"
    by blast+
qed

section \<open>What is accepted\<close>

definition nonce_ok :: "string option \<Rightarrow> bool" where
  "nonce_ok nonce \<longleftrightarrow> (case nonce of None \<Rightarrow> True | Some n \<Rightarrow> length n = nonce_size)"

text \<open>The maps of a request have one value per name.\<close>

definition request_ok :: "credential_request \<Rightarrow> bool" where
  "request_ok r \<longleftrightarrow> distinct (map fst (rq_Values r)) \<and> distinct (map fst (rq_EnvironmentRefs r))"

text \<open>
  A row that was accepted: its provider is known, the code given to \<open>acme.sh\<close> is well formed, and its
  source passed the checks.
\<close>

definition accepted_source :: "crypto_lib \<Rightarrow> provider \<Rightarrow> credential_row \<Rightarrow> bool" where
  "accepted_source lib p = (\<lambda>(c, b).
     cd_SourceMode c = ''encrypted''
       \<and> (\<exists>e vs. b = Some e \<and> cipher_Decrypt lib e = Inr (sort_key fst vs) \<and> distinct (map fst vs)
            \<and> ValidateValues p vs = None)
     \<or> cd_SourceMode c = ''environment'' \<and> check_references p (cd_EnvironmentRefs c) = None)"

definition accepted_row :: "crypto_lib \<Rightarrow> credential_row \<Rightarrow> bool" where
  "accepted_row lib row \<longleftrightarrow> ValidateCustomProviderCode (cd_ACMEDNSCode (fst row)) = None
     \<and> (\<exists>p. registry_Get (cd_Provider (fst row)) = Some p \<and> accepted_source lib p row)"

lemma prepare_accepted:
  assumes "crypto_lib_ok lib" "se_cipher s = Some lib" "nonce_ok nonce" "request_ok r"
    and "prepare s nonce r = Inr (v, e)"
  shows "accepted_row lib (v, nullableBytes e)" and "cd_SourceMode v = rq_SourceMode r"
    and "cd_Name v = go_TrimSpace (rq_Name r)" and "cd_ID v = []"
proof -
  from assms(5) obtain p where name: "go_TrimSpace (rq_Name r) \<noteq> []"
    and p: "registry_Get (rq_Provider r) = Some p"
    and src: "prepare_source s nonce p r
        \<lparr>cd_ID = [], cd_Name = go_TrimSpace (rq_Name r), cd_Provider = pr_Code p,
         cd_ACMEDNSCode = if pr_Custom p then go_TrimSpace (rq_CustomACMECode r) else pr_ACMEDNSCode p,
         cd_SourceMode = rq_SourceMode r, cd_MaskedFields = [], cd_EnvironmentRefs = [],
         cd_CreatedAt = 0, cd_UpdatedAt = 0\<rparr> = Inr (v, e)"
    and cust: "pr_Custom p \<Longrightarrow> ValidateCustomProviderCode (go_TrimSpace (rq_CustomACMECode r)) = None"
    unfolding prepare_def Let_def by (auto split: if_splits option.splits)
  have code_ok: "ValidateCustomProviderCode
      (if pr_Custom p then go_TrimSpace (rq_CustomACMECode r) else pr_ACMEDNSCode p) = None"
    using cust registry_codes registry_Get_member [OF p] by auto
  have pc: "registry_Get (pr_Code p) = Some p" using p registry_Get_member [OF p] by simp
  consider (enc) n where "rq_SourceMode r = ''encrypted''" "ValidateValues p (rq_Values r) = None"
      "nonce = Some n" "cipher_Encrypt lib (Some n) (rq_Values r) = Inr e"
    | (ref) "rq_SourceMode r = ''environment''" "check_references p (rq_EnvironmentRefs r) = None"
    using src assms(2) unfolding prepare_source_def
    by (auto simp: cipher_Encrypt_def split: if_splits option.splits sum.splits)
  then have "accepted_source lib p (v, nullableBytes e)"
  proof cases
    case enc
    have "cipher_Decrypt lib e = Inr (sort_key fst (rq_Values r))"
      by (rule Decrypt_Encrypt [OF assms(1) _ _ enc(4)]) (use assms(3,4) enc(3) in \<open>auto simp: nonce_ok_def request_ok_def\<close>)
    moreover have "e \<noteq> []" using enc(3,4) assms(3) by (auto simp: cipher_Encrypt_def nonce_ok_def nonce_size_def)
    ultimately show ?thesis
      using src enc assms(2,4) unfolding prepare_source_def
      by (auto simp: accepted_source_def nullableBytes_def request_ok_def)
  next
    case ref
    then show ?thesis using src unfolding prepare_source_def by (auto simp: accepted_source_def)
  qed
  moreover have "cd_Provider v = pr_Code p \<and> cd_SourceMode v = rq_SourceMode r \<and> cd_ID v = []
      \<and> cd_Name v = go_TrimSpace (rq_Name r)
      \<and> cd_ACMEDNSCode v = (if pr_Custom p then go_TrimSpace (rq_CustomACMECode r) else pr_ACMEDNSCode p)"
    using src unfolding prepare_source_def by (auto split: if_splits option.splits sum.splits)
  ultimately show "accepted_row lib (v, nullableBytes e)" "cd_SourceMode v = rq_SourceMode r"
    "cd_Name v = go_TrimSpace (rq_Name r)" "cd_ID v = []"
    using code_ok pc by (auto simp: accepted_row_def)
qed

section \<open>Reachable stores\<close>

text \<open>
  The database accepts a change of the table \<open>certificates\<close> only when every reference to a credential
  names a row (\<open>foreign_keys(1)\<close>).
\<close>

definition references_hold :: "dns_store \<Rightarrow> bool" where
  "references_hold st \<longleftrightarrow> (\<forall>r \<in> set (ds_certificates st). nc_DNSCredentialID r = []
     \<or> nc_DNSCredentialID r \<in> set (row_ids st))"

inductive credential_step :: "credential_service \<Rightarrow> dns_store \<Rightarrow> dns_store \<Rightarrow> bool"
  for s :: credential_service where
  step_create: "nonce_ok nonce \<Longrightarrow> request_ok r \<Longrightarrow> newID \<noteq> [] \<Longrightarrow>
    credential_step s st (snd (credential_Create s nonce fails newID now r st))"
| step_update: "nonce_ok nonce \<Longrightarrow> request_ok r \<Longrightarrow>
    credential_step s st (snd (credential_Update s nonce fails now i r st))"
| step_rename: "credential_step s st (snd (credential_Rename fails now i n st))"
| step_delete: "credential_step s st (snd (credential_Delete fails i st))"
| step_certificates: "references_hold (st\<lparr>ds_certificates := rows\<rparr>) \<Longrightarrow>
    credential_step s st (st\<lparr>ds_certificates := rows\<rparr>)"

definition empty_store :: dns_store where
  "empty_store = \<lparr>ds_credentials = [], ds_certificates = []\<rparr>"

inductive credential_reachable :: "credential_service \<Rightarrow> dns_store \<Rightarrow> bool"
  for s :: credential_service where
  reach_empty: "credential_reachable s empty_store"
| reach_step: "credential_reachable s st \<Longrightarrow> credential_step s st st' \<Longrightarrow> credential_reachable s st'"

definition row_names :: "dns_store \<Rightarrow> string list" where
  "row_names st = map (\<lambda>row. cd_Name (fst row)) (ds_credentials st)"

definition dns_store_inv :: "crypto_lib \<Rightarrow> dns_store \<Rightarrow> bool" where
  "dns_store_inv lib st \<longleftrightarrow> distinct (row_ids st) \<and> distinct (row_names st) \<and> [] \<notin> set (row_ids st)
     \<and> (\<forall>row \<in> set (ds_credentials st). accepted_row lib row) \<and> references_hold st"

lemma accepted_row_times:
  "accepted_row lib (c\<lparr>cd_CreatedAt := t, cd_UpdatedAt := t'\<rparr>, b) = accepted_row lib (c, b)"
  "accepted_row lib (c\<lparr>cd_ID := i, cd_CreatedAt := t, cd_UpdatedAt := t'\<rparr>, b) = accepted_row lib (c, b)"
  "accepted_row lib (c\<lparr>cd_ID := i\<rparr>, b) = accepted_row lib (c, b)"
  "accepted_row lib (c\<lparr>cd_Name := n\<rparr>, b) = accepted_row lib (c, b)"
  by (auto simp: accepted_row_def accepted_source_def)

lemma create_keeps_inv:
  assumes "dns_store_inv lib st" and "accepted_row lib (v0, nullableBytes e)" and "newID \<noteq> []"
    and "store_CreateDNSCredential fails newID now v0 e st = Inr (v, st')"
  shows "dns_store_inv lib st'"
proof -
  note c = store_CreateDNSCredential_Inr [OF assms(4)]
  have "accepted_row lib (v, nullableBytes e)"
    unfolding c(1) using assms(2) by (simp add: accepted_row_times)
  moreover have "cd_Name v \<notin> set (row_names st)"
    using c(3,4) by (force simp: name_taken_def row_names_def row_ids_def)
  moreover have "cd_ID v \<noteq> []" unfolding c(1) using assms(3) by simp
  ultimately show ?thesis
    using assms(1) c(2,3)
    by (auto simp: dns_store_inv_def row_ids_def row_names_def references_hold_def)
qed

lemma updated_row_id: "cd_ID (fst (updated_row now v e row)) = cd_ID (fst row)"
  by (simp add: updated_row_def)

lemma distinct_updated_names:
  assumes "distinct (map (\<lambda>row. cd_ID (fst row)) rows)" "distinct (map (\<lambda>row. cd_Name (fst row)) rows)"
    and "\<forall>row \<in> set rows. cd_Name (fst row) = cd_Name v \<longrightarrow> cd_ID (fst row) = cd_ID v"
  shows "distinct (map (\<lambda>row. cd_Name (fst row)) (map (updated_row now v e) rows))"
  using assms
proof (induction rows)
  case (Cons row rows)
  have "cd_Name (fst (updated_row now v e row)) \<noteq> cd_Name (fst (updated_row now v e row'))"
    if "row' \<in> set rows" for row'
  proof -
    have "cd_ID (fst row) \<noteq> cd_ID (fst row')" "cd_Name (fst row) \<noteq> cd_Name (fst row')"
      using Cons.prems(1,2) that by (auto simp: image_iff)
    moreover have "cd_Name (fst row) = cd_Name v \<Longrightarrow> cd_ID (fst row) = cd_ID v"
        "cd_Name (fst row') = cd_Name v \<Longrightarrow> cd_ID (fst row') = cd_ID v"
      using Cons.prems(3) that by auto
    ultimately show ?thesis by (auto simp: updated_row_def)
  qed
  moreover have "distinct (map (\<lambda>row. cd_Name (fst row)) (map (updated_row now v e) rows))"
    using Cons by auto
  ultimately show ?case by auto
qed simp

lemma update_keeps_inv:
  assumes "dns_store_inv lib st" and "accepted_row lib (v, nullableBytes e)"
    and "store_UpdateDNSCredential fails now v e st = Inr (v', st')"
  shows "dns_store_inv lib st'"
proof -
  note u = store_UpdateDNSCredential_Inr(1-4) [OF assms(3)]
  have ids: "row_ids st' = row_ids st"
    unfolding u(1) row_ids_def by (simp add: updated_row_id)
  have "accepted_row lib row" if "row \<in> set (ds_credentials st')" for row
  proof -
    from that obtain row0 where row0: "row0 \<in> set (ds_credentials st)" "row = updated_row now v e row0"
      by (auto simp: u(1))
    then show ?thesis
      using assms(1,2) by (auto simp: updated_row_def accepted_row_times dns_store_inv_def)
  qed
  moreover have "distinct (map (\<lambda>row. cd_Name (fst row)) (map (updated_row now v e) (ds_credentials st)))"
    by (rule distinct_updated_names)
      (use assms(1) u(3) in \<open>auto simp: dns_store_inv_def row_ids_def row_names_def name_taken_def\<close>)
  then have "distinct (row_names st')" by (simp add: u(1) row_names_def)
  moreover have "references_hold st'"
    using assms(1) ids by (auto simp: references_hold_def dns_store_inv_def u(1))
  ultimately show ?thesis using assms(1) ids by (auto simp: dns_store_inv_def)
qed

lemma delete_keeps_inv:
  assumes "dns_store_inv lib st" and "store_DeleteDNSCredential fails i st = Inr st'"
  shows "dns_store_inv lib st'"
proof -
  have st': "st' = \<lparr>ds_credentials = filter (\<lambda>row. cd_ID (fst row) \<noteq> i) (ds_credentials st),
      ds_certificates = map (detached i) (ds_certificates st)\<rparr>"
    using assms(2) by (auto simp: store_DeleteDNSCredential_def split: if_splits)
  have "distinct (row_ids st')" "distinct (row_names st')"
    using assms(1) by (simp_all add: st' dns_store_inv_def row_ids_def row_names_def distinct_map_filter)
  moreover have ids: "set (row_ids st') = set (row_ids st) - {i}"
    by (auto simp: st' row_ids_def)
  moreover have "references_hold st'"
    using assms(1) unfolding references_hold_def ids
    by (auto simp: st' detached_def dns_store_inv_def references_hold_def)
  moreover have "\<forall>row \<in> set (ds_credentials st'). accepted_row lib row"
    using assms(1) by (simp add: st' dns_store_inv_def)
  ultimately show ?thesis using assms(1) by (simp add: dns_store_inv_def)
qed

lemma find_accepted:
  assumes "dns_store_inv lib st" and "store_DNSCredential i st = Inr (v, e)"
  shows "accepted_row lib (v, nullableBytes e)" and "cd_ID v = i"
proof -
  obtain b where f: "find_credential i (ds_credentials st) = Some (v, b)"
      and e: "e = (case b of None \<Rightarrow> [] | Some e \<Rightarrow> e)"
    using assms(2) by (auto simp: store_DNSCredential_find split: option.splits)
  then have row: "accepted_row lib (v, b)" and "cd_ID v = i"
    using find_credential_Some assms(1) by (auto simp: dns_store_inv_def)
  then show "cd_ID v = i" by blast
  have "accepted_source lib p (v, nullableBytes e)" if "accepted_source lib p (v, b)" for p
    using that e by (cases b) (auto simp: accepted_source_def nullableBytes_def cipher_Decrypt_def nonce_size_def)
  with row show "accepted_row lib (v, nullableBytes e)" by (auto simp: accepted_row_def)
qed

lemma credential_step_inv:
  assumes "credential_step s st st'" and "crypto_lib_ok lib" "se_cipher s = Some lib" "dns_store_inv lib st"
  shows "dns_store_inv lib st'"
  using assms(1)
proof cases
  case (step_create nonce r newID fails now)
  note acc = prepare_accepted [OF assms(2,3) step_create(2,3)]
  show ?thesis
    unfolding step_create(1) credential_Create_def
    using assms(4) create_keeps_inv [OF assms(4) acc(1) step_create(4)]
    by (auto split: sum.splits)
next
  case (step_update nonce r fails now i)
  have "dns_store_inv lib st''" if "prepare s nonce r = Inr (v, e)"
      "store_UpdateDNSCredential fails now (v\<lparr>cd_ID := go_TrimSpace i\<rparr>) e st = Inr (v', st'')" for v e v' st''
    using update_keeps_inv [OF assms(4) _ that(2)] prepare_accepted(1) [OF assms(2,3) step_update(2,3) that(1)]
    by (simp add: accepted_row_times)
  then show ?thesis
    unfolding step_update(1) credential_Update_def using assms(4) by (auto split: sum.splits)
next
  case (step_rename fails now i n)
  have "dns_store_inv lib st''" if "store_DNSCredential (go_TrimSpace i) st = Inr (v, e)"
      "store_UpdateDNSCredential fails now (v\<lparr>cd_Name := go_TrimSpace n\<rparr>) e st = Inr (v', st'')" for v e v' st''
    using update_keeps_inv [OF assms(4) _ that(2)] find_accepted(1) [OF assms(4) that(1)]
    by (simp add: accepted_row_times)
  then show ?thesis
    unfolding step_rename credential_Rename_def Let_def using assms(4) by (auto split: sum.splits)
next
  case (step_delete fails i)
  show ?thesis
    unfolding step_delete credential_Delete_def
    using assms(4) delete_keeps_inv [OF assms(4)] by (auto split: sum.splits)
next
  case (step_certificates rows)
  then show ?thesis using assms(4) by (auto simp: dns_store_inv_def row_ids_def row_names_def)
qed

lemma credential_reachable_inv:
  assumes "credential_reachable s st" "crypto_lib_ok lib" "se_cipher s = Some lib"
  shows "dns_store_inv lib st"
  using assms(1)
  by induction (use credential_step_inv [OF _ assms(2,3)] in
    \<open>auto simp: dns_store_inv_def empty_store_def row_ids_def row_names_def references_hold_def\<close>)

section \<open>Resolved values\<close>

lemma resolve_refs_Inr:
  "resolve_refs lookup refs = Inr env \<Longrightarrow>
     map fst env = map fst refs \<and> (\<forall>(n, v) \<in> set env. v \<noteq> [] \<and> (\<exists>e. (n, e) \<in> set refs \<and> lookup e = Some v))"
proof (induction refs arbitrary: env)
  case (Cons nr refs)
  obtain n e where nr: "nr = (n, e)" by fastforce
  from Cons.prems nr obtain v env' where "lookup e = Some v" "v \<noteq> []" "resolve_refs lookup refs = Inr env'"
    "env = (n, v) # env'"
    by (auto split: option.splits if_splits sum.splits)
  with Cons.IH nr show ?case by fastforce
qed simp

lemma ValidateValues_names:
  assumes "p \<in> set registry" "ValidateValues p vs = None" "(n, v) \<in> set vs"
  shows "ValidateProcessEnvironmentName n = None"
proof (cases "pr_Custom p")
  case True
  with assms(2,3) have "ValidateEnvironmentName n = None"
    by (fastforce simp: ValidateValues_def first_error_None split: option.splits)
  then show ?thesis by (rule ValidateEnvironmentName_process)
next
  case False
  with assms(2,3) have "n \<in> fd_Name ` set (pr_Fields p)"
    by (fastforce simp: ValidateValues_def first_error_None split: option.splits if_splits)
  with assms(1) registry_names show ?thesis by auto
qed

lemma check_references_names:
  assumes "p \<in> set registry" "check_references p refs = None" "(n, e) \<in> set refs"
  shows "ValidateProcessEnvironmentName n = None"
proof -
  have c: "check_reference p (n, e) = None"
    using assms(2,3) by (auto simp: check_references_def first_error_None split: if_splits option.splits)
  show ?thesis
  proof (cases "pr_Custom p")
    case True
    with c show ?thesis
      by (auto simp: check_reference_def ValidateEnvironmentName_process split: option.splits)
  next
    case False
    with c have "n \<in> fd_Name ` set (pr_Fields p)" by (auto simp: check_reference_def split: if_splits)
    with assms(1) registry_names show ?thesis by auto
  qed
qed

lemma resolved_row_ok:
  assumes "accepted_row lib row" "se_cipher s = Some lib" "resolve_row s row = Inr pv"
  shows "ValidateCustomProviderCode (pv_ACMEDNSCode pv) = None"
    and "(n, v) \<in> set (pv_Environment pv) \<Longrightarrow> ValidateProcessEnvironmentName n = None"
proof -
  obtain c b where row: "row = (c, b)" by fastforce
  from assms(1) row obtain p where p: "p \<in> set registry" "accepted_source lib p (c, b)"
      and code_ok: "ValidateCustomProviderCode (cd_ACMEDNSCode c) = None"
    using registry_Get_member by (auto simp: accepted_row_def)
  have pv: "pv_ACMEDNSCode pv = cd_ACMEDNSCode c"
    using assms(3) row by (auto simp: resolve_row_def split: sum.splits)
  then show "ValidateCustomProviderCode (pv_ACMEDNSCode pv) = None" using code_ok by simp
  assume nv: "(n, v) \<in> set (pv_Environment pv)"
  from p(2) consider (enc) e vs where "cd_SourceMode c = ''encrypted''" "b = Some e"
      "cipher_Decrypt lib e = Inr (sort_key fst vs)" "ValidateValues p vs = None"
    | (ref) "cd_SourceMode c = ''environment''" "check_references p (cd_EnvironmentRefs c) = None"
    by (auto simp: accepted_source_def)
  then show "ValidateProcessEnvironmentName n = None"
  proof cases
    case enc
    then have "(n, v) \<in> set vs" using assms(2,3) row nv by (auto simp: resolve_row_def)
    with enc(4) p(1) ValidateValues_names show ?thesis by blast
  next
    case ref
    then have "resolve_refs (se_lookup s) (cd_EnvironmentRefs c) = Inr (pv_Environment pv)"
      using assms(3) row by (auto simp: resolve_row_def split: sum.splits)
    from resolve_refs_Inr [OF this] nv obtain e where "(n, e) \<in> set (cd_EnvironmentRefs c)" by fastforce
    with ref(2) p(1) check_references_names show ?thesis by blast
  qed
qed

end
