(* ===== verification/Scheduler_Controller.thy ===== *)
theory Scheduler_Controller
  imports Js_Text
begin

text \<open>
  \<open>internal/scheduler/controller.go\<close>: the renewal schedule that can be replaced while the server runs.
  A cron instance is a number, the place of its policy in the list of built instances. Requests that
  replace the policy and renewal scans are tasks; a task does one step at a time, where a step is what
  happens under one lock or in one call to the store, so that tasks interleave as goroutines do.

  Which expressions and time zones are valid is decided by \<open>robfig/cron\<close> and by \<open>time.LoadLocation\<close>;
  they are the parameter \<open>cron_lib\<close>.
\<close>

section \<open>Policies\<close>

record policy =
  po_Enabled :: bool
  po_CronExpression :: string
  po_Timezone :: string
  po_MaxConcurrency :: int
  po_RetryCount :: int
  po_RetryIntervalSeconds :: int
  po_UpdatedAt :: int

record cron_lib =
  rl_Parse :: "string \<Rightarrow> bool"
  rl_LoadLocation :: "string \<Rightarrow> bool"

definition validatePolicy :: "cron_lib \<Rightarrow> policy \<Rightarrow> bool" where
  "validatePolicy lib p \<longleftrightarrow>
     (if po_CronExpression p = [] \<or> po_Timezone p = [] \<or> po_MaxConcurrency p < 1 \<or> po_MaxConcurrency p > 16
         \<or> po_RetryCount p < 0 \<or> po_RetryCount p > 10
         \<or> po_RetryIntervalSeconds p < 1 \<or> po_RetryIntervalSeconds p > 86400 then False
      else if \<not> rl_LoadLocation lib (po_Timezone p) then False
      else rl_Parse lib (po_CronExpression p))"

section \<open>The controller\<close>

text \<open>
  A request to replace the policy writes the row, starts the new instance, puts it in place and stops
  the old one. A scan holds \<open>runMu\<close>; it reads the policy, runs, and records how it ended. The
  flag of a scan says that a cron instance started it.
\<close>

datatype task =
    UpdateStore policy nat | UpdateStart policy nat | UpdateSwap policy nat | UpdateStop "nat option" | UpdateFailed
  | ScanBegin bool | ScanRun bool policy
  | Ended

record controller =
  ct_stored :: policy
  ct_instances :: "policy list"
  ct_running :: "nat list"
  ct_cron :: "nat option"
  ct_policy :: policy
  ct_lastRun :: "int option"
  ct_lastError :: string
  ct_runMu :: bool
  ct_active :: int
  ct_tasks :: "task list"
  ct_canceled :: bool

text \<open>\<open>build\<close>: a checked policy gets an instance that is not started yet.\<close>

definition controller_build :: "cron_lib \<Rightarrow> policy \<Rightarrow> controller \<Rightarrow> (nat \<times> controller) option" where
  "controller_build lib p s =
     (if \<not> validatePolicy lib p then None
      else Some (length (ct_instances s), s\<lparr>ct_instances := ct_instances s @ [p]\<rparr>))"

definition newController :: "policy \<Rightarrow> controller" where
  "newController stored = \<lparr>ct_stored = stored, ct_instances = [], ct_running = [], ct_cron = None,
     ct_policy = \<lparr>po_Enabled = False, po_CronExpression = [], po_Timezone = [], po_MaxConcurrency = 0, po_RetryCount = 0,
       po_RetryIntervalSeconds = 0, po_UpdatedAt = 0\<rparr>,
     ct_lastRun = None, ct_lastError = [], ct_runMu = False, ct_active = 0, ct_tasks = [], ct_canceled = False\<rparr>"

definition controller_Start :: "cron_lib \<Rightarrow> controller \<Rightarrow> controller option" where
  "controller_Start lib s =
     (case controller_build lib (ct_stored s) s of
        None \<Rightarrow> None
      | Some (k, s') \<Rightarrow>
          Some (s'\<lparr>ct_running := k # ct_running s', ct_cron := Some k, ct_policy := ct_stored s'\<rparr>))"

definition controller_Update :: "cron_lib \<Rightarrow> policy \<Rightarrow> controller \<Rightarrow> controller" where
  "controller_Update lib p s =
     (case controller_build lib p s of
        None \<Rightarrow> s\<lparr>ct_tasks := ct_tasks s @ [UpdateFailed]\<rparr>
      | Some (k, s') \<Rightarrow> s'\<lparr>ct_tasks := ct_tasks s' @ [UpdateStore p k]\<rparr>)"

definition controller_RunNow :: "controller \<Rightarrow> bool \<times> controller" where
  "controller_RunNow s =
     (if ct_runMu s then (False, s)
      else (True, s\<lparr>ct_runMu := True, ct_tasks := ct_tasks s @ [ScanBegin False]\<rparr>))"

text \<open>The function added to an instance: it runs a scan unless one is running.\<close>

definition cron_fires :: "controller \<Rightarrow> controller" where
  "cron_fires s =
     (if ct_runMu s then s
      else s\<lparr>ct_runMu := True, ct_tasks := ct_tasks s @ [ScanBegin True]\<rparr>)"

definition controller_Stop :: "controller \<Rightarrow> controller" where
  "controller_Stop s = s\<lparr>ct_canceled := True, ct_cron := None,
     ct_running := (case ct_cron s of None \<Rightarrow> ct_running s | Some k \<Rightarrow> removeAll k (ct_running s))\<rparr>"

text \<open>\<open>Status\<close> and \<open>Policy\<close>; the next run is the cron library's, for an enabled instance.\<close>

record status_report =
  sr_Running :: bool
  sr_LastRunAt :: "int option"
  sr_HasNext :: bool
  sr_LastError :: string
  sr_ActiveRuns :: int

definition controller_Status :: "controller \<Rightarrow> status_report" where
  "controller_Status s = \<lparr>sr_Running = ct_cron s \<noteq> None, sr_LastRunAt = ct_lastRun s,
     sr_HasNext = (case ct_cron s of None \<Rightarrow> False | Some k \<Rightarrow> po_Enabled (ct_instances s ! k)),
     sr_LastError = ct_lastError s, sr_ActiveRuns = ct_active s\<rparr>"

section \<open>Steps of tasks\<close>

text \<open>
  What the surroundings decide for one step: whether the store fails, the time, how the scan ends
  (\<open>None\<close>: it panics).
\<close>

record chance =
  ch_fails :: bool
  ch_now :: int
  ch_scan :: "string option"

fun task_step :: "chance \<Rightarrow> task \<Rightarrow> controller \<Rightarrow> task \<times> controller" where
  "task_step ch (UpdateStore p k) s =
     (if ch_fails ch then (UpdateFailed, s)
      else (UpdateStart p k, s\<lparr>ct_stored := p\<lparr>po_UpdatedAt := ch_now ch\<rparr>\<rparr>))"
| "task_step ch (UpdateStart p k) s = (UpdateSwap p k, s\<lparr>ct_running := k # ct_running s\<rparr>)"
| "task_step ch (UpdateSwap p k) s =
     (UpdateStop (ct_cron s), s\<lparr>ct_cron := Some k, ct_policy := p\<lparr>po_UpdatedAt := ch_now ch\<rparr>\<rparr>)"
| "task_step ch (UpdateStop old) s =
     (Ended, (case old of None \<Rightarrow> s | Some k \<Rightarrow> s\<lparr>ct_running := removeAll k (ct_running s)\<rparr>))"
| "task_step ch (ScanBegin cron) s = (ScanRun cron (ct_policy s), s\<lparr>ct_active := ct_active s + 1\<rparr>)"
| "task_step ch (ScanRun cron p) s =
     (case ch_scan ch of
        None \<Rightarrow> (Ended, s\<lparr>ct_runMu := False\<rparr>)
      | Some message \<Rightarrow>
          (Ended, s\<lparr>ct_runMu := False, ct_active := ct_active s - 1, ct_lastRun := Some (ch_now ch),
             ct_lastError := message\<rparr>))"
| "task_step ch UpdateFailed s = (UpdateFailed, s)"
| "task_step ch Ended s = (Ended, s)"

definition advance_task :: "chance \<Rightarrow> nat \<Rightarrow> controller \<Rightarrow> controller" where
  "advance_task ch j s =
     (let (t, s') = task_step ch (ct_tasks s ! j) s in s'\<lparr>ct_tasks := (ct_tasks s)[j := t]\<rparr>)"

text \<open>
  A panic of a scan that \<open>RunNow\<close> started ends the program (its goroutine has no recovery); one that a
  cron instance started is recovered by the cron library.
\<close>

inductive ctl_step :: "cron_lib \<Rightarrow> controller \<Rightarrow> controller \<Rightarrow> bool" for lib where
  ctl_update: "ctl_step lib s (controller_Update lib p s)"
| ctl_run_now: "ctl_step lib s (snd (controller_RunNow s))"
| ctl_fire: "k \<in> set (ct_running s) \<Longrightarrow> po_Enabled (ct_instances s ! k) \<Longrightarrow> ctl_step lib s (cron_fires s)"
| ctl_task: "j < length (ct_tasks s) \<Longrightarrow> (ch_scan ch = None \<longrightarrow> (\<forall>p. ct_tasks s ! j \<noteq> ScanRun False p)) \<Longrightarrow>
    ctl_step lib s (advance_task ch j s)"

inductive ctl_reach :: "cron_lib \<Rightarrow> policy \<Rightarrow> controller \<Rightarrow> bool" for lib stored where
  ctl_start: "controller_Start lib (newController stored) = Some s \<Longrightarrow> ctl_reach lib stored s"
| ctl_next: "ctl_reach lib stored s \<Longrightarrow> ctl_step lib s s' \<Longrightarrow> ctl_reach lib stored s'"

inductive_cases ctl_stepE: "ctl_step lib s s'"

section \<open>Invariant\<close>

text \<open>Which instance a task is responsible for, which tasks are scans, which are running updates.\<close>

fun task_instance :: "task \<Rightarrow> nat option" where
  "task_instance (UpdateStore p k) = Some k"
| "task_instance (UpdateStart p k) = Some k"
| "task_instance (UpdateSwap p k) = Some k"
| "task_instance (UpdateStop old) = old"
| "task_instance _ = None"

text \<open>The instance of a task that has been started.\<close>

fun task_started :: "task \<Rightarrow> nat option" where
  "task_started (UpdateSwap p k) = Some k"
| "task_started (UpdateStop old) = old"
| "task_started _ = None"

fun task_policy :: "task \<Rightarrow> (policy \<times> nat) option" where
  "task_policy (UpdateStore p k) = Some (p, k)"
| "task_policy (UpdateStart p k) = Some (p, k)"
| "task_policy (UpdateSwap p k) = Some (p, k)"
| "task_policy _ = None"

fun is_scan :: "task \<Rightarrow> bool" where
  "is_scan (ScanBegin _) = True"
| "is_scan (ScanRun _ _) = True"
| "is_scan _ = False"

fun is_update :: "task \<Rightarrow> bool" where
  "is_update (UpdateStore _ _) = True"
| "is_update (UpdateStart _ _) = True"
| "is_update (UpdateSwap _ _) = True"
| "is_update (UpdateStop _) = True"
| "is_update _ = False"

definition same_policy :: "policy \<Rightarrow> policy \<Rightarrow> bool" where
  "same_policy p q \<longleftrightarrow> p\<lparr>po_UpdatedAt := 0\<rparr> = q\<lparr>po_UpdatedAt := 0\<rparr>"

definition one_scan :: "controller \<Rightarrow> bool" where
  "one_scan s \<longleftrightarrow> (\<forall>i < length (ct_tasks s). \<forall>j < length (ct_tasks s).
       is_scan (ct_tasks s ! i) \<longrightarrow> is_scan (ct_tasks s ! j) \<longrightarrow> i = j)
     \<and> (\<forall>i < length (ct_tasks s). is_scan (ct_tasks s ! i) \<longrightarrow> ct_runMu s)"

definition owns :: "task list \<Rightarrow> nat \<Rightarrow> nat \<Rightarrow> bool" where
  "owns ts i k \<longleftrightarrow> i < length ts \<and> task_instance (ts ! i) = Some k"

definition own_instances :: "controller \<Rightarrow> bool" where
  "own_instances s \<longleftrightarrow>
     (\<forall>i k. owns (ct_tasks s) i k \<longrightarrow> k < length (ct_instances s) \<and> ct_cron s \<noteq> Some k)
     \<and> (\<forall>i j k. owns (ct_tasks s) i k \<longrightarrow> owns (ct_tasks s) j k \<longrightarrow> i = j)"

definition running_owned :: "controller \<Rightarrow> bool" where
  "running_owned s \<longleftrightarrow> (\<forall>k \<in> set (ct_running s). ct_cron s = Some k
     \<or> (\<exists>t \<in> set (ct_tasks s). task_started t = Some k))
     \<and> (\<forall>p k. UpdateSwap p k \<in> set (ct_tasks s) \<longrightarrow> k \<in> set (ct_running s))
     \<and> (\<exists>k. ct_cron s = Some k \<and> k \<in> set (ct_running s) \<and> k < length (ct_instances s)
          \<and> same_policy (ct_instances s ! k) (ct_policy s))"

definition plans_match :: "controller \<Rightarrow> bool" where
  "plans_match s \<longleftrightarrow> (\<forall>t \<in> set (ct_tasks s). \<forall>p k. task_policy t = Some (p, k) \<longrightarrow> ct_instances s ! k = p)"

definition policies_valid :: "cron_lib \<Rightarrow> controller \<Rightarrow> bool" where
  "policies_valid lib s \<longleftrightarrow> validatePolicy lib (ct_policy s) \<and> validatePolicy lib (ct_stored s)
     \<and> (\<forall>p \<in> set (ct_instances s). validatePolicy lib p)
     \<and> (\<forall>t \<in> set (ct_tasks s). (\<forall>p k. task_policy t = Some (p, k) \<longrightarrow> validatePolicy lib p)
          \<and> (\<forall>b p. t = ScanRun b p \<longrightarrow> validatePolicy lib p))"

definition ctl_inv :: "cron_lib \<Rightarrow> controller \<Rightarrow> bool" where
  "ctl_inv lib s \<longleftrightarrow> one_scan s \<and> own_instances s \<and> running_owned s \<and> plans_match s \<and> policies_valid lib s"

lemma validate_time [simp]: "validatePolicy lib (p\<lparr>po_UpdatedAt := t\<rparr>) = validatePolicy lib p"
  by (simp add: validatePolicy_def)

lemma same_policy_simps [simp]:
  "same_policy p p" "same_policy p (q\<lparr>po_UpdatedAt := t\<rparr>) = same_policy p q"
  "same_policy (p\<lparr>po_UpdatedAt := t\<rparr>) q = same_policy p q"
  by (simp_all add: same_policy_def)

lemma start_inv:
  assumes "controller_Start lib (newController stored) = Some s"
  shows "ctl_inv lib s"
  using assms
  by (auto simp: controller_Start_def newController_def controller_build_def ctl_inv_def one_scan_def own_instances_def
      owns_def running_owned_def plans_match_def policies_valid_def split: if_splits)

section \<open>Preservation\<close>

lemma nth_append_task: "j < length (ts @ [t]) \<Longrightarrow> (ts @ [t]) ! j = (if j < length ts then ts ! j else t)"
  by (auto simp: nth_append less_Suc_eq)

lemma owns_append:
  "owns (ts @ [t]) i k \<longleftrightarrow> owns ts i k \<or> i = length ts \<and> task_instance t = Some k"
  by (auto simp: owns_def nth_append less_Suc_eq)

lemma owns_update:
  "j < length ts \<Longrightarrow> owns (ts[j := t]) i k \<longleftrightarrow> (if i = j then task_instance t = Some k else owns ts i k)"
  by (auto simp: owns_def nth_list_update)

lemma owns_policy: "t \<in> set ts \<Longrightarrow> task_policy t = Some (p, k) \<Longrightarrow> \<exists>i. owns ts i k"
  by (cases t) (auto simp: owns_def in_set_conv_nth) 

lemma update_failed_inv:
  assumes "ctl_inv lib s"
  shows "ctl_inv lib (s\<lparr>ct_tasks := ct_tasks s @ [UpdateFailed]\<rparr>)"
proof -
  let ?s = "s\<lparr>ct_tasks := ct_tasks s @ [UpdateFailed]\<rparr>"
  have "one_scan ?s" using assms by (simp add: ctl_inv_def one_scan_def nth_append_task)
  moreover have "own_instances ?s" using assms by (simp add: ctl_inv_def own_instances_def owns_append)
  moreover have "running_owned ?s" using assms by (auto simp: ctl_inv_def running_owned_def)
  moreover have "plans_match ?s" "policies_valid lib ?s" using assms by (auto simp: ctl_inv_def plans_match_def policies_valid_def)
  ultimately show ?thesis unfolding ctl_inv_def by blast
qed

lemma update_inv:
  assumes "ctl_inv lib s"
  shows "ctl_inv lib (controller_Update lib p s)"
proof (cases "validatePolicy lib p")
  case False
  with update_failed_inv [OF assms] show ?thesis by (simp add: controller_Update_def controller_build_def)
next
  case True
  let ?n = "length (ct_instances s)"
  let ?s = "s\<lparr>ct_instances := ct_instances s @ [p], ct_tasks := ct_tasks s @ [UpdateStore p ?n]\<rparr>"
  have eq: "controller_Update lib p s = ?s" using True by (simp add: controller_Update_def controller_build_def)
  have o: "k < ?n \<and> ct_cron s \<noteq> Some k" "owns (ct_tasks s) j k \<Longrightarrow> i = j" if "owns (ct_tasks s) i k" for i j k
    using assms that by (auto simp: ctl_inv_def own_instances_def)
  have cron: "ct_cron s \<noteq> Some ?n" using assms by (auto simp: ctl_inv_def running_owned_def)
  have "one_scan ?s" using assms by (simp add: ctl_inv_def one_scan_def nth_append_task)
  moreover have "own_instances ?s"
    using o cron by (fastforce simp: own_instances_def owns_append)
  moreover have "running_owned ?s" using assms by (auto simp: ctl_inv_def running_owned_def nth_append)
  moreover have "plans_match ?s"
    using assms o(1) owns_policy by (fastforce simp: ctl_inv_def plans_match_def nth_append)
  moreover have "policies_valid lib ?s" using assms True by (auto simp: ctl_inv_def policies_valid_def)
  ultimately show ?thesis unfolding eq ctl_inv_def by blast
qed

lemma scan_inv:
  assumes "ctl_inv lib s" "\<not> ct_runMu s"
  shows "ctl_inv lib (s\<lparr>ct_runMu := True, ct_tasks := ct_tasks s @ [ScanBegin b]\<rparr>)"
proof -
  let ?s = "s\<lparr>ct_runMu := True, ct_tasks := ct_tasks s @ [ScanBegin b]\<rparr>"
  have "\<forall>i < length (ct_tasks s). \<not> is_scan (ct_tasks s ! i)" using assms by (auto simp: ctl_inv_def one_scan_def)
  then have "one_scan ?s" by (auto simp: one_scan_def nth_append_task)
  moreover have "own_instances ?s" using assms by (simp add: ctl_inv_def own_instances_def owns_append)
  moreover have "running_owned ?s" using assms by (auto simp: ctl_inv_def running_owned_def)
  moreover have "plans_match ?s" "policies_valid lib ?s" using assms by (auto simp: ctl_inv_def plans_match_def policies_valid_def)
  ultimately show ?thesis unfolding ctl_inv_def by blast
qed

text \<open>A step of one task, property by property.\<close>

lemma advance_one_scan:
  assumes "one_scan s" "j < length (ct_tasks s)"
  shows "one_scan (advance_task ch j s)"
  using assms unfolding one_scan_def advance_task_def
  by (cases "ct_tasks s ! j") (auto simp: nth_list_update split: option.splits)

lemma advance_own_instances:
  assumes "own_instances s" "j < length (ct_tasks s)" and "\<exists>k < length (ct_instances s). ct_cron s = Some k"
  shows "own_instances (advance_task ch j s)"
proof -
  obtain t s' where step: "task_step ch (ct_tasks s ! j) s = (t, s')" by fastforce
  have adv: "advance_task ch j s = s'\<lparr>ct_tasks := (ct_tasks s)[j := t]\<rparr>" by (simp add: advance_task_def step)
  have o: "k < length (ct_instances s) \<and> ct_cron s \<noteq> Some k" "owns (ct_tasks s) l k \<Longrightarrow> i = l"
    if "owns (ct_tasks s) i k" for i l k
    using assms(1) that by (auto simp: own_instances_def)
  have oj: "task_instance (ct_tasks s ! j) = Some k \<Longrightarrow> owns (ct_tasks s) j k" for k
    using assms(2) by (simp add: owns_def)
  have inst: "ct_instances s' = ct_instances s"
    using step by (cases "ct_tasks s ! j") (auto split: if_splits option.splits)
  show ?thesis
  proof (cases "\<exists>p k. ct_tasks s ! j = UpdateSwap p k")
    case True
    then obtain p k where "ct_tasks s ! j = UpdateSwap p k" by blast
    with step have "t = UpdateStop (ct_cron s)" "ct_cron s' = Some k" "owns (ct_tasks s) j k" using oj by auto
    with o assms(2,3) show ?thesis
      unfolding own_instances_def adv by (auto simp: owns_update inst split: if_splits)
  next
    case False
    with step have cron: "ct_cron s' = ct_cron s"
      and ti: "\<And>k. task_instance t = Some k \<Longrightarrow> task_instance (ct_tasks s ! j) = Some k"
      by (cases "ct_tasks s ! j"; auto split: if_splits option.splits)+
    have "owns (ct_tasks s) i k" if "owns ((ct_tasks s)[j := t]) i k" for i k
      using that ti oj assms(2) by (auto simp: owns_update split: if_splits)
    with o show ?thesis unfolding own_instances_def adv by (simp add: inst cron) blast
  qed
qed

lemma advance_plans:
  assumes "plans_match s" "j < length (ct_tasks s)"
  shows "plans_match (advance_task ch j s)"
proof -
  have j: "ct_tasks s ! j \<in> set (ct_tasks s)" using assms(2) by simp
  show ?thesis
    using assms j unfolding plans_match_def advance_task_def
    by (cases "ct_tasks s ! j") (auto dest!: set_update_subset_insert [THEN subsetD] split: option.splits)
qed

lemma advance_valid:
  assumes "policies_valid lib s" "j < length (ct_tasks s)"
  shows "policies_valid lib (advance_task ch j s)"
proof -
  have j: "ct_tasks s ! j \<in> set (ct_tasks s)" using assms(2) by simp
  show ?thesis
    using assms j unfolding policies_valid_def advance_task_def
    by (cases "ct_tasks s ! j") (auto dest!: set_update_subset_insert [THEN subsetD] split: option.splits)
qed

lemma updated_tasks:
  assumes "j < length ts" and "x \<in> set (ts[j := t])"
  shows "x = t \<or> (\<exists>i < length ts. i \<noteq> j \<and> x = ts ! i)"
  using assms by (auto simp: in_set_conv_nth nth_list_update split: if_splits)

lemma kept_task: "i < length ts \<Longrightarrow> i \<noteq> j \<Longrightarrow> ts ! i \<in> set (ts[j := t])"
  by (metis length_list_update nth_list_update_neq nth_mem)

lemma advance_running:
  assumes inv: "own_instances s" "running_owned s" "plans_match s" and j: "j < length (ct_tasks s)"
  shows "running_owned (advance_task ch j s)"
proof -
  have other: "\<exists>t' \<in> set ((ct_tasks s)[j := t]). task_started t' = Some k"
    if a: "t0 \<in> set (ct_tasks s)" "task_started t0 = Some k" "task_started (ct_tasks s ! j) \<noteq> Some k" for t t0 k
  proof -
    obtain i where i: "i < length (ct_tasks s)" "t0 = ct_tasks s ! i" using a(1) by (auto simp: in_set_conv_nth)
    with a(2,3) have "i \<noteq> j" by auto
    with i a(2) kept_task show ?thesis by metis
  qed
  have new: "t \<in> set ((ct_tasks s)[j := t])" for t using j by (simp add: set_update_memI)
  have swaps: "k \<in> set (ct_running s) \<and> task_instance (ct_tasks s ! j) \<noteq> Some k"
    if a: "UpdateSwap p k \<in> set ((ct_tasks s)[j := t])" "t \<noteq> UpdateSwap p k" for p k t
  proof -
    obtain i where i: "i < length (ct_tasks s)" "i \<noteq> j" "UpdateSwap p k = ct_tasks s ! i"
      using updated_tasks [OF j a(1)] a(2) by auto
    have "owns (ct_tasks s) i k" "UpdateSwap p k \<in> set (ct_tasks s)"
      using i(1) i(3) [symmetric] nth_mem [OF i(1)] by (simp_all add: owns_def)
    with i(2) j inv(1,2) show ?thesis unfolding own_instances_def running_owned_def owns_def by blast
  qed
  have run: "ct_cron s = Some k \<or> (\<exists>t \<in> set (ct_tasks s). task_started t = Some k)" if "k \<in> set (ct_running s)" for k
    using inv(2) that by (auto simp: running_owned_def)
  obtain k0 where k0: "ct_cron s = Some k0" "k0 \<in> set (ct_running s)" "k0 < length (ct_instances s)"
      "same_policy (ct_instances s ! k0) (ct_policy s)" using inv(2) by (auto simp: running_owned_def)
  have own: "task_instance (ct_tasks s ! j) = Some k \<Longrightarrow> k0 \<noteq> k \<and> k < length (ct_instances s)" for k
    using inv(1) j k0(1) by (auto simp: own_instances_def owns_def)
  have mine: "ct_tasks s ! j = UpdateSwap p k \<Longrightarrow> k \<in> set (ct_running s) \<and> ct_instances s ! k = p" for p k
    using inv(2,3) j nth_mem [OF j] unfolding running_owned_def plans_match_def by (metis task_policy.simps(3))
  show ?thesis
  proof (cases "ct_tasks s ! j")
    case (UpdateStart p k)
    have "\<exists>t' \<in> set ((ct_tasks s)[j := UpdateSwap p k]). task_started t' = Some i"
      if "i \<in> insert k (set (ct_running s))" "i \<noteq> k0" for i
    proof (cases "i = k")
      case True
      then show ?thesis using new [of "UpdateSwap p k"] by (intro bexI) auto
    next
      case False
      with run [of i] k0(1) other that UpdateStart show ?thesis by auto
    qed
    moreover have "k' \<in> insert k (set (ct_running s))" if "UpdateSwap q k' \<in> set ((ct_tasks s)[j := UpdateSwap p k])" for q k'
      using swaps [OF that] by auto
    ultimately show ?thesis
      using UpdateStart k0 by (auto simp: advance_task_def running_owned_def)
  next
    case (UpdateSwap p k)
    have "\<exists>t' \<in> set ((ct_tasks s)[j := UpdateStop (ct_cron s)]). task_started t' = Some i"
      if "i \<in> set (ct_running s)" "i \<noteq> k" for i
    proof (cases "i = k0")
      case True
      then show ?thesis using new [of "UpdateStop (ct_cron s)"] k0(1) by (intro bexI) auto
    next
      case False
      with run [OF that(1)] k0(1) other that(2) UpdateSwap show ?thesis by auto
    qed
    then show ?thesis
      using UpdateSwap mine own swaps by (auto simp: advance_task_def running_owned_def)
  next
    case (UpdateStop old)
    have "\<exists>t' \<in> set ((ct_tasks s)[j := Ended]). task_started t' = Some i"
      if "i \<in> set (ct_running s)" "i \<noteq> k0" "old \<noteq> Some i" for i
      using run [OF that(1)] k0(1) other that(2,3) UpdateStop by auto
    then show ?thesis
      using UpdateStop k0 own swaps by (cases old) (auto simp: advance_task_def running_owned_def)
  qed (use k0 run other swaps in \<open>fastforce simp: advance_task_def running_owned_def split: option.splits\<close>)+
qed

lemma ctl_step_inv:
  assumes "ctl_step lib s s'" "ctl_inv lib s"
  shows "ctl_inv lib s'"
  using assms(1)
proof cases
  case (ctl_update p)
  then show ?thesis using update_inv [OF assms(2)] by simp
next
  case ctl_run_now
  then show ?thesis using scan_inv [OF assms(2), of False] assms(2) by (auto simp: controller_RunNow_def)
next
  case (ctl_fire k)
  then show ?thesis using scan_inv [OF assms(2), of True] assms(2) by (auto simp: cron_fires_def)
next
  case (ctl_task j ch)
  have cron: "\<exists>k < length (ct_instances s). ct_cron s = Some k"
    using assms(2) by (auto simp: ctl_inv_def running_owned_def)
  show ?thesis
    using assms(2) unfolding ctl_task(1) ctl_inv_def
    by (intro conjI advance_one_scan advance_own_instances advance_running advance_plans advance_valid ctl_task(2) cron)
      blast+
qed

lemma ctl_reach_inv: "ctl_reach lib stored s \<Longrightarrow> ctl_inv lib s"
  by (induction rule: ctl_reach.induct) (auto intro: start_inv ctl_step_inv)

section \<open>Properties\<close>

text \<open>
  C15. At most one renewal scan runs at any time, whoever started it: cron instances, replaced ones
  included, and requests to run now; while one runs, a request to run now is refused; and a scan runs
  with a policy that passed the check.
\<close>

theorem one_renewal_scan_at_a_time:
  assumes "ctl_reach lib stored s"
    and "i < length (ct_tasks s)" "j < length (ct_tasks s)" "is_scan (ct_tasks s ! i)" "is_scan (ct_tasks s ! j)"
  shows "i = j \<and> controller_RunNow s = (False, s)
    \<and> (\<forall>b p. ct_tasks s ! i = ScanRun b p \<longrightarrow> validatePolicy lib p)"
proof -
  have inv: "ctl_inv lib s" by (rule ctl_reach_inv [OF assms(1)])
  then have "i = j" "ct_runMu s" using assms(2-5) by (auto simp: ctl_inv_def one_scan_def)
  moreover have "validatePolicy lib p" if "ct_tasks s ! i = ScanRun b p" for b p
    using inv that nth_mem [OF assms(2)] unfolding ctl_inv_def policies_valid_def by metis
  ultimately show ?thesis by (simp add: controller_RunNow_def)
qed

definition daily_policy :: "string \<Rightarrow> policy" where
  "daily_policy expression = \<lparr>po_Enabled = True, po_CronExpression = expression, po_Timezone = ''UTC'', po_MaxConcurrency = 2,
     po_RetryCount = 1, po_RetryIntervalSeconds = 10, po_UpdatedAt = 0\<rparr>"

definition any_cron :: cron_lib where
  "any_cron = \<lparr>rl_Parse = (\<lambda>s. s \<noteq> ''bad''), rl_LoadLocation = (\<lambda>_. True)\<rparr>"

definition started_controller :: controller where
  "started_controller = the (controller_Start any_cron (newController (daily_policy ''0 3 * * *'')))"

definition calm :: chance where
  "calm = \<lparr>ch_fails = False, ch_now = 7, ch_scan = Some []\<rparr>"

lemma started_some: "controller_Start any_cron (newController (daily_policy ''0 3 * * *'')) = Some started_controller"
  by (simp add: started_controller_def controller_Start_def controller_build_def newController_def validatePolicy_def
      any_cron_def daily_policy_def)

lemma started_reach: "ctl_reach any_cron (daily_policy ''0 3 * * *'') started_controller"
  by (rule ctl_start [OF started_some])

theorem one_renewal_scan_at_a_time_witness:
  "\<exists>s. is_scan (ct_tasks s ! 0) \<and> controller_RunNow s = (False, s)"
proof -
  let ?s = "snd (controller_RunNow started_controller)"
  have reach: "ctl_reach any_cron (daily_policy ''0 3 * * *'') ?s"
    by (rule ctl_next [OF started_reach ctl_run_now])
  have l: "0 < length (ct_tasks ?s)" and sc: "is_scan (ct_tasks ?s ! 0)" by code_simp+
  from one_renewal_scan_at_a_time [OF reach l l sc sc] sc show ?thesis by blast
qed

text \<open>
  C19. Replacing the schedule leaves exactly one in force: whenever no request to replace it is under
  way, whatever replacements overlapped before and whether they failed, the one cron instance that can
  start scans is the installed one, and it was built from the policy that the server shows.
\<close>

theorem one_schedule_in_force:
  assumes "ctl_reach lib stored s" and "\<forall>t \<in> set (ct_tasks s). \<not> is_update t"
  shows "\<exists>k. ct_cron s = Some k \<and> set (ct_running s) = {k} \<and> same_policy (ct_instances s ! k) (ct_policy s)"
proof -
  have owned: "running_owned s" using ctl_reach_inv [OF assms(1)] by (simp add: ctl_inv_def)
  moreover have "task_started t = None" if "t \<in> set (ct_tasks s)" for t
    using assms(2) that by (cases t) auto
  ultimately have run: "\<forall>i \<in> set (ct_running s). ct_cron s = Some i" unfolding running_owned_def by force
  obtain k where k: "ct_cron s = Some k" "k \<in> set (ct_running s)" "same_policy (ct_instances s ! k) (ct_policy s)"
    using owned unfolding running_owned_def by blast
  have "i = k" if "i \<in> set (ct_running s)" for i using run that k(1) by (metis option.inject)
  with k show ?thesis by blast
qed

text \<open>Two requests whose steps overlap: the first one writes its row and is then overtaken.\<close>

definition overtaken :: controller where
  "overtaken = fold (advance_task calm) [0, 1, 1, 1, 1, 0, 0, 0]
     (controller_Update any_cron (daily_policy ''0 5 * * *'')
       (controller_Update any_cron (daily_policy ''0 4 * * *'') started_controller))"

lemma length_advance [simp]: "length (ct_tasks (advance_task ch j s)) = length (ct_tasks s)"
  by (simp add: advance_task_def split: prod.splits)

lemma advances_reach:
  "ctl_reach lib stored s \<Longrightarrow> \<forall>j \<in> set js. j < length (ct_tasks s) \<Longrightarrow> ch_scan ch \<noteq> None \<Longrightarrow>
     ctl_reach lib stored (fold (advance_task ch) js s)"
proof (induction js arbitrary: s)
  case (Cons j js)
  have "ctl_step lib s (advance_task ch j s)" by (rule ctl_task) (use Cons.prems in auto)
  then show ?case using Cons ctl_next by simp
qed simp

lemma overtaken_reach: "ctl_reach any_cron (daily_policy ''0 3 * * *'') overtaken"
  unfolding overtaken_def
  by (intro advances_reach ctl_next [OF ctl_next [OF started_reach ctl_update] ctl_update]) code_simp+

theorem one_schedule_in_force_witness:
  "ct_cron overtaken = Some 1 \<and> set (ct_running overtaken) = {1}"
proof -
  have "\<forall>t \<in> set (ct_tasks overtaken). \<not> is_update t" and c: "ct_cron overtaken = Some 1" by code_simp+
  from one_schedule_in_force [OF overtaken_reach this(1)] c show ?thesis by auto
qed

text \<open>
  C34. The policy in the database and the one in force can differ for good: when two requests to
  replace the policy overlap, the first to write the database can be the last to install its schedule.
  Both requests succeed, nothing is under way any more, the server shows and runs the first policy,
  and the database holds the second one, which takes over at the next start.
\<close>

theorem overlapping_updates_disagree_with_the_store:
  "ctl_reach any_cron (daily_policy ''0 3 * * *'') overtaken
    \<and> ct_tasks overtaken = [Ended, Ended]
    \<and> po_CronExpression (ct_policy overtaken) = ''0 4 * * *''
    \<and> po_CronExpression (ct_stored overtaken) = ''0 5 * * *''"
  using overtaken_reach by (intro conjI) (assumption, code_simp+)

section \<open>One request at a time\<close>

text \<open>Runs in which a request to replace the policy is made only when no other is under way.\<close>

inductive ctl_calm_reach :: "cron_lib \<Rightarrow> policy \<Rightarrow> controller \<Rightarrow> bool" for lib stored where
  calm_start: "controller_Start lib (newController stored) = Some s \<Longrightarrow> ctl_calm_reach lib stored s"
| calm_update: "ctl_calm_reach lib stored s \<Longrightarrow> \<forall>t \<in> set (ct_tasks s). \<not> is_update t \<Longrightarrow>
    ctl_calm_reach lib stored (controller_Update lib p s)"
| calm_run_now: "ctl_calm_reach lib stored s \<Longrightarrow> ctl_calm_reach lib stored (snd (controller_RunNow s))"
| calm_fire: "ctl_calm_reach lib stored s \<Longrightarrow> ctl_calm_reach lib stored (cron_fires s)"
| calm_task: "ctl_calm_reach lib stored s \<Longrightarrow> j < length (ct_tasks s) \<Longrightarrow> ctl_calm_reach lib stored (advance_task ch j s)"

text \<open>What a running update has done so far.\<close>

fun stored_so_far :: "task \<Rightarrow> policy \<Rightarrow> policy \<Rightarrow> bool" where
  "stored_so_far (UpdateStart p k) memory store = same_policy p store"
| "stored_so_far (UpdateSwap p k) memory store = same_policy p store"
| "stored_so_far _ memory store = same_policy memory store"

definition calm_inv :: "controller \<Rightarrow> bool" where
  "calm_inv s \<longleftrightarrow> (\<forall>i j. i < length (ct_tasks s) \<longrightarrow> j < length (ct_tasks s) \<longrightarrow>
       is_update (ct_tasks s ! i) \<longrightarrow> is_update (ct_tasks s ! j) \<longrightarrow> i = j)
     \<and> (\<forall>t \<in> set (ct_tasks s). is_update t \<longrightarrow> stored_so_far t (ct_policy s) (ct_stored s))
     \<and> ((\<forall>t \<in> set (ct_tasks s). \<not> is_update t) \<longrightarrow> same_policy (ct_policy s) (ct_stored s))"

lemma same_policy_sym: "same_policy p q \<Longrightarrow> same_policy q p"
  by (simp add: same_policy_def)

lemma calm_append:
  assumes "calm_inv s" "\<not> is_update t"
  shows "calm_inv (s\<lparr>ct_tasks := ct_tasks s @ [t]\<rparr>)"
  using assms by (auto simp: calm_inv_def nth_append_task)

lemma calm_update_inv:
  assumes "calm_inv s" "\<forall>t \<in> set (ct_tasks s). \<not> is_update t"
  shows "calm_inv (controller_Update lib p s)"
proof (cases "validatePolicy lib p")
  case False
  then show ?thesis using calm_append [OF assms(1), of UpdateFailed] by (simp add: controller_Update_def controller_build_def)
next
  case True
  have "\<not> is_update (ct_tasks s ! i)" if "i < length (ct_tasks s)" for i using assms(2) that by simp
  moreover have "same_policy (ct_policy s) (ct_stored s)" using assms by (simp add: calm_inv_def)
  ultimately show ?thesis
    using True assms(2) by (auto simp: controller_Update_def controller_build_def calm_inv_def nth_append_task)
qed

lemma calm_advance_inv:
  assumes "calm_inv s" "j < length (ct_tasks s)"
  shows "calm_inv (advance_task ch j s)"
proof -
  obtain t s' where step: "task_step ch (ct_tasks s ! j) s = (t, s')" by fastforce
  have adv: "advance_task ch j s = s'\<lparr>ct_tasks := (ct_tasks s)[j := t]\<rparr>" by (simp add: advance_task_def step)
  have tj: "ct_tasks s ! j \<in> set (ct_tasks s)" using assms(2) by simp
  have mono: "is_update t \<Longrightarrow> is_update (ct_tasks s ! j)"
    using step by (cases "ct_tasks s ! j") (auto split: if_splits option.splits)
  have upd: "i = j" if "is_update (ct_tasks s ! j)" "i < length (ct_tasks s)" "is_update (ct_tasks s ! i)" for i
    using assms that unfolding calm_inv_def by blast
  have unique: "\<forall>i k. i < length (ct_tasks s) \<longrightarrow> k < length (ct_tasks s) \<longrightarrow>
      is_update ((ct_tasks s)[j := t] ! i) \<longrightarrow> is_update ((ct_tasks s)[j := t] ! k) \<longrightarrow> i = k"
    using assms mono unfolding calm_inv_def by (simp add: nth_list_update) metis
  show ?thesis
  proof (cases "is_update (ct_tasks s ! j)")
    case True
    have "stored_so_far (ct_tasks s ! j) (ct_policy s) (ct_stored s)" using assms(1) tj True by (simp add: calm_inv_def)
    then have new: "stored_so_far t (ct_policy s') (ct_stored s')" "\<not> is_update t \<Longrightarrow> same_policy (ct_policy s') (ct_stored s')"
      using step True by (cases "ct_tasks s ! j"; auto split: if_splits option.splits intro: same_policy_sym)+
    have "x = t" if "x \<in> set ((ct_tasks s)[j := t])" "is_update x" for x
      using updated_tasks [OF assms(2) that(1)] upd [OF True] that(2) by blast
    moreover have "t \<in> set ((ct_tasks s)[j := t])" using assms(2) by (simp add: set_update_memI)
    ultimately show ?thesis using new unique unfolding calm_inv_def adv by auto
  next
    case False
    then have same: "ct_policy s' = ct_policy s" "ct_stored s' = ct_stored s"
      using step by (cases "ct_tasks s ! j"; auto split: option.splits)+
    have old: "x \<in> set (ct_tasks s)" if "x \<in> set ((ct_tasks s)[j := t])" "is_update x" for x
      using updated_tasks [OF assms(2) that(1)] that(2) mono False nth_mem by blast
    have new: "x \<in> set ((ct_tasks s)[j := t])" if x: "x \<in> set (ct_tasks s)" "is_update x" for x
    proof -
      obtain i where "i < length (ct_tasks s)" "x = ct_tasks s ! i" using x(1) by (auto simp: in_set_conv_nth)
      with x(2) False kept_task show ?thesis by metis
    qed
    show ?thesis using assms(1) same old new unique unfolding calm_inv_def adv by simp blast
  qed
qed

lemma ctl_calm_inv: "ctl_calm_reach lib stored s \<Longrightarrow> calm_inv s"
proof (induction rule: ctl_calm_reach.induct)
  case (calm_start s)
  then show ?case
    by (auto simp: controller_Start_def newController_def controller_build_def calm_inv_def split: if_splits)
next
  case (calm_run_now s)
  then show ?case
    using calm_append [of "s\<lparr>ct_runMu := True\<rparr>" "ScanBegin False"] by (auto simp: controller_RunNow_def calm_inv_def)
next
  case (calm_fire s)
  then show ?case
    using calm_append [of "s\<lparr>ct_runMu := True\<rparr>" "ScanBegin True"] by (auto simp: cron_fires_def calm_inv_def)
qed (auto intro: calm_update_inv calm_advance_inv)

lemma calm_advances:
  "ctl_calm_reach lib stored s \<Longrightarrow> \<forall>j \<in> set js. j < length (ct_tasks s) \<Longrightarrow>
     ctl_calm_reach lib stored (fold (advance_task ch) js s)"
proof (induction js arbitrary: s)
  case (Cons j js)
  then have "ctl_calm_reach lib stored (advance_task ch j s)" by (auto intro: calm_task)
  with Cons show ?case by simp
qed simp

text \<open>
  As long as requests to replace the policy do not overlap, whatever else runs and whichever of
  them fail, the policy in force is the one in the database whenever no request is under way: a
  refused or failed request leaves both unchanged, a successful one changes both.
\<close>

theorem policy_in_force_is_the_stored_one:
  assumes "ctl_calm_reach lib stored s" and "\<forall>t \<in> set (ct_tasks s). \<not> is_update t"
  shows "same_policy (ct_policy s) (ct_stored s)"
  using ctl_calm_inv [OF assms(1)] assms(2) by (simp add: calm_inv_def)

theorem policy_in_force_is_the_stored_one_witness:
  "\<exists>s :: controller. po_CronExpression (ct_policy s) = ''0 4 * * *'' \<and> same_policy (ct_policy s) (ct_stored s)"
proof -
  let ?u = "controller_Update any_cron (daily_policy ''0 4 * * *'') started_controller"
  let ?s = "fold (advance_task calm) [0, 0, 0, 0] ?u"
  have "\<forall>t \<in> set (ct_tasks started_controller). \<not> is_update t" by code_simp
  then have "ctl_calm_reach any_cron (daily_policy ''0 3 * * *'') ?u"
    by (rule calm_update [OF calm_start [OF started_some]])
  then have reach: "ctl_calm_reach any_cron (daily_policy ''0 3 * * *'') ?s"
    by (rule calm_advances) code_simp
  have idle: "\<forall>t \<in> set (ct_tasks ?s). \<not> is_update t" and p: "po_CronExpression (ct_policy ?s) = ''0 4 * * *''"
    by code_simp+
  show ?thesis
    by (rule exI [of _ ?s]) (rule conjI [OF p policy_in_force_is_the_stored_one [OF reach idle]])
qed

end
