(* ===== verification/Admin_Handlers.thy ===== *)
theory Admin_Handlers
  imports Credential_Service Scheduler_Controller
begin

text \<open>
  The handlers for DNS credentials, the renewal schedule and HTTP challenges
  (\<open>internal/httpapi/credentials.go\<close>, \<open>scheduler.go\<close>, \<open>challenge.go\<close>). A handler answers with a
  response and the audit events it records; writing an event may fail, which is only logged. A
  request body arrives decoded, or as \<open>None\<close> when \<open>decodeJSON\<close> refused it. Messages for people are not
  modelled, error codes are.
\<close>

section \<open>Answers\<close>

datatype admin_body =
    CodeBody string | ProvidersBody "provider list" | CredentialsBody "credential list" | CredentialBody credential
  | ValidBody | ReferencesBody "(string \<times> string \<times> string \<times> status) list" | EmptyBody
  | PolicyBody policy status_report | StartedBody

record admin_event =
  ae_type :: string
  ae_result :: string
  ae_detail :: "(string \<times> detail) list"

record admin_answer =
  aa_status :: nat
  aa_body :: admin_body
  aa_events :: "admin_event list"

definition answer :: "nat \<Rightarrow> admin_body \<Rightarrow> admin_event list \<Rightarrow> admin_answer" where
  "answer st b es = \<lparr>aa_status = st, aa_body = b, aa_events = es\<rparr>"

definition internalError :: admin_answer where
  "internalError = answer 500 (CodeBody ''INTERNAL_ERROR'') []"

definition event :: "string \<Rightarrow> string \<Rightarrow> (string \<times> detail) list \<Rightarrow> admin_event" where
  "event t r d = \<lparr>ae_type = t, ae_result = r, ae_detail = d\<rparr>"

section \<open>DNS credentials\<close>

text \<open>What the surroundings decide for a request: random bytes, a failing database, a new id, the time.\<close>

record admin_chance =
  ah_nonce :: "string option"
  ah_fails :: bool
  ah_newID :: string
  ah_now :: int

definition handle_listDNSProviders :: admin_answer where
  "handle_listDNSProviders = answer 200 (ProvidersBody registry) []"

definition handle_listDNSCredentials :: "admin_chance \<Rightarrow> dns_store \<Rightarrow> admin_answer" where
  "handle_listDNSCredentials h st =
     (if ah_fails h then internalError else answer 200 (CredentialsBody (store_DNSCredentials st)) [])"

definition handle_createDNSCredential ::
  "credential_service \<Rightarrow> admin_chance \<Rightarrow> credential_request option \<Rightarrow> dns_store \<Rightarrow> admin_answer \<times> dns_store" where
  "handle_createDNSCredential s h body st =
     (case body of
        None \<Rightarrow> (answer 400 (CodeBody ''INVALID_REQUEST'') [], st)
      | Some r \<Rightarrow>
          (case credential_Create s (ah_nonce h) (ah_fails h) (ah_newID h) (ah_now h) r st of
             (Inl _, st') \<Rightarrow>
               (answer 400 (CodeBody ''DNS_CREDENTIAL_INVALID'')
                  [event ''dns_credential.create'' ''failed'' [(''provider'', DText (rq_Provider r))]], st')
           | (Inr v, st') \<Rightarrow>
               (answer 201 (CredentialBody v)
                  [event ''dns_credential.create'' ''succeeded''
                     [(''credential_id'', DText (cd_ID v)), (''provider'', DText (cd_Provider v))]], st')))"

definition handle_updateDNSCredential ::
  "credential_service \<Rightarrow> admin_chance \<Rightarrow> string \<Rightarrow> credential_request option \<Rightarrow> dns_store \<Rightarrow> admin_answer \<times> dns_store" where
  "handle_updateDNSCredential s h i body st =
     (case body of
        None \<Rightarrow> (answer 400 (CodeBody ''INVALID_REQUEST'') [], st)
      | Some r \<Rightarrow>
          (case (if rq_Provider r = [] then credential_Rename (ah_fails h) (ah_now h) i (rq_Name r) st
                 else credential_Update s (ah_nonce h) (ah_fails h) (ah_now h) i r st) of
             (Inl e, st') \<Rightarrow>
               (if e = CredentialNotFound then answer 404 (CodeBody ''DNS_CREDENTIAL_NOT_FOUND'') []
                else answer 400 (CodeBody ''DNS_CREDENTIAL_INVALID'')
                  [event ''dns_credential.update'' ''failed'' [(''credential_id'', DText i)]], st')
           | (Inr v, st') \<Rightarrow>
               (answer 200 (CredentialBody v)
                  [event ''dns_credential.update'' ''succeeded''
                     [(''credential_id'', DText i), (''provider'', DText (cd_Provider v))]], st')))"

text \<open>A missing cipher makes \<open>Decrypt\<close> panic, which the router turns into an internal error.\<close>

definition handle_testDNSCredential ::
  "credential_service \<Rightarrow> admin_chance \<Rightarrow> string \<Rightarrow> dns_store \<Rightarrow> admin_answer" where
  "handle_testDNSCredential s h i st =
     (case (if ah_fails h then Some CredentialStore else credential_Test s i st) of
        None \<Rightarrow> answer 200 ValidBody [event ''dns_credential.test'' ''succeeded'' [(''credential_id'', DText i)]]
      | Some e \<Rightarrow>
          if e = CredentialNotFound then answer 404 (CodeBody ''DNS_CREDENTIAL_NOT_FOUND'') []
          else if e = NilCipherPanic then internalError
          else answer 400 (CodeBody ''DNS_CREDENTIAL_TEST_FAILED'')
            [event ''dns_credential.test'' ''failed'' [(''credential_id'', DText i)]])"

definition handle_dnsCredentialReferences :: "admin_chance \<Rightarrow> string \<Rightarrow> dns_store \<Rightarrow> admin_answer" where
  "handle_dnsCredentialReferences h i st =
     (if ah_fails h then internalError
      else case store_DNSCredential i st of
        Inl _ \<Rightarrow> answer 404 (CodeBody ''DNS_CREDENTIAL_NOT_FOUND'') []
      | Inr _ \<Rightarrow> answer 200 (ReferencesBody
          (map (\<lambda>v. (cr_ID v, nc_Name v, nc_PrimaryDomain v, nc_Status v))
             (filter (\<lambda>v. nc_DNSCredentialID v = i) (listed_rows (ds_certificates st))))) [])"

definition handle_deleteDNSCredential :: "admin_chance \<Rightarrow> string \<Rightarrow> dns_store \<Rightarrow> admin_answer \<times> dns_store" where
  "handle_deleteDNSCredential h i st =
     (case credential_Delete (ah_fails h) i st of
        (Inl e, st') \<Rightarrow>
          (if e = CredentialNotFound then answer 404 (CodeBody ''DNS_CREDENTIAL_NOT_FOUND'') [] else internalError, st')
      | (Inr _, st') \<Rightarrow>
          (answer 204 EmptyBody [event ''dns_credential.delete'' ''succeeded'' [(''credential_id'', DText i)]], st'))"

datatype admin_call =
    ListProviders | ListCredentials | CreateCredential "credential_request option"
  | UpdateCredential string "credential_request option" | TestCredential string | CredentialReferences string
  | DeleteCredential string

fun admin_serve ::
  "credential_service \<Rightarrow> admin_chance \<Rightarrow> admin_call \<Rightarrow> dns_store \<Rightarrow> admin_answer \<times> dns_store" where
  "admin_serve s h ListProviders st = (handle_listDNSProviders, st)"
| "admin_serve s h ListCredentials st = (handle_listDNSCredentials h st, st)"
| "admin_serve s h (CreateCredential body) st = handle_createDNSCredential s h body st"
| "admin_serve s h (UpdateCredential i body) st = handle_updateDNSCredential s h i body st"
| "admin_serve s h (TestCredential i) st = (handle_testDNSCredential s h i st, st)"
| "admin_serve s h (CredentialReferences i) st = (handle_dnsCredentialReferences h i st, st)"
| "admin_serve s h (DeleteCredential i) st = handle_deleteDNSCredential h i st"

fun admin_run ::
  "credential_service \<Rightarrow> (admin_chance \<times> admin_call) list \<Rightarrow> dns_store \<Rightarrow> admin_answer list \<times> dns_store" where
  "admin_run s [] st = ([], st)"
| "admin_run s ((h, c) # cs) st =
     (let (a, st') = admin_serve s h c st; (as, st'') = admin_run s cs st' in (a # as, st''))"

section \<open>The schedule\<close>

text \<open>
  A request that is not overtaken by another: \<open>Update\<close> runs all its steps. A scan started by the request
  goes on after the answer.
\<close>

definition finish_update :: "chance \<Rightarrow> nat \<Rightarrow> controller \<Rightarrow> controller" where
  "finish_update ch j s = (advance_task ch j ^^ 4) s"

definition handle_getRenewalPolicy :: "controller \<Rightarrow> admin_answer" where
  "handle_getRenewalPolicy s = answer 200 (PolicyBody (ct_policy s) (controller_Status s)) []"

definition handle_updateRenewalPolicy ::
  "cron_lib \<Rightarrow> chance \<Rightarrow> policy option \<Rightarrow> controller \<Rightarrow> admin_answer \<times> controller" where
  "handle_updateRenewalPolicy lib ch body s =
     (case body of
        None \<Rightarrow> (answer 400 (CodeBody ''INVALID_REQUEST'') [], s)
      | Some p \<Rightarrow>
          (let j = length (ct_tasks s); s' = finish_update ch j (controller_Update lib p s);
               failed = event ''renewal_policy.update'' ''failed'' [] in
           if \<not> validatePolicy lib p then (answer 400 (CodeBody ''SCHEDULE_INVALID'') [failed], s')
           else if ct_tasks s' ! j = UpdateFailed then (internalError\<lparr>aa_events := [failed]\<rparr>, s')
           else (answer 200 (PolicyBody (ct_policy s') (controller_Status s'))
             [event ''renewal_policy.update'' ''succeeded''
                [(''enabled'', DBool (po_Enabled p)), (''cron_expression'', DText (po_CronExpression p)),
                 (''timezone'', DText (po_Timezone p))]], s')))"

definition handle_runRenewalNow :: "controller \<Rightarrow> admin_answer \<times> controller" where
  "handle_runRenewalNow s =
     (case controller_RunNow s of
        (False, s') \<Rightarrow>
          (answer 409 (CodeBody ''SCHEDULE_RUN_ACTIVE'') [event ''renewal_scan.run_now'' ''rejected'' []], s')
      | (True, s') \<Rightarrow> (answer 202 StartedBody [event ''renewal_scan.run_now'' ''succeeded'' []], s'))"

section \<open>Challenges\<close>

text \<open>A file system as the handler sees it: directories, regular files with their content, other things.\<close>

datatype seen = SeenDirectory | SeenFile string | SeenOther

definition challengeTokenPattern :: "string \<Rightarrow> bool" where
  "challengeTokenPattern t \<longleftrightarrow> 1 \<le> length t \<and> length t \<le> 128
     \<and> list_all (\<lambda>c. (65 \<le> code c \<and> code c \<le> 90) \<or> is_lower_ascii c \<or> is_digit c \<or> c = CHR ''_'' \<or> c = CHR ''-'') t"

text \<open>The content that is served; the directory is given without a slash at its end. \<open>None\<close> is the answer 404.\<close>

definition acmeHTTPChallenge :: "(string \<Rightarrow> seen option) \<Rightarrow> string \<Rightarrow> string \<Rightarrow> string option" where
  "acmeHTTPChallenge fs dir token =
     (if \<not> challengeTokenPattern token then None
      else case fs dir of
        Some SeenDirectory \<Rightarrow> (case fs (dir @ ''/'' @ token) of Some (SeenFile c) \<Rightarrow> Some c | _ \<Rightarrow> None)
      | _ \<Rightarrow> None)"

end
