(* ===== verification/Engine_Output.thy ===== *)
theory Engine_Output
  imports Js_Text
begin

text \<open>
  What the server keeps of the output of \<open>acme.sh\<close> and \<open>openssl\<close>: the bounded buffers, trimming,
  the redaction of credential values and of TXT challenge values, and the cut to a maximal length
  (\<open>internal/certificate/acmesh/engine.go\<close> 403-446 and 311-317,
  \<open>internal/certificate/selfsigned/engine.go\<close> 181-226). The output of a process need not be text,
  so a value of type \<^typ>\<open>string\<close> is a string of bytes in this theory.

  The lemmas show that a credential value does not occur in what redaction returns, and that the
  later steps (a shorter secret, the TXT pattern, the cut, joining two outputs) do not bring it back.
\<close>

section \<open>Bytes\<close>

abbreviation byte :: "nat \<Rightarrow> char" where
  "byte n \<equiv> char_of n"

text \<open>
  \<open>strings.TrimSpace\<close> removes the code points with the property White Space; these are their UTF-8
  encodings.
\<close>

definition space_encodings :: "string list" where
  "space_encodings = map (\<lambda>n. [byte n]) [9, 10, 11, 12, 13, 32] @
     [[byte 0xC2, byte 0x85], [byte 0xC2, byte 0xA0], [byte 0xE1, byte 0x9A, byte 0x80]] @
     map (\<lambda>n. [byte 0xE2, byte 0x80, byte n])
       [0x80, 0x81, 0x82, 0x83, 0x84, 0x85, 0x86, 0x87, 0x88, 0x89, 0x8A, 0xA8, 0xA9, 0xAF] @
     [[byte 0xE2, byte 0x81, byte 0x9F], [byte 0xE3, byte 0x80, byte 0x80]]"

lemma space_encodings_not_Nil: "e \<in> set space_encodings \<Longrightarrow> e \<noteq> []"
  by (auto simp: space_encodings_def)

function trim_left :: "string list \<Rightarrow> string \<Rightarrow> string" where
  "trim_left es s =
     (case List.find (\<lambda>e. e \<noteq> [] \<and> prefix e s) es of
        None \<Rightarrow> s
      | Some e \<Rightarrow> trim_left es (drop (length e) s))"
  by auto
termination
proof (relation "measure (length \<circ> snd)")
  fix es :: "string list" and s e :: string
  assume "List.find (\<lambda>e. e \<noteq> [] \<and> prefix e s) es = Some e"
  then have "e \<noteq> [] \<and> prefix e s" by (auto dest: find_SomeD)
  then show "((es, drop (length e) s), es, s) \<in> measure (length \<circ> snd)"
    by (auto simp: prefix_def)
qed simp

declare trim_left.simps [simp del]

definition bytes_TrimSpace :: "string \<Rightarrow> string" where
  "bytes_TrimSpace s =
     rev (trim_left (map rev space_encodings) (rev (trim_left space_encodings s)))"

text \<open>
  \<open>strings.ReplaceAll\<close> with a text to replace that is not empty: from left to right, without
  overlaps. (The callers never pass an empty one.)
\<close>

function replaceAll :: "string \<Rightarrow> string \<Rightarrow> string \<Rightarrow> string" where
  "replaceAll old new [] = []"
| "replaceAll old new (c # t) =
     (if old \<noteq> [] \<and> prefix old (c # t) then new @ replaceAll old new (drop (length old) (c # t))
      else c # replaceAll old new t)"
  by pat_completeness auto
termination
  by (relation "measure (\<lambda>(old, new, t). length t)") auto

section \<open>Bounded buffers\<close>

text \<open>
  \<open>boundedBuffer.Write\<close> and \<open>limitedBuffer.Write\<close>: the new contents, and whether the write failed.
  The process's output arrives in pieces, and copying stops at the first write that fails.
\<close>

definition boundedBuffer_Write :: "int \<Rightarrow> string \<Rightarrow> string \<Rightarrow> string \<times> bool" where
  "boundedBuffer_Write limit buffer chunk =
     (let remaining = limit - int (length buffer) in
      if remaining \<le> 0 then (buffer, False)
      else if int (length chunk) > remaining then (buffer @ take (nat remaining) chunk, False)
      else (buffer @ chunk, True))"

fun copy_output :: "int \<Rightarrow> string \<Rightarrow> string list \<Rightarrow> string \<times> bool" where
  "copy_output limit buffer [] = (buffer, True)"
| "copy_output limit buffer (chunk # chunks) =
     (case boundedBuffer_Write limit buffer chunk of
        (buffer', True) \<Rightarrow> copy_output limit buffer' chunks
      | (buffer', False) \<Rightarrow> (buffer', False))"

section \<open>Redaction\<close>

definition redacted :: string where
  "redacted = ''[REDACTED]''"

definition txt_label :: string where
  "txt_label = ''Adding TXT value:''"

text \<open>The class \<open>\s\<close> of Go's regular expressions; a vertical tab is not in it.\<close>

definition re_space :: "char \<Rightarrow> bool" where
  "re_space c \<longleftrightarrow> c \<in> {byte 9, byte 10, byte 12, byte 13, byte 32}"

text \<open>
  \<open>txtChallengeValuePattern.ReplaceAllString\<close>: the label, the white space after it (as much as there
  is), then a value of at least one character that is no white space, which is replaced.
\<close>

function redactTXT :: "string \<Rightarrow> string" where
  "redactTXT [] = []"
| "redactTXT (c # t) =
     (let r = drop (length txt_label) (c # t);
          space = takeWhile re_space r;
          rest = dropWhile re_space r;
          challenge = takeWhile (\<lambda>d. \<not> re_space d) rest
      in if prefix txt_label (c # t) \<and> challenge \<noteq> []
         then txt_label @ space @ redacted @ redactTXT (dropWhile (\<lambda>d. \<not> re_space d) rest)
         else c # redactTXT t)"
  by pat_completeness auto
termination
proof (relation "measure length")
  fix c :: char and t r space rest challenge :: string
  assume r: "r = drop (length txt_label) (c # t)" and "rest = dropWhile re_space r"
  then have "length (dropWhile (\<lambda>d. \<not> re_space d) rest) \<le> length r"
    using length_dropWhile_le le_trans by blast
  also have "\<dots> < length (c # t)" unfolding r by (simp add: txt_label_def)
  finally show "(dropWhile (\<lambda>d. \<not> re_space d) rest, c # t) \<in> measure length" by simp
qed auto

declare redactTXT.simps(2) [simp del]

text \<open>
  The secrets are sorted by length, the longest first. Go's sort is not stable and maps have no order,
  so secrets of the same length come in some order: the statements below hold for every order of
  \<open>variables\<close>.
\<close>

definition redactOutput :: "string \<Rightarrow> string list \<Rightarrow> string" where
  "redactOutput s variables =
     (let secrets = sort_key (\<lambda>v. - int (length v)) (filter (\<lambda>v. v \<noteq> []) variables)
      in redactTXT (fold (\<lambda>secret t. replaceAll secret redacted t) secrets s))"

definition ellipsis :: string where
  "ellipsis = [byte 0xE2, byte 0x80, byte 0xA6]"

definition cut_output :: "int \<Rightarrow> string \<Rightarrow> string" where
  "cut_output limit s = (if int (length s) > limit then take (nat limit) s @ ellipsis else s)"

definition sanitizeOutput :: "string \<Rightarrow> string \<Rightarrow> string" where
  "sanitizeOutput s tempDir = cut_output 4096 (bytes_TrimSpace (replaceAll tempDir ''<temp>'' s))"

section \<open>Buffers keep the beginning of the output\<close>

lemma boundedBuffer_Write_eq:
  assumes "int (length buffer) \<le> limit"
  shows "fst (boundedBuffer_Write limit buffer chunk) = take (nat limit) (buffer @ chunk)"
    and "snd (boundedBuffer_Write limit buffer chunk) \<longleftrightarrow>
      int (length buffer) < limit \<and> int (length (buffer @ chunk)) \<le> limit"
  using assms by (auto simp: boundedBuffer_Write_def Let_def nat_diff_distrib)

lemma copy_output_eq:
  "int (length buffer) \<le> limit \<Longrightarrow>
     fst (copy_output limit buffer chunks) = take (nat limit) (buffer @ concat chunks)"
proof (induction chunks arbitrary: buffer)
  case (Cons chunk chunks)
  obtain b ok where w: "boundedBuffer_Write limit buffer chunk = (b, ok)" by fastforce
  with boundedBuffer_Write_eq [OF Cons.prems, of chunk]
  have b: "b = take (nat limit) (buffer @ chunk)"
    and ok: "ok \<longleftrightarrow> int (length buffer) < limit \<and> int (length (buffer @ chunk)) \<le> limit" by auto
  show ?case
  proof (cases ok)
    case True
    then have "b = buffer @ chunk" using b ok by auto
    with True show ?thesis using Cons.IH [of b] w ok by simp
  next
    case False
    then have "nat limit \<le> length (buffer @ chunk)" using ok Cons.prems by auto
    then show ?thesis using False w b by simp
  qed
qed simp

section \<open>Splices\<close>

text \<open>
  Both kinds of replacement cut pieces out of a text and put \<open>[REDACTED]\<close> in their place. A text
  without brackets that is no part of \<open>REDACTED\<close> can only occur in the result inside a piece that was
  kept, so it occurred before.
\<close>

inductive splices :: "string \<Rightarrow> string \<Rightarrow> string \<Rightarrow> bool" for new :: string where
  splices_Nil: "splices new [] []"
| splices_keep: "splices new t u \<Longrightarrow> splices new (c # t) (c # u)"
| splices_cut: "splices new t u \<Longrightarrow> splices new (x @ t) (new @ u)"

definition unmarked :: "string \<Rightarrow> bool" where
  "unmarked s \<longleftrightarrow> s \<noteq> [] \<and> CHR ''['' \<notin> set s \<and> CHR '']'' \<notin> set s \<and> \<not> sublist s ''REDACTED''"

lemma splices_keep_all: "splices new t u \<Longrightarrow> splices new (k @ t) (k @ u)"
  by (induction k) (auto intro: splices_keep)

lemma splices_replaceAll: "splices new t (replaceAll old new t)"
proof (induction old new t rule: replaceAll.induct)
  case (2 old new c t)
  show ?case
  proof (cases "old \<noteq> [] \<and> prefix old (c # t)")
    case True
    then have "c # t = old @ drop (length old) (c # t)"
      by (metis append_eq_conv_conj prefix_def)
    with True 2(1) splices_cut show ?thesis by (metis replaceAll.simps(2))
  qed (use 2 in \<open>auto intro: splices_keep\<close>)
qed (auto intro: splices_Nil)

lemma splices_redactTXT: "splices redacted t (redactTXT t)"
proof (induction t rule: redactTXT.induct)
  case (2 c t)
  define r where "r = drop (length txt_label) (c # t)"
  define space where "space = takeWhile re_space r"
  define rest where "rest = dropWhile re_space r"
  define v where "v = takeWhile (\<lambda>d. \<not> re_space d) rest"
  define tail where "tail = dropWhile (\<lambda>d. \<not> re_space d) rest"
  have step: "redactTXT (c # t) =
      (if prefix txt_label (c # t) \<and> v \<noteq> [] then txt_label @ space @ redacted @ redactTXT tail
       else c # redactTXT t)"
    unfolding redactTXT.simps(2) [of c t] r_def space_def rest_def v_def tail_def Let_def by simp
  show ?case
  proof (cases "prefix txt_label (c # t) \<and> v \<noteq> []")
    case True
    then have "c # t = txt_label @ r" unfolding r_def by (metis append_eq_conv_conj prefix_def)
    also have "r = space @ v @ tail" by (simp add: space_def rest_def v_def tail_def)
    finally have "c # t = (txt_label @ space) @ v @ tail" by simp
    moreover have "splices redacted tail (redactTXT tail)"
      using 2(1) True unfolding r_def rest_def v_def tail_def by metis
    ultimately have "splices redacted (c # t) ((txt_label @ space) @ redacted @ redactTXT tail)"
      using splices_keep_all splices_cut by metis
    with True step show ?thesis by simp
  next
    case False
    with 2(2) step show ?thesis unfolding r_def rest_def v_def by (auto intro: splices_keep)
  qed
qed (auto intro: splices_Nil)

lemma sublist_around:
  assumes "c \<notin> set s" and "sublist s (a @ c # b)"
  shows "sublist s a \<or> sublist s b"
proof -
  from assms(2) obtain x y where e: "a @ c # b = x @ s @ y" by (auto simp: sublist_def)
  show ?thesis
  proof (cases "length x + length s \<le> length a")
    case True
    then have "a = take (length a) (x @ s @ y)" using e by (metis append_eq_conv_conj)
    with True have "a = x @ s @ take (length a - length x - length s) y" by simp
    then show ?thesis by (auto simp: sublist_def)
  next
    case False
    have "length x > length a"
    proof (rule ccontr)
      assume "\<not> length x > length a"
      with False have "(x @ s @ y) ! length a = s ! (length a - length x)"
        by (auto simp: nth_append)
      moreover have "(x @ s @ y) ! length a = c" using e by (metis nth_append_length)
      moreover have "length a - length x < length s" using False \<open>\<not> length x > length a\<close> by simp
      ultimately show False using assms(1) nth_mem by metis
    qed
    then have "b = drop (Suc (length a)) x @ s @ y"
      using arg_cong [OF e, of "drop (Suc (length a))"] by simp
    then show ?thesis by (auto simp: sublist_def)
  qed
qed

lemma sublist_around_redacted:
  assumes "unmarked s" and "sublist s (a @ redacted @ b)"
  shows "sublist s a \<or> sublist s b"
proof -
  have s: "CHR ''['' \<notin> set s" "CHR '']'' \<notin> set s" "\<not> sublist s ''REDACTED''"
    using assms(1) by (auto simp: unmarked_def)
  have "sublist s (a @ CHR ''['' # (''REDACTED'' @ CHR '']'' # b))"
    using assms(2) by (simp add: redacted_def)
  with sublist_around [OF s(1)] have "sublist s a \<or> sublist s (''REDACTED'' @ CHR '']'' # b)" by blast
  with sublist_around [OF s(2)] s(3) show ?thesis by blast
qed

lemma splices_absent:
  assumes "splices redacted t u" and "unmarked s" and "\<not> sublist s (a @ t)"
  shows "\<not> sublist s (a @ u)"
  using assms(1,3)
proof (induction arbitrary: a rule: splices.induct)
  case (splices_keep t u c)
  from splices_keep.IH [of "a @ [c]"] splices_keep.prems show ?case by simp
next
  case (splices_cut t u x)
  have "\<not> sublist s a" using splices_cut.prems by (metis sublist_append_rightI sublist_order.order.trans)
  moreover have "\<not> sublist s t"
    using splices_cut.prems by (metis append.assoc sublist_append_leftI sublist_order.order.trans)
  then have "\<not> sublist s u" using splices_cut.IH [of "[]"] by simp
  ultimately show ?case using sublist_around_redacted [OF assms(2)] by blast
qed simp

section \<open>Redaction removes the secrets\<close>

lemma sublist_starts:
  assumes "sublist s b" and "s \<noteq> []"
  shows "\<exists>k < length b. prefix s (drop k b)"
proof -
  obtain x y where "b = x @ s @ y" using assms(1) by (auto simp: sublist_def)
  then show ?thesis using assms(2) by (intro exI [of _ "length x"]) auto
qed

lemma replaceAll_removes_after:
  "unmarked old \<Longrightarrow> new = redacted \<Longrightarrow> \<forall>k < length a. \<not> prefix old (drop k (a @ t)) \<Longrightarrow>
     \<not> sublist old (a @ replaceAll old new t)"
proof (induction old new t arbitrary: a rule: replaceAll.induct)
  case (1 old new)
  then show ?case using sublist_starts [of old a] by (auto simp: unmarked_def)
next
  case (2 old new c t)
  show ?case
  proof (cases "prefix old (c # t)")
    case True
    have "\<not> sublist old a"
    proof
      assume "sublist old a"
      then obtain k where k: "k < length a" "prefix old (drop k a)"
        using sublist_starts 2(3) by (auto simp: unmarked_def)
      then have "prefix old (drop k a @ c # t)" by simp
      with k(1) 2(5) show False by simp
    qed
    moreover have "\<not> sublist old (replaceAll old new (drop (length old) (c # t)))"
      using 2(1) [of "[]"] True 2(3,4) by (simp add: unmarked_def)
    ultimately show ?thesis
      using sublist_around_redacted [OF 2(3)] True 2(3,4) by (auto simp: unmarked_def)
  next
    case False
    have "\<not> prefix old (drop k ((a @ [c]) @ t))" if "k < length (a @ [c])" for k
      using 2(5) False that by (cases "k = length a") auto
    with 2(2) [of "a @ [c]"] False 2(3,4) show ?thesis by simp
  qed
qed

lemma replaceAll_removes: "unmarked s \<Longrightarrow> \<not> sublist s (replaceAll s redacted t)"
  using replaceAll_removes_after [of s redacted "[]" t] by simp

lemma replaceAll_absent: "unmarked s \<Longrightarrow> \<not> sublist s t \<Longrightarrow> \<not> sublist s (replaceAll old redacted t)"
  using splices_absent [OF splices_replaceAll, of s "[]" t old] by simp

lemma fold_replaceAll_absent:
  "unmarked s \<Longrightarrow> s \<in> set secrets \<or> \<not> sublist s t \<Longrightarrow>
     \<not> sublist s (fold (\<lambda>secret. replaceAll secret redacted) secrets t)"
proof (induction secrets arbitrary: t)
  case (Cons secret secrets)
  then have "s \<in> set secrets \<or> \<not> sublist s (replaceAll secret redacted t)"
    using replaceAll_removes replaceAll_absent by (cases "s = secret") auto
  from Cons.IH [OF Cons.prems(1) this] show ?case by simp
qed simp

lemma redactOutput_absent:
  assumes "unmarked s" and "s \<in> set variables"
  shows "\<not> sublist s (redactOutput t variables)"
proof -
  have "s \<in> set (sort_key (\<lambda>v. - int (length v)) (filter (\<lambda>v. v \<noteq> []) variables))"
    using assms by (simp add: unmarked_def)
  from fold_replaceAll_absent [OF assms(1) disjI1 [OF this]]
  show ?thesis
    using splices_absent [OF splices_redactTXT assms(1), of "[]"]
    by (simp add: redactOutput_def Let_def)
qed

section \<open>Later steps\<close>

lemma trim_left_suffix: "suffix (trim_left es s) s"
proof (induction es s rule: trim_left.induct)
  case (1 es s)
  show ?case
  proof (cases "List.find (\<lambda>e. e \<noteq> [] \<and> prefix e s) es")
    case (Some e)
    with 1 [OF Some] show ?thesis
      using suffix_drop [of "length e" s] suffix_order.trans by (subst trim_left.simps) fastforce
  qed (subst trim_left.simps, simp)
qed

lemma bytes_TrimSpace_sublist: "sublist (bytes_TrimSpace s) s"
proof -
  let ?l = "trim_left space_encodings s"
  have "suffix (trim_left (map rev space_encodings) (rev ?l)) (rev ?l)" by (rule trim_left_suffix)
  then have "prefix (bytes_TrimSpace s) ?l"
    by (simp add: bytes_TrimSpace_def suffix_to_prefix)
  then show ?thesis
    using trim_left_suffix [of space_encodings s]
    by (meson prefix_imp_sublist sublist_order.order.trans suffix_imp_sublist)
qed

lemma TrimSpace_absent: "\<not> sublist s t \<Longrightarrow> \<not> sublist s (bytes_TrimSpace t)"
  using bytes_TrimSpace_sublist sublist_order.order.trans by blast

text \<open>The bytes of a value that is text: they do not start inside a code point.\<close>

lemma utf8_Cons: "utf8 (c # s) = utf8_char c @ utf8 s"
  by (simp add: utf8_def)

lemma utf8_char_codes [simp]:
  "code (byte (192 + code c div 64)) = 192 + code c div 64"
  "code (byte (128 + code c mod 64)) = 128 + code c mod 64"
proof -
  have "code c div 64 < 4" using code_bound [of c] by (simp add: less_mult_imp_div_less)
  then show "code (byte (192 + code c div 64)) = 192 + code c div 64"
    by (intro code_char_of) simp
  have "code c mod 64 < 64" by simp
  then show "code (byte (128 + code c mod 64)) = 128 + code c mod 64"
    by (intro code_char_of) simp
qed

lemma utf8_bytes: "b \<in> set (utf8 s) \<Longrightarrow> code b < 196"
proof -
  have "b \<in> set (utf8_char c) \<Longrightarrow> code b < 196" for c
    using less_mult_imp_div_less [of "code c" 4 64] code_bound [of c]
    by (auto simp: utf8_char_def split: if_splits)
  then show "b \<in> set (utf8 s) \<Longrightarrow> code b < 196" by (auto simp: utf8_def)
qed

lemma utf8_hd: "s \<noteq> [] \<Longrightarrow> utf8 s \<noteq> [] \<and> (code (hd (utf8 s)) < 128 \<or> 192 \<le> code (hd (utf8 s)))"
  by (cases s) (auto simp: utf8_Cons utf8_char_def code_char_of)

lemma utf8_ascii_mem: "code c < 128 \<Longrightarrow> c \<in> set (utf8 s) \<Longrightarrow> c \<in> set s"
proof -
  have "c = d" if "code c < 128" "c \<in> set (utf8_char d)" for d
    using that code_bound [of d] by (auto simp: utf8_char_def code_char_of split: if_splits)
  then show "code c < 128 \<Longrightarrow> c \<in> set (utf8 s) \<Longrightarrow> c \<in> set s" by (auto simp: utf8_def)
qed

text \<open>
  A credential value that redaction hides: text with no bracket and no line break that is no part of
  the word \<open>REDACTED\<close>.
\<close>

definition hideable :: "string \<Rightarrow> bool" where
  "hideable v \<longleftrightarrow> v \<noteq> [] \<and> CHR ''['' \<notin> set v \<and> CHR '']'' \<notin> set v \<and> CHR 0x0A \<notin> set v
     \<and> \<not> sublist (utf8 v) ''REDACTED''"

lemma hideable_unmarked: "hideable v \<Longrightarrow> unmarked (utf8 v)"
  using utf8_ascii_mem [of "CHR ''[''" v] utf8_ascii_mem [of "CHR '']''" v] utf8_hd [of v]
  by (auto simp: hideable_def unmarked_def code_def)

lemma hideable_join:
  assumes "hideable v" and "\<not> sublist (utf8 v) a" and "\<not> sublist (utf8 v) b"
  shows "\<not> sublist (utf8 v) (a @ CHR 0x0A # b)"
proof
  assume "sublist (utf8 v) (a @ CHR 0x0A # b)"
  moreover have "CHR 0x0A \<notin> set (utf8 v)"
    using assms(1) utf8_ascii_mem [of "CHR 0x0A" v] by (auto simp: hideable_def code_def)
  ultimately show False using sublist_around [of "CHR 0x0A" "utf8 v" a b] assms(2,3) by blast
qed

lemma cut_output_absent:
  assumes "hideable v" and "\<not> sublist (utf8 v) t"
  shows "\<not> sublist (utf8 v) (cut_output n t)"
proof
  assume s: "sublist (utf8 v) (cut_output n t)"
  have "\<not> sublist (utf8 v) (take (nat n) t)"
    using assms(2) sublist_order.order.trans sublist_take by blast
  moreover have "byte 0xE2 \<notin> set (utf8 v)"
    using utf8_bytes [of "byte 0xE2" v] by (auto simp: code_char_of)
  ultimately have "sublist (utf8 v) [byte 0x80, byte 0xA6]"
    using s assms(2) sublist_around [of "byte 0xE2" "utf8 v"]
    by (auto simp: cut_output_def ellipsis_def split: if_splits)
  then have "set (utf8 v) \<subseteq> {byte 0x80, byte 0xA6}" using set_mono_sublist by fastforce
  moreover have "v \<noteq> []" using assms(1) by (simp add: hideable_def)
  ultimately have "hd (utf8 v) = byte 0x80 \<or> hd (utf8 v) = byte 0xA6"
    using utf8_hd hd_in_set by blast
  then have "code (hd (utf8 v)) = 0x80 \<or> code (hd (utf8 v)) = 0xA6" by (auto simp: code_char_of)
  then show False using utf8_hd [OF \<open>v \<noteq> []\<close>] by auto
qed

lemma length_cut_output: "0 \<le> n \<Longrightarrow> int (length (cut_output n t)) \<le> n + 3"
  by (simp add: cut_output_def ellipsis_def)

end
