(* ===== verification/Cert_Parser.thy ===== *)
theory Cert_Parser
  imports Js_Text "HOL-Library.Multiset"
begin

text \<open>
  \<open>internal/certificate/parser/parser.go\<close>: reading a certificate, and the checks that a key belongs to
  it and that a self-signed certificate is the one that was asked for. PEM, X.509, the key formats and
  SHA-256 are the standard library's; \<open>x509_lib\<close> holds the functions the code calls. Times are in
  nanoseconds.
\<close>

section \<open>The library's data\<close>

datatype key_algorithm = ECDSA string | RSA int | OtherKey

text \<open>
  \<open>xc_PublicKey\<close> is the encoding that \<open>x509.MarshalPKIXPublicKey\<close> gives, if it succeeds;
  \<open>xc_SelfSigned\<close> is the outcome of \<open>CheckSignature\<close> on the certificate itself.
\<close>

record x509_certificate =
  xc_Raw :: string
  xc_Issuer :: string
  xc_SerialNumber :: nat
  xc_DNSNames :: "string list"
  xc_NotBefore :: int
  xc_NotAfter :: int
  xc_PublicKey :: "string option"
  xc_Algorithm :: key_algorithm
  xc_SelfSigned :: bool

text \<open>A parsed private key: the public key of a signer, or a key that cannot sign.\<close>

datatype private_key = Signer "string option" | NoSigner

record x509_lib =
  xl_Decode :: "string \<Rightarrow> (string \<times> string) option"
  xl_ParseCertificate :: "string \<Rightarrow> x509_certificate option"
  xl_ParsePKCS8 :: "string \<Rightarrow> private_key option"
  xl_ParsePKCS1 :: "string \<Rightarrow> private_key option"
  xl_ParseEC :: "string \<Rightarrow> private_key option"
  xl_Sum256 :: "string \<Rightarrow> nat list"

section \<open>The parser\<close>

record metadata =
  mt_Issuer :: string
  mt_SerialNumber :: string
  mt_DNSNames :: "string list"
  mt_NotBefore :: int
  mt_NotAfter :: int
  mt_FingerprintSHA256 :: string
  mt_KeyAlgorithm :: string

datatype parser_error =
    NoCertificatePEM | CertificateParse | NotValidNow | SignatureInvalid | NamesDiffer
  | NoKeyPEM | KeyFormat | KeyNoSigner | KeyEncoding | KeyMismatch

text \<open>Hexadecimal digits in capitals: a number without leading zeros, and the bytes of a digest.\<close>

fun hex_text :: "nat \<Rightarrow> string" where
  "hex_text n = (if n < 16 then [hex_digit n] else hex_text (n div 16) @ [hex_digit (n mod 16)])"

declare hex_text.simps [simp del]

definition hex_bytes :: "nat list \<Rightarrow> string" where
  "hex_bytes bs = concat (map (\<lambda>b. [hex_digit (b div 16), hex_digit (b mod 16)]) bs)"

definition publicKeyAlgorithm :: "key_algorithm \<Rightarrow> string" where
  "publicKeyAlgorithm k = (case k of
     ECDSA curve \<Rightarrow> ''ECDSA-'' @ curve
   | RSA bits \<Rightarrow> ''RSA-'' @ show_int bits
   | OtherKey \<Rightarrow> ''UNKNOWN'')"

definition ParseCertificate :: "x509_lib \<Rightarrow> string \<Rightarrow> parser_error + (x509_certificate \<times> metadata)" where
  "ParseCertificate lib certificatePEM =
     (case xl_Decode lib certificatePEM of
        None \<Rightarrow> Inl NoCertificatePEM
      | Some (blockType, bytes) \<Rightarrow>
          if blockType \<noteq> ''CERTIFICATE'' then Inl NoCertificatePEM
          else (case xl_ParseCertificate lib bytes of
            None \<Rightarrow> Inl CertificateParse
          | Some certificate \<Rightarrow>
              Inr (certificate,
                \<lparr>mt_Issuer = xc_Issuer certificate,
                 mt_SerialNumber = hex_text (xc_SerialNumber certificate),
                 mt_DNSNames = xc_DNSNames certificate,
                 mt_NotBefore = xc_NotBefore certificate, mt_NotAfter = xc_NotAfter certificate,
                 mt_FingerprintSHA256 = hex_bytes (xl_Sum256 lib (xc_Raw certificate)),
                 mt_KeyAlgorithm = publicKeyAlgorithm (xc_Algorithm certificate)\<rparr>)))"

definition parsePrivateKey :: "x509_lib \<Rightarrow> string \<Rightarrow> parser_error + private_key" where
  "parsePrivateKey lib keyPEM =
     (case xl_Decode lib keyPEM of
        None \<Rightarrow> Inl NoKeyPEM
      | Some (_, bytes) \<Rightarrow>
          (case xl_ParsePKCS8 lib bytes of
             Some key \<Rightarrow> Inr key
           | None \<Rightarrow>
               (case xl_ParsePKCS1 lib bytes of
                  Some key \<Rightarrow> Inr key
                | None \<Rightarrow> (case xl_ParseEC lib bytes of Some key \<Rightarrow> Inr key | None \<Rightarrow> Inl KeyFormat))))"

definition ValidateKeyMatches :: "x509_lib \<Rightarrow> x509_certificate \<Rightarrow> string \<Rightarrow> parser_error option" where
  "ValidateKeyMatches lib certificate privateKeyPEM =
     (case parsePrivateKey lib privateKeyPEM of
        Inl e \<Rightarrow> Some e
      | Inr NoSigner \<Rightarrow> Some KeyNoSigner
      | Inr (Signer got) \<Rightarrow>
          (case xc_PublicKey certificate of
             None \<Rightarrow> Some KeyEncoding
           | Some want \<Rightarrow>
               (case got of
                  None \<Rightarrow> Some KeyEncoding
                | Some g \<Rightarrow> if g \<noteq> want then Some KeyMismatch else None)))"

text \<open>
  \<open>sameStrings\<close> counts the occurrences in a map: up for the left list, down for the right one.
\<close>

definition count_up :: "string \<Rightarrow> (string \<Rightarrow> int) \<Rightarrow> string \<Rightarrow> int" where
  "count_up s seen = seen(s := seen s + 1)"

definition count_down :: "string \<Rightarrow> (string \<Rightarrow> int) \<Rightarrow> string \<Rightarrow> int" where
  "count_down s seen = seen(s := seen s - 1)"

definition sameStrings :: "string list \<Rightarrow> string list \<Rightarrow> bool" where
  "sameStrings left right =
     (if length left \<noteq> length right then False
      else (let seen = fold count_down right (fold count_up left (\<lambda>_. 0))
            in list_all (\<lambda>s. seen s = 0) (left @ right)))"

definition five_minutes :: int where
  "five_minutes = 5 * 60 * 1000000000"

definition ValidateCertificateAndKey ::
  "x509_lib \<Rightarrow> string \<Rightarrow> string \<Rightarrow> string list \<Rightarrow> int \<Rightarrow> parser_error + metadata" where
  "ValidateCertificateAndKey lib certificatePEM privateKeyPEM expectedDomains now =
     (case ParseCertificate lib certificatePEM of
        Inl e \<Rightarrow> Inl e
      | Inr (certificate, meta) \<Rightarrow>
          if now < xc_NotBefore certificate - five_minutes \<or> \<not> now < xc_NotAfter certificate
          then Inl NotValidNow
          else if \<not> xc_SelfSigned certificate then Inl SignatureInvalid
          else if \<not> sameStrings (xc_DNSNames certificate) expectedDomains then Inl NamesDiffer
          else (case ValidateKeyMatches lib certificate privateKeyPEM of
              Some e \<Rightarrow> Inl e
            | None \<Rightarrow> Inr meta))"

section \<open>Counting is comparing multisets\<close>

lemma fold_count_up: "fold count_up xs f s = f s + int (count (mset xs) s)"
  by (induction xs arbitrary: f) (auto simp: count_up_def)

lemma fold_count_down: "fold count_down xs f s = f s - int (count (mset xs) s)"
  by (induction xs arbitrary: f) (auto simp: count_down_def)

lemma sameStrings_iff: "sameStrings left right \<longleftrightarrow> mset left = mset right"
proof
  assume "sameStrings left right"
  then have "count (mset left) s = count (mset right) s" if "s \<in> set left \<union> set right" for s
    using that by (auto simp: sameStrings_def Let_def fold_count_up fold_count_down list_all_iff split: if_splits)
  then have "count (mset left) s = count (mset right) s" for s
    by (cases "s \<in> set left \<union> set right") (auto simp: count_eq_zero_iff [THEN iffD2])
  then show "mset left = mset right" by (rule multiset_eqI)
next
  assume "mset left = mset right"
  then show "sameStrings left right"
    by (auto simp: sameStrings_def Let_def fold_count_up fold_count_down list_all_iff dest: mset_eq_length)
qed

section \<open>Accepted certificates\<close>

text \<open>The key of the certificate, as a relation between the two files.\<close>

definition key_belongs :: "x509_lib \<Rightarrow> string \<Rightarrow> string \<Rightarrow> bool" where
  "key_belongs lib certificatePEM privateKeyPEM \<longleftrightarrow>
     (case ParseCertificate lib certificatePEM of
        Inl _ \<Rightarrow> False
      | Inr (certificate, _) \<Rightarrow> ValidateKeyMatches lib certificate privateKeyPEM = None)"

lemma ValidateCertificateAndKey_Inr:
  assumes "ValidateCertificateAndKey lib cert key domains now = Inr meta"
  shows "key_belongs lib cert key" and "mset (mt_DNSNames meta) = mset domains"
    and "mt_NotBefore meta - five_minutes \<le> now" and "now < mt_NotAfter meta"
proof -
  obtain c where p: "ParseCertificate lib cert = Inr (c, meta)"
      and now: "xc_NotBefore c - five_minutes \<le> now" "now < xc_NotAfter c"
      and names: "sameStrings (xc_DNSNames c) domains" and key: "ValidateKeyMatches lib c key = None"
    using assms unfolding ValidateCertificateAndKey_def
    by (auto split: sum.splits if_splits option.splits)
  have "mt_DNSNames meta = xc_DNSNames c \<and> mt_NotBefore meta = xc_NotBefore c \<and> mt_NotAfter meta = xc_NotAfter c"
    using p by (auto simp: ParseCertificate_def split: option.splits if_splits)
  with p now names key show "key_belongs lib cert key" "mset (mt_DNSNames meta) = mset domains"
    "mt_NotBefore meta - five_minutes \<le> now" "now < mt_NotAfter meta"
    by (auto simp: key_belongs_def sameStrings_iff)
qed

end
