(* ===== verification/Cert_Service.thy ===== *)
theory Cert_Service
  imports Service_World
begin

text \<open>
  The certificate service of \<open>internal/certificate/service.go\<close>, operation by operation, as programs
  over the actions of \<open>Service_World\<close>: creating, issuing again, renewing, revoking, updating and
  deleting a certificate, and the renewal of one due certificate with its retries.
\<close>

section \<open>Errors and messages\<close>

text \<open>
  \<open>sc_acme\<close>, \<open>sc_credentials\<close> and \<open>sc_engine\<close> say whether the service was built with an ACME engine,
  a credential service and a self-signed engine. \<open>sc_text\<close> gives the bytes of an error message.
\<close>

record service_config =
  sc_acme :: bool
  sc_credentials :: bool
  sc_engine :: bool
  sc_text :: "service_error \<Rightarrow> string"

definition safeError :: "service_config \<Rightarrow> service_error \<Rightarrow> string" where
  "safeError cfg e = take 2048 (sc_text cfg e)"

definition exitCode :: "service_error \<Rightarrow> int" where
  "exitCode e = (case e of ErrEngine (SelfSignedCommand n) \<Rightarrow> n | _ \<Rightarrow> - 1)"

definition acmeExitCode :: "service_error \<Rightarrow> int" where
  "acmeExitCode e =
     (case e of
        ErrEngine (AcmeCommand n _) \<Rightarrow> n
      | ErrDNSZoneUnavailable _ (AcmeCommand n _) \<Rightarrow> n
      | _ \<Rightarrow> - 1)"

definition normalizeACMEError :: "service_error \<Rightarrow> string \<Rightarrow> service_error" where
  "normalizeACMEError e primaryDomain =
     (case e of
        ErrEngine (AcmeCommand n zone) \<Rightarrow>
          if zone then ErrDNSZoneUnavailable primaryDomain (AcmeCommand n zone) else e
      | _ \<Rightarrow> e)"

section \<open>Shared steps\<close>

definition get_row :: "string \<Rightarrow> (cert_row \<Rightarrow> (service_error + 'a) svc) \<Rightarrow> (service_error + 'a) svc" where
  "get_row i f = Act (GetRow i) (\<lambda>r. case re_row r of Inl e \<Rightarrow> Ret (Inl e) | Inr v \<Rightarrow> f v)"

definition return_row :: "string \<Rightarrow> (service_error + cert_row) svc" where
  "return_row i = Act (GetRow i) (\<lambda>r. Ret (re_row r))"

definition audit_action ::
  "string \<Rightarrow> string \<Rightarrow> string \<Rightarrow> string \<Rightarrow> string \<Rightarrow> (string \<times> detail) list \<Rightarrow> action" where
  "audit_action cid eventType actor clientIP result det = AddAudit
     \<lparr>au_CertificateID = cid, au_EventType = eventType, au_Actor = actor, au_ClientIP = clientIP,
      au_Result = result, au_Detail = det, au_CreatedAt = 0\<rparr>"

definition with_lock :: "string \<Rightarrow> (service_error + 'a) svc \<Rightarrow> (service_error + 'a) svc" where
  "with_lock i body = Act (LoadOrStoreLock i) (\<lambda>r. Act (TryLock (re_mutex r)) (\<lambda>t.
     if \<not> re_locked t then Ret (Inl ErrOperationRunning) else unlocking (re_mutex r) body))"

definition failRenewal ::
  "service_config \<Rightarrow> cert_row \<Rightarrow> string \<Rightarrow> int \<Rightarrow> string \<Rightarrow> service_error \<Rightarrow> string \<Rightarrow> string \<Rightarrow> string
     \<Rightarrow> (service_error + cert_row) svc" where
  "failRenewal cfg v jid exit output e eventType actor clientIP =
     ignored (FinishJob jid ''failed'' exit output (safeError cfg e))
       (ignored (MarkFailed (cr_ID v) (safeError cfg e))
         (ignored (audit_action (cr_ID v) eventType actor clientIP ''failed'' [(''mode'', DText (nc_Mode v))])
           (Ret (Inl e))))"

definition metadata_of :: "cert_row \<Rightarrow> issued_certificate \<Rightarrow> int \<Rightarrow> metadata_document" where
  "metadata_of v x now = \<lparr>md_certificate_id = cr_ID v, md_name = nc_Name v, md_mode = nc_Mode v,
     md_primary_domain = nc_PrimaryDomain v, md_domains = nc_Domains v, md_issuer = is_Issuer x,
     md_serial_number = is_SerialNumber x, md_not_before = is_NotBefore x, md_not_after = is_NotAfter x,
     md_fingerprint_sha256 = is_FingerprintSHA256 x, md_key_algorithm = is_KeyAlgorithm x,
     md_updated_at = now\<rparr>"

definition payload_of :: "cert_row \<Rightarrow> issued_certificate \<Rightarrow> int \<Rightarrow> payload" where
  "payload_of v x now = \<lparr>pl_CertPEM = is_CertificatePEM x, pl_ChainPEM = is_ChainPEM x,
     pl_FullchainPEM = is_FullchainPEM x, pl_PrivateKeyPEM = is_PrivateKeyPEM x,
     pl_Metadata = metadata_of v x now, pl_CreateMarker = nc_CreateRenewedMarker v\<rparr>"

definition with_issued :: "cert_row \<Rightarrow> issued_certificate \<Rightarrow> cert_row" where
  "with_issued v x = v\<lparr>cr_Issuer := is_Issuer x, cr_SerialNumber := is_SerialNumber x,
     cr_FingerprintSHA256 := is_FingerprintSHA256 x, cr_NotBefore := Some (is_NotBefore x),
     cr_NotAfter := Some (is_NotAfter x)\<rparr>"

text \<open>A self-signed certificate is its own chain.\<close>

definition self_signed_files :: "issued_certificate \<Rightarrow> issued_certificate" where
  "self_signed_files x = x\<lparr>is_ChainPEM := is_CertificatePEM x, is_FullchainPEM := is_CertificatePEM x\<rparr>"

definition engine_self_signed :: "cert_row \<Rightarrow> selfsigned_request" where
  "engine_self_signed v = \<lparr>sr_PrimaryDomain = nc_PrimaryDomain v, sr_Domains = nc_Domains v,
     sr_KeyType = nc_KeyType v, sr_ValidDays = nc_SelfSignedValidDays v\<rparr>"

definition acme_issue_of :: "cert_row \<Rightarrow> process_values \<Rightarrow> acme_issue_request" where
  "acme_issue_of v pv = \<lparr>ai_CertificateID = cr_ID v, ai_PrimaryDomain = nc_PrimaryDomain v,
     ai_Domains = nc_Domains v, ai_KeyType = nc_KeyType v, ai_ChallengeType = nc_ChallengeType v,
     ai_DNSProvider = pv_ACMEDNSCode pv, ai_DNSVariables = pv_Environment pv,
     ai_CADirectory = nc_CADirectoryURL v, ai_Email = nc_ACMEEmail v\<rparr>"

definition acme_renew_of :: "cert_row \<Rightarrow> process_values \<Rightarrow> bool \<Rightarrow> acme_renew_request" where
  "acme_renew_of v pv force = \<lparr>ar_CertificateID = cr_ID v, ar_PrimaryDomain = nc_PrimaryDomain v,
     ar_KeyType = nc_KeyType v, ar_Force = force, ar_DNSProvider = pv_ACMEDNSCode pv,
     ar_DNSVariables = pv_Environment pv, ar_CADirectory = nc_CADirectoryURL v\<rparr>"

definition no_values :: process_values where
  "no_values = \<lparr>pv_ACMEDNSCode = [], pv_Environment = []\<rparr>"

section \<open>Renewing and issuing again\<close>

text \<open>
  From the engine's result to the end: the metadata document, the publication, the row, the job and
  the audit record. \<open>mark\<close> is \<^const>\<open>MarkRenewed\<close> or \<^const>\<open>MarkIssued\<close>.
\<close>

definition publish_result ::
  "service_config \<Rightarrow> (cert_row \<Rightarrow> action) \<Rightarrow> cert_row \<Rightarrow> string \<Rightarrow> issued_certificate
     \<Rightarrow> string \<Rightarrow> string \<Rightarrow> string \<Rightarrow> (service_error + cert_row) svc" where
  "publish_result cfg mark v jid x eventType actor clientIP =
     Act ReadClock (\<lambda>c.
     Act (MarshalMetadata (metadata_of v x (re_time c))) (\<lambda>d. case re_err d of
       Some e \<Rightarrow> failRenewal cfg v jid (is_ExitCode x) (is_OutputSummary x) e eventType actor clientIP
     | None \<Rightarrow>
         Act (Publish (nc_OutputDirectory v) (payload_of v x (re_time c))) (\<lambda>p. case re_err p of
           Some e \<Rightarrow> failRenewal cfg v jid (is_ExitCode x) (is_OutputSummary x) e eventType actor clientIP
         | None \<Rightarrow>
             checked (mark (with_issued v x))
               (ignored (FinishJob jid ''succeeded'' (is_ExitCode x) (is_OutputSummary x) [])
                 (ignored (audit_action (cr_ID v) eventType actor clientIP ''succeeded'' [(''mode'', DText (nc_Mode v))])
                   (return_row (cr_ID v)))))))"

text \<open>
  Calling the engine of the certificate's mode. \<open>strict\<close> is issuing again: it checks that the
  self-signed engine exists and refuses challenges other than the two known ones, which renewing
  does not.
\<close>

definition engine_result ::
  "service_config \<Rightarrow> (cert_row \<Rightarrow> action) \<Rightarrow> cert_row \<Rightarrow> string \<Rightarrow> engine_call \<Rightarrow> (service_error \<Rightarrow> service_error)
     \<Rightarrow> (service_error \<Rightarrow> int) \<Rightarrow> (issued_certificate \<Rightarrow> issued_certificate)
     \<Rightarrow> string \<Rightarrow> string \<Rightarrow> string \<Rightarrow> (service_error + cert_row) svc" where
  "engine_result cfg mark v jid call normalise exitOf files eventType actor clientIP =
     Act (CallEngine (cr_ID v) call) (\<lambda>g. case re_result g of
       Inl e \<Rightarrow> failRenewal cfg v jid (exitOf (normalise e)) [] (normalise e) eventType actor clientIP
     | Inr None \<Rightarrow> failRenewal cfg v jid (- 1) [] ErrNoResult eventType actor clientIP
     | Inr (Some x) \<Rightarrow> publish_result cfg mark v jid (files x) eventType actor clientIP)"

definition acme_values ::
  "service_config \<Rightarrow> bool \<Rightarrow> cert_row \<Rightarrow> string \<Rightarrow> string \<Rightarrow> string \<Rightarrow> string
     \<Rightarrow> (process_values \<Rightarrow> (service_error + cert_row) svc) \<Rightarrow> (service_error + cert_row) svc" where
  "acme_values cfg strict v jid eventType actor clientIP k =
     (if nc_ChallengeType v = ''dns-01'' then
        (if \<not> sc_credentials cfg
         then failRenewal cfg v jid (- 1) [] ErrCredentialsUnavailable eventType actor clientIP
         else Act (ResolveCredential (nc_DNSCredentialID v)) (\<lambda>r. case re_values r of
           Inl e \<Rightarrow> failRenewal cfg v jid (- 1) [] e eventType actor clientIP
         | Inr pv \<Rightarrow> k pv))
      else if strict \<and> nc_ChallengeType v \<noteq> ''http-01''
      then failRenewal cfg v jid (- 1) [] ErrChallenge eventType actor clientIP
      else k no_values)"

definition renew_with_engine ::
  "service_config \<Rightarrow> bool \<Rightarrow> cert_row \<Rightarrow> string \<Rightarrow> string \<Rightarrow> string \<Rightarrow> string \<Rightarrow> (service_error + cert_row) svc" where
  "renew_with_engine cfg force v jid eventType actor clientIP =
     (if nc_Mode v = ''self_signed'' then
        engine_result cfg MarkRenewed v jid (SelfSignedRenew (engine_self_signed v)) id exitCode
          self_signed_files eventType actor clientIP
      else if nc_Mode v = ''acme'' then
        (if \<not> sc_acme cfg then failRenewal cfg v jid (- 1) [] ErrAcmeDisabled eventType actor clientIP
         else acme_values cfg False v jid eventType actor clientIP (\<lambda>pv.
           engine_result cfg MarkRenewed v jid (AcmeRenew (acme_renew_of v pv force))
             (\<lambda>e. normalizeACMEError e (nc_PrimaryDomain v)) acmeExitCode id eventType actor clientIP))
      else failRenewal cfg v jid (- 1) [] ErrUnknownMode eventType actor clientIP)"

definition issue_with_engine ::
  "service_config \<Rightarrow> cert_row \<Rightarrow> string \<Rightarrow> string \<Rightarrow> string \<Rightarrow> (service_error + cert_row) svc" where
  "issue_with_engine cfg v jid actor clientIP =
     (let ev = ''certificate.issue'' in
      if nc_Mode v = ''self_signed'' then
        (if \<not> sc_engine cfg then failRenewal cfg v jid (- 1) [] ErrSelfSignedDisabled ev actor clientIP
         else engine_result cfg MarkIssued v jid (SelfSignedIssue (engine_self_signed v)) id exitCode
           self_signed_files ev actor clientIP)
      else if nc_Mode v = ''acme'' then
        (if \<not> sc_acme cfg then failRenewal cfg v jid (- 1) [] ErrAcmeDisabled ev actor clientIP
         else acme_values cfg True v jid ev actor clientIP (\<lambda>pv.
           engine_result cfg MarkIssued v jid (AcmeIssue (acme_issue_of v pv))
             (\<lambda>e. normalizeACMEError e (nc_PrimaryDomain v)) acmeExitCode id ev actor clientIP))
      else failRenewal cfg v jid (- 1) [] ErrUnknownMode ev actor clientIP)"

definition issueExistingCertificate ::
  "service_config \<Rightarrow> cert_row \<Rightarrow> string \<Rightarrow> string \<Rightarrow> (service_error + cert_row) svc" where
  "issueExistingCertificate cfg v actor clientIP =
     (case (if nc_Mode v = ''acme'' then validateACMEDomains (nc_PrimaryDomain v) (nc_Domains v) else None) of
        Some e \<Rightarrow> Ret (Inl (ErrRedundant e))
      | None \<Rightarrow>
          checked (SetStatus (cr_ID v) StatusIssuing)
            (Act (CreateJob (cr_ID v) ''issue'') (\<lambda>j. case re_err j of
              Some e \<Rightarrow> ignored (MarkFailed (cr_ID v) (sc_text cfg ErrJobRecord)) (Ret (Inl e))
            | None \<Rightarrow> issue_with_engine cfg v (re_id j) actor clientIP)))"

definition renewExistingCertificate ::
  "service_config \<Rightarrow> bool \<Rightarrow> cert_row \<Rightarrow> string \<Rightarrow> string \<Rightarrow> string \<Rightarrow> string \<Rightarrow> string
     \<Rightarrow> (service_error + cert_row) svc" where
  "renewExistingCertificate cfg force v i jobType eventType actor clientIP =
     (if \<not> renewAllowed (nc_Status v) then Ret (Inl ErrRenewNotAllowed)
      else checked (SetStatus i StatusRenewing)
        (Act (CreateJob i jobType) (\<lambda>j. case re_err j of
          Some e \<Rightarrow> Ret (Inl e)
        | None \<Rightarrow> renew_with_engine cfg force v (re_id j) eventType actor clientIP)))"

definition issueExisting ::
  "service_config \<Rightarrow> string \<Rightarrow> bool \<Rightarrow> string \<Rightarrow> string \<Rightarrow> string \<Rightarrow> string \<Rightarrow> (service_error + cert_row) svc" where
  "issueExisting cfg i force jobType eventType actor clientIP =
     get_row i (\<lambda>v. with_lock i
       (if jobType = ''issue'' then
          (if \<not> manualIssueAllowed (nc_Status v) then Ret (Inl ErrIssueNotAllowed)
           else issueExistingCertificate cfg v actor clientIP)
        else renewExistingCertificate cfg force v i jobType eventType actor clientIP))"

definition service_Renew ::
  "service_config \<Rightarrow> string \<Rightarrow> bool \<Rightarrow> string \<Rightarrow> string \<Rightarrow> (service_error + cert_row) svc" where
  "service_Renew cfg i force actor clientIP =
     (if force then issueExisting cfg i force ''force_renew'' ''certificate.force_renew'' actor clientIP
      else issueExisting cfg i force ''renew'' ''certificate.renew'' actor clientIP)"

definition service_Issue ::
  "service_config \<Rightarrow> string \<Rightarrow> string \<Rightarrow> string \<Rightarrow> (service_error + cert_row) svc" where
  "service_Issue cfg i actor clientIP =
     get_row i (\<lambda>v. if \<not> manualIssueAllowed (nc_Status v) then Ret (Inl ErrIssueNotAllowed)
       else issueExisting cfg i True ''issue'' ''certificate.issue'' actor clientIP)"

section \<open>Updating, revoking and deleting\<close>

definition service_Update ::
  "string \<Rightarrow> string \<Rightarrow> bool \<Rightarrow> int \<Rightarrow> bool \<Rightarrow> string \<Rightarrow> string \<Rightarrow> (service_error + cert_row) svc" where
  "service_Update i name autoRenew days marker actor clientIP =
     (case go_Update_check name days of
        Some e \<Rightarrow> Ret (Inl (ErrUpdate e))
      | None \<Rightarrow>
          get_row i (\<lambda>_. checked (UpdateSettings i (go_TrimSpace name) autoRenew days marker)
            (ignored (audit_action i ''certificate.update'' actor clientIP ''succeeded''
                [(''auto_renew_enabled'', DBool autoRenew), (''renew_before_days'', DInt days),
                 (''create_renewed_marker'', DBool marker)])
              (return_row i))))"

definition service_Revoke ::
  "service_config \<Rightarrow> string \<Rightarrow> string \<Rightarrow> string \<Rightarrow> (service_error + cert_row) svc" where
  "service_Revoke cfg i actor clientIP =
     get_row i (\<lambda>v.
       if nc_Mode v \<noteq> ''acme'' \<or> \<not> revokeAllowed (nc_Status v) then Ret (Inl ErrRevokeNotAllowed)
       else if \<not> sc_acme cfg then Ret (Inl ErrAcmeDisabled)
       else with_lock i (Act (CreateJob i ''revoke'') (\<lambda>j. case re_err j of
         Some e \<Rightarrow> Ret (Inl e)
       | None \<Rightarrow>
           Act (CallEngine i (AcmeRevoke (nc_PrimaryDomain v) (nc_KeyType v))) (\<lambda>g. case re_result g of
             Inl e \<Rightarrow>
               ignored (FinishJob (re_id j) ''failed'' (acmeExitCode e) [] (safeError cfg e))
                 (ignored (audit_action i ''certificate.revoke'' actor clientIP ''failed'' []) (Ret (Inl e)))
           | Inr _ \<Rightarrow>
               checked (SetStatus i StatusRevoked)
                 (ignored (FinishJob (re_id j) ''succeeded'' 0 [] [])
                   (ignored (audit_action i ''certificate.revoke'' actor clientIP ''succeeded'' [])
                     (return_row i)))))))"

definition delete_detail :: "string \<Rightarrow> cert_row \<Rightarrow> bool \<Rightarrow> bool \<Rightarrow> bool \<Rightarrow> (string \<times> detail) list" where
  "delete_detail i v deleteFiles existed backup =
     [(''certificate_id'', DText i), (''certificate_name'', DText (nc_Name v)),
      (''certificate_status'', DText (status_text (nc_Status v))), (''delete_files'', DBool deleteFiles),
      (''files_checked'', DBool deleteFiles), (''files_existed'', DBool existed),
      (''backup_created'', DBool backup)]"

definition delete_row_and_files ::
  "string \<Rightarrow> cert_row \<Rightarrow> bool \<Rightarrow> bool \<Rightarrow> bool \<Rightarrow> string \<Rightarrow> string \<Rightarrow> (service_error + unit) svc" where
  "delete_row_and_files i v deleteFiles existed backup actor clientIP =
     checked (DeleteRow i \<lparr>au_CertificateID = i, au_EventType = ''certificate.delete'', au_Actor = actor,
         au_ClientIP = clientIP, au_Result = ''succeeded'',
         au_Detail = delete_detail i v deleteFiles existed backup, au_CreatedAt = 0\<rparr>)
       (if deleteFiles
        then checked (RemoveFiles (nc_OutputDirectory v)) (ignored (DeleteLock i) (Ret (Inr ())))
        else ignored (DeleteLock i) (Ret (Inr ())))"

definition service_Delete ::
  "string \<Rightarrow> bool \<Rightarrow> string \<Rightarrow> string \<Rightarrow> (service_error + unit) svc" where
  "service_Delete i deleteFiles actor clientIP =
     get_row i (\<lambda>v. with_lock i
       (if deleteFiles then
          Act (Backup (nc_OutputDirectory v)) (\<lambda>b. case re_err b of
            Some e \<Rightarrow>
              ignored (audit_action i ''certificate.delete'' actor clientIP ''failed''
                  (delete_detail i v True (re_existed b) False))
                (Ret (Inl ErrDeleteFilesBackup))
          | None \<Rightarrow> delete_row_and_files i v True (re_existed b) (re_backup b) actor clientIP)
        else delete_row_and_files i v False False False actor clientIP))"

section \<open>Creating\<close>

text \<open>
  From the checked record to the end. A failing marshalling returns at once, a failing publication
  writes no audit record, and a missing result without an error is a nil dereference.
\<close>

definition create_and_issue ::
  "service_config \<Rightarrow> new_certificate \<Rightarrow> string \<Rightarrow> (cert_row \<Rightarrow> engine_call) \<Rightarrow> (service_error \<Rightarrow> service_error)
     \<Rightarrow> (service_error \<Rightarrow> int) \<Rightarrow> (issued_certificate \<Rightarrow> issued_certificate) \<Rightarrow> (string \<times> detail) list
     \<Rightarrow> string \<Rightarrow> string \<Rightarrow> (service_error + cert_row) svc" where
  "create_and_issue cfg c jobType call normalise exitOf files det actor clientIP =
     Act (CreateRow c) (\<lambda>r. case re_row r of
       Inl e \<Rightarrow> Ret (Inl e)
     | Inr v \<Rightarrow> Act (CreateJob (cr_ID v) jobType) (\<lambda>j. case re_err j of
         Some e \<Rightarrow> ignored (MarkFailed (cr_ID v) (sc_text cfg ErrJobRecord)) (Ret (Inl e))
       | None \<Rightarrow> Act (CallEngine (cr_ID v) (call v)) (\<lambda>g. case re_result g of
           Inl e \<Rightarrow> failRenewal cfg v (re_id j) (exitOf (normalise e)) [] (normalise e) ''certificate.create'' actor clientIP
         | Inr None \<Rightarrow> Ret (Inl ErrPanic)
         | Inr (Some x0) \<Rightarrow> (let x = files x0 in
             Act ReadClock (\<lambda>t.
             Act (MarshalMetadata (metadata_of v x (re_time t))) (\<lambda>d. case re_err d of
               Some e \<Rightarrow> Ret (Inl e)
             | None \<Rightarrow> Act (Publish (nc_OutputDirectory v) (payload_of v x (re_time t))) (\<lambda>p. case re_err p of
                 Some e \<Rightarrow>
                   ignored (FinishJob (re_id j) ''failed'' (is_ExitCode x) (is_OutputSummary x) (safeError cfg e))
                     (ignored (MarkFailed (cr_ID v) (safeError cfg e)) (Ret (Inl e)))
               | None \<Rightarrow>
                   checked (MarkIssued (with_issued v x))
                     (ignored (FinishJob (re_id j) ''succeeded'' (is_ExitCode x) (is_OutputSummary x) [])
                       (ignored (audit_action (cr_ID v) ''certificate.create'' actor clientIP ''succeeded'' det)
                         (return_row (cr_ID v)))))))))))"

definition service_CreateSelfSigned ::
  "service_config \<Rightarrow> createCertificateRequest \<Rightarrow> string \<Rightarrow> string \<Rightarrow> (service_error + cert_row) svc" where
  "service_CreateSelfSigned cfg request actor clientIP =
     (case createSelfSigned_value request of
        Inl e \<Rightarrow> Ret (Inl (ErrCreate e))
      | Inr c \<Rightarrow>
          create_and_issue cfg c ''self_signed_issue'' (\<lambda>v. SelfSignedIssue (engine_self_signed v)) id exitCode
            self_signed_files
            [(''mode'', DText (nc_Mode c)), (''domain_count'', DInt (int (length (nc_Domains c)))),
             (''key_type'', DText (nc_KeyType c))] actor clientIP)"

definition service_CreateACME ::
  "service_config \<Rightarrow> createCertificateRequest \<Rightarrow> string \<Rightarrow> string \<Rightarrow> (service_error + cert_row) svc" where
  "service_CreateACME cfg request actor clientIP =
     (case createACME_value (sc_acme cfg) (\<lambda>_. Some []) request of
        Inl e \<Rightarrow> Ret (Inl (ErrCreate e))
      | Inr c \<Rightarrow>
          (let rest = (\<lambda>pv. create_and_issue cfg (c\<lparr>nc_DNSProvider := pv_ACMEDNSCode pv\<rparr>) ''acme_issue''
               (\<lambda>v. AcmeIssue (acme_issue_of v pv)) (\<lambda>e. normalizeACMEError e (nc_PrimaryDomain c))
               acmeExitCode id
               [(''mode'', DText (nc_Mode c)), (''challenge_type'', DText (cq_ChallengeType request))] actor clientIP)
           in if cq_ChallengeType request = ''dns-01'' then
                (if \<not> sc_credentials cfg then Ret (Inl (ErrCreate CredentialRequired))
                 else Act (ResolveCredential (cq_DNSCredentialID request)) (\<lambda>r. case re_values r of
                   Inl e \<Rightarrow> Ret (Inl e) | Inr pv \<Rightarrow> rest pv))
              else rest no_values))"

section \<open>The renewal scan\<close>

definition dueForRenewal :: "cert_row \<Rightarrow> int \<Rightarrow> bool" where
  "dueForRenewal v now \<longleftrightarrow>
     (if \<not> nc_AutoRenewEnabled v \<or> cr_NotAfter v = None \<or> nc_Status v = StatusDisabled \<or> nc_Status v = StatusRevoked
      then False
      else \<not> now < the (cr_NotAfter v) - nc_RenewBeforeDays v * (24 * 3600 * 1000000000))"

text \<open>What a goroutine of the scan ends with: it returned early, or its last renewal error.\<close>

datatype scan_end = ScanStopped | ScanEnded "service_error option"

definition stops_retrying :: "service_error + cert_row \<Rightarrow> bool" where
  "stops_retrying r \<longleftrightarrow>
     (case r of Inr _ \<Rightarrow> True | Inl e \<Rightarrow> e = ErrOperationRunning \<or> e = ErrContext \<or> e = ErrEngine EngineCanceled)"

definition scan_error :: "service_error + cert_row \<Rightarrow> service_error option" where
  "scan_error r = (case r of Inr _ \<Rightarrow> None | Inl e \<Rightarrow> if e = ErrOperationRunning then None else Some e)"

text \<open>\<open>retries\<close> is the number of attempts left after the present one.\<close>

fun scan_attempts :: "service_config \<Rightarrow> string \<Rightarrow> int \<Rightarrow> nat \<Rightarrow> scan_end svc" where
  "scan_attempts cfg i interval 0 =
     svc_bind (service_Renew cfg i False ''scheduler'' []) (\<lambda>r. Ret (ScanEnded (scan_error r)))"
| "scan_attempts cfg i interval (Suc n) =
     svc_bind (service_Renew cfg i False ''scheduler'' []) (\<lambda>r.
       if stops_retrying r then Ret (ScanEnded (scan_error r))
       else Act (WaitSeconds interval) (\<lambda>t.
         if re_err t \<noteq> None then Ret ScanStopped else scan_attempts cfg i interval n))"

definition scan_goroutine :: "service_config \<Rightarrow> nat \<Rightarrow> int \<Rightarrow> cert_row \<Rightarrow> scan_end svc" where
  "scan_goroutine cfg retryCount interval item =
     Act (WaitSeconds 0) (\<lambda>s. if re_err s \<noteq> None then Ret ScanStopped
       else scan_attempts cfg (cr_ID item) interval retryCount)"

fun due_rows :: "cert_row list \<Rightarrow> (cert_row list \<Rightarrow> 'a svc) \<Rightarrow> 'a svc" where
  "due_rows [] k = k []"
| "due_rows (v # vs) k =
     Act ReadClock (\<lambda>r. due_rows vs (\<lambda>ds. k (if dueForRenewal v (re_time r) then v # ds else ds)))"

definition runRenewalScan ::
  "service_config \<Rightarrow> nat \<Rightarrow> int \<Rightarrow> (service_error + scan_end svc list) svc" where
  "runRenewalScan cfg retryCount interval =
     Act ListRows (\<lambda>r. case re_err r of
       Some e \<Rightarrow> Ret (Inl e)
     | None \<Rightarrow> due_rows (re_rows r) (\<lambda>ds. Ret (Inr (map (scan_goroutine cfg retryCount interval) ds))))"

declare scan_attempts.simps [simp del]

end
