(* ===== verification/Acme_Engine.thy ===== *)
theory Acme_Engine
  imports Engine_Output Cert_Parser Credential_Service Cert_Service
begin

text \<open>
  \<open>internal/certificate/acmesh/engine.go\<close>: the arguments given to \<open>acme.sh\<close>, the environment it is run
  in, what is kept of its output, and the certificate read back afterwards.

  The process itself is a function from the arguments and the environment to what it does: the pieces
  it writes, how it ends and the files it leaves. \<open>net/mail\<close> and \<open>net/url\<close> are the functions of
  \<open>acme_lib\<close>. The temporary directory is an argument (none when it cannot be made).
\<close>

section \<open>Parameters\<close>

record go_url =
  ul_Scheme :: string
  ul_Host :: string
  ul_HasUser :: bool
  ul_Fragment :: string
  ul_String :: string

record acme_lib =
  al_ParseAddress :: "string \<Rightarrow> string option"
  al_ParseURL :: "string \<Rightarrow> go_url option"

record acme_cli =
  ac_acmeHome :: string
  ac_challengeDir :: string

datatype ending = NotStarted | Exited int | TimedOut

record process_result =
  ps_stdout :: "string list"
  ps_stderr :: "string list"
  ps_ending :: ending
  ps_files :: "string \<Rightarrow> string option"

type_synonym process = "string list \<Rightarrow> variables \<Rightarrow> process_result"

section \<open>Errors\<close>

datatype acme_refusal =
    DomainParameter | DomainStar | DomainLabels | DomainLabel | DomainCharacter
  | DomainCount | CAInvalid | EmailInvalid | KeyTypeInvalid | ProviderCode | CredentialsMissing
  | WildcardHTTP | ChallengeInvalid

datatype run_error = EnvironmentInvalid | Deadline | CommandFailed

text \<open>\<open>CommandError\<close>: the operation, the exit status, the summary, whether a retry makes sense, whether
  the failure is \<open>FailureDNSZoneUnavailable\<close>, and the cause.\<close>

datatype acme_failure =
    Refused acme_refusal
  | CommandError string int string bool bool run_error
  | RunFailed run_error | TempDirFailed | FileFailed | ResultInvalid parser_error

section \<open>Checks\<close>

fun engine_checkLabels :: "string list \<Rightarrow> acme_refusal option" where
  "engine_checkLabels [] = None"
| "engine_checkLabels (label # rest) =
     (if go_len label = 0 \<or> go_len label > 63 \<or> hd label = CHR ''-'' \<or> last label = CHR ''-''
      then Some DomainLabel
      else if \<not> list_all domain_char label then Some DomainCharacter
      else engine_checkLabels rest)"

definition engine_validateDomain :: "string \<Rightarrow> acme_refusal option" where
  "engine_validateDomain value0 =
     (if value0 = [] \<or> go_len value0 > 253 \<or> CHR 0x0D \<in> set value0 \<or> CHR 0x0A \<in> set value0
         \<or> value0 \<noteq> toLowerCase value0
      then Some DomainParameter
      else (let d = (if startsWith value0 ''*.'' then drop 2 value0 else value0) in
        if CHR ''*'' \<in> set d then Some DomainStar
        else if length (labels d) < 2 then Some DomainLabels
        else engine_checkLabels (labels d)))"

definition validateCA :: "acme_lib \<Rightarrow> string \<Rightarrow> string option" where
  "validateCA lib s =
     (if s \<in> {''letsencrypt'', ''letsencrypt_test'', ''zerossl''} then Some s
      else case al_ParseURL lib s of
          None \<Rightarrow> None
        | Some u \<Rightarrow>
            if ul_Scheme u \<noteq> ''https'' \<or> ul_Host u = [] \<or> ul_HasUser u \<or> ul_Fragment u \<noteq> []
            then None else Some (ul_String u))"

definition keyLength :: "string \<Rightarrow> string option" where
  "keyLength s =
     (if s = ''ec-256'' then Some ''ec-256''
      else if s = ''rsa-2048'' then Some ''2048''
      else if s = ''rsa-3072'' then Some ''3072''
      else None)"

definition isECC :: "string \<Rightarrow> bool" where
  "isECC s \<longleftrightarrow> s = ''ec-256''"

definition emailAccepted :: "acme_lib \<Rightarrow> string \<Rightarrow> bool" where
  "emailAccepted lib s \<longleftrightarrow> al_ParseAddress lib s = Some s
     \<and> \<not> list_ex (\<lambda>c. c \<in> {CHR 0x0D, CHR 0x0A, CHR '' '', CHR ''<'', CHR ''>'', CHR 0x22}) s"

section \<open>Arguments\<close>

definition baseArguments :: "acme_cli \<Rightarrow> string list" where
  "baseArguments c = [''--config-home'', ac_acmeHome c, ''--cert-home'', ac_acmeHome c @ ''/certs'']"

definition challenge_arguments :: "acme_cli \<Rightarrow> acme_issue_request \<Rightarrow> acme_refusal + string list" where
  "challenge_arguments c r =
     (if ai_ChallengeType r = ''dns-01'' then
        (if ValidateCustomProviderCode (ai_DNSProvider r) \<noteq> None then Inl ProviderCode
         else if ai_DNSVariables r = [] then Inl CredentialsMissing
         else Inr [''--dns'', ai_DNSProvider r])
      else if ai_ChallengeType r = ''http-01'' then
        (if list_ex (\<lambda>d. startsWith d ''*.'') (ai_Domains r) then Inl WildcardHTTP
         else Inr [''--webroot'', ac_challengeDir c])
      else Inl ChallengeInvalid)"

definition issueArguments :: "acme_lib \<Rightarrow> acme_cli \<Rightarrow> acme_issue_request \<Rightarrow> acme_refusal + string list" where
  "issueArguments lib c r =
     (case engine_validateDomain (ai_PrimaryDomain r) of
        Some e \<Rightarrow> Inl e
      | None \<Rightarrow>
          if ai_Domains r = [] \<or> length (ai_Domains r) > 100 then Inl DomainCount
          else (case validateCA lib (ai_CADirectory r) of
            None \<Rightarrow> Inl CAInvalid
          | Some server \<Rightarrow>
              if \<not> emailAccepted lib (ai_Email r) then Inl EmailInvalid
              else (case first_error engine_validateDomain (ai_Domains r) of
                Some e \<Rightarrow> Inl e
              | None \<Rightarrow>
                  (case keyLength (ai_KeyType r) of
                     None \<Rightarrow> Inl KeyTypeInvalid
                   | Some len \<Rightarrow>
                       (case challenge_arguments c r of
                          Inl e \<Rightarrow> Inl e
                        | Inr rest \<Rightarrow>
                            Inr (baseArguments c @ [''--issue'', ''--server'', server, ''--accountemail'', ai_Email r]
                              @ concat (map (\<lambda>d. [''-d'', d]) (ai_Domains r))
                              @ [''--keylength'', len] @ rest))))))"

definition renewArguments :: "acme_lib \<Rightarrow> acme_cli \<Rightarrow> acme_renew_request \<Rightarrow> acme_refusal + string list" where
  "renewArguments lib c r =
     (case engine_validateDomain (ar_PrimaryDomain r) of
        Some e \<Rightarrow> Inl e
      | None \<Rightarrow>
          (case (if ar_CADirectory r = [] then Inr []
                 else case validateCA lib (ar_CADirectory r) of
                     None \<Rightarrow> Inl CAInvalid
                   | Some server \<Rightarrow> Inr [''--server'', server]) of
             Inl e \<Rightarrow> Inl e
           | Inr serverArguments \<Rightarrow>
               if \<not> isECC (ar_KeyType r) \<and> ar_KeyType r \<noteq> ''rsa-2048'' \<and> ar_KeyType r \<noteq> ''rsa-3072''
               then Inl KeyTypeInvalid
               else Inr (baseArguments c @ [''--renew'', ''-d'', ar_PrimaryDomain r] @ serverArguments
                 @ (if isECC (ar_KeyType r) then [''--ecc''] else [])
                 @ (if ar_Force r then [''--force''] else []))))"

section \<open>Running the command\<close>

definition maxOutput :: int where
  "maxOutput = 512 * 1024"

definition fixed_environment :: variables where
  "fixed_environment =
     [(''PATH'', ''/usr/local/sbin:/usr/local/bin:/usr/sbin:/usr/bin:/sbin:/bin''),
      (''HOME'', ''/nonexistent''), (''LANG'', ''C''), (''LC_ALL'', ''C'')]"

definition process_environment :: "variables \<Rightarrow> variables" where
  "process_environment vars = fixed_environment @ sort_key fst vars"

text \<open>The value a process sees: \<open>os/exec\<close> keeps the last of several entries with the same name.\<close>

definition seen_value :: "variables \<Rightarrow> string \<Rightarrow> string option" where
  "seen_value environment n = map_of (rev environment) n"

definition variable_ok :: "string \<times> string \<Rightarrow> bool" where
  "variable_ok nv \<longleftrightarrow> ValidateProcessEnvironmentName (fst nv) = None \<and> snd nv \<noteq> []"

definition kept_output :: "variables \<Rightarrow> process_result \<Rightarrow> string" where
  "kept_output vars ps =
     cut_output 8192 (redactOutput
       (bytes_TrimSpace (fst (copy_output maxOutput [] (ps_stdout ps)) @ CHR 0x0A #
          fst (copy_output maxOutput [] (ps_stderr ps))))
       (map (\<lambda>(_, v). utf8 v) vars))"

definition cli_run ::
  "process \<Rightarrow> string list \<Rightarrow> variables \<Rightarrow> int \<times> string \<times> run_error option \<times> (string \<Rightarrow> string option)" where
  "cli_run proc args vars =
     (if \<not> list_all variable_ok vars then (- 1, [], Some EnvironmentInvalid, \<lambda>_. None)
      else (let ps = proc args (process_environment vars);
                output = kept_output vars ps;
                copied = snd (copy_output maxOutput [] (ps_stdout ps)) \<and> snd (copy_output maxOutput [] (ps_stderr ps))
            in case ps_ending ps of
                 TimedOut \<Rightarrow> (- 1, output, Some Deadline, ps_files ps)
               | NotStarted \<Rightarrow> (- 1, output, Some CommandFailed, ps_files ps)
               | Exited status \<Rightarrow>
                   if status \<noteq> 0 then (status, output, Some CommandFailed, ps_files ps)
                   else if \<not> copied then (- 1, output, Some CommandFailed, ps_files ps)
                   else (0, output, None, ps_files ps)))"

definition classifyDNSFailure :: "string \<Rightarrow> string \<Rightarrow> bool" where
  "classifyDNSFailure dnsProvider output \<longleftrightarrow> dnsProvider = ''dns_cf''
     \<and> sublist ''invalid domain'' output \<and> sublist ''Error adding TXT record to domain:'' output"

section \<open>The result\<close>

definition maxFile :: int where
  "maxFile = 2 * 1024 * 1024"

definition read_file :: "(string \<Rightarrow> string option) \<Rightarrow> string \<Rightarrow> string option" where
  "read_file files name =
     (case files name of None \<Rightarrow> None | Some b \<Rightarrow> if int (length b) > maxFile then None else Some b)"

definition read_result ::
  "x509_lib \<Rightarrow> string \<Rightarrow> (string \<Rightarrow> string option) \<Rightarrow> int \<Rightarrow> string \<Rightarrow> acme_failure + issued_certificate" where
  "read_result xl dir files status summary =
     (case (read_file files (dir @ ''/cert.pem''), read_file files (dir @ ''/chain.pem''),
            read_file files (dir @ ''/fullchain.pem''), read_file files (dir @ ''/privkey.pem'')) of
        (Some cert, Some chain, Some fullchain, Some key) \<Rightarrow>
          (case ParseCertificate xl cert of
             Inl e \<Rightarrow> Inl (ResultInvalid e)
           | Inr (certificate, meta) \<Rightarrow>
               (case ValidateKeyMatches xl certificate key of
                  Some e \<Rightarrow> Inl (ResultInvalid e)
                | None \<Rightarrow>
                    Inr \<lparr>is_CertificatePEM = cert, is_ChainPEM = chain, is_FullchainPEM = fullchain,
                      is_PrivateKeyPEM = key, is_Issuer = mt_Issuer meta, is_SerialNumber = mt_SerialNumber meta,
                      is_NotBefore = mt_NotBefore meta, is_NotAfter = mt_NotAfter meta,
                      is_FingerprintSHA256 = mt_FingerprintSHA256 meta, is_KeyAlgorithm = mt_KeyAlgorithm meta,
                      is_ExitCode = status, is_OutputSummary = summary\<rparr>))
      | _ \<Rightarrow> Inl FileFailed)"

definition cli_install ::
  "x509_lib \<Rightarrow> acme_cli \<Rightarrow> process \<Rightarrow> string option \<Rightarrow> string \<Rightarrow> string \<Rightarrow> variables \<Rightarrow> string
     \<Rightarrow> acme_failure + issued_certificate" where
  "cli_install xl c proc tempDir primaryDomain keyType vars previousOutput =
     (case tempDir of
        None \<Rightarrow> Inl TempDirFailed
      | Some dir \<Rightarrow>
          (let args = baseArguments c @ [''--install-cert'', ''-d'', primaryDomain]
                 @ (if isECC keyType then [''--ecc''] else [])
                 @ [''--cert-file'', dir @ ''/cert.pem'', ''--ca-file'', dir @ ''/chain.pem'',
                    ''--fullchain-file'', dir @ ''/fullchain.pem'', ''--key-file'', dir @ ''/privkey.pem''];
               (status, installOutput, err, files) = cli_run proc args vars;
               combined = bytes_TrimSpace (previousOutput @ CHR 0x0A # installOutput)
           in case err of
                Some e \<Rightarrow> Inl (CommandError ''install'' status combined True False e)
              | None \<Rightarrow> read_result xl dir files status combined))"

definition run_and_install ::
  "x509_lib \<Rightarrow> acme_cli \<Rightarrow> process \<Rightarrow> string option \<Rightarrow> string \<Rightarrow> string \<Rightarrow> string list \<Rightarrow> string \<Rightarrow> string
     \<Rightarrow> variables \<Rightarrow> acme_failure + issued_certificate" where
  "run_and_install xl c proc tempDir operation dnsProvider args primaryDomain keyType vars =
     (let (status, output, err, _) = cli_run proc args vars
      in case err of
           Some e \<Rightarrow> Inl (CommandError operation status output True (classifyDNSFailure dnsProvider output) e)
         | None \<Rightarrow> cli_install xl c proc tempDir primaryDomain keyType vars output)"

definition acme_Issue ::
  "acme_lib \<Rightarrow> x509_lib \<Rightarrow> acme_cli \<Rightarrow> process \<Rightarrow> string option \<Rightarrow> acme_issue_request
     \<Rightarrow> acme_failure + issued_certificate" where
  "acme_Issue lib xl c proc tempDir r =
     (case issueArguments lib c r of
        Inl e \<Rightarrow> Inl (Refused e)
      | Inr args \<Rightarrow> run_and_install xl c proc tempDir ''issue'' (ai_DNSProvider r) args
          (ai_PrimaryDomain r) (ai_KeyType r) (ai_DNSVariables r))"

definition acme_Renew ::
  "acme_lib \<Rightarrow> x509_lib \<Rightarrow> acme_cli \<Rightarrow> process \<Rightarrow> string option \<Rightarrow> acme_renew_request
     \<Rightarrow> acme_failure + issued_certificate" where
  "acme_Renew lib xl c proc tempDir r =
     (case renewArguments lib c r of
        Inl e \<Rightarrow> Inl (Refused e)
      | Inr args \<Rightarrow> run_and_install xl c proc tempDir ''renew'' (ar_DNSProvider r) args
          (ar_PrimaryDomain r) (ar_KeyType r) (ar_DNSVariables r))"

definition acme_Revoke :: "acme_cli \<Rightarrow> process \<Rightarrow> string \<Rightarrow> string \<Rightarrow> acme_failure option" where
  "acme_Revoke c proc primaryDomain keyType =
     (case engine_validateDomain primaryDomain of
        Some e \<Rightarrow> Some (Refused e)
      | None \<Rightarrow>
          (let (status, output, err, _) = cli_run proc
             (baseArguments c @ [''--revoke'', ''-d'', primaryDomain] @ (if isECC keyType then [''--ecc''] else [])) []
           in map_option (CommandError ''revoke'' status output False False) err))"

definition acme_Remove :: "acme_cli \<Rightarrow> process \<Rightarrow> string \<Rightarrow> acme_failure option" where
  "acme_Remove c proc primaryDomain =
     (case engine_validateDomain primaryDomain of
        Some e \<Rightarrow> Some (Refused e)
      | None \<Rightarrow>
          (let (status, output, err, _) = cli_run proc (baseArguments c @ [''--remove'', ''-d'', primaryDomain]) []
           in map_option (CommandError ''remove'' status output False False) err))"

definition acme_Info :: "acme_cli \<Rightarrow> process \<Rightarrow> string \<Rightarrow> acme_failure + string" where
  "acme_Info c proc primaryDomain =
     (case engine_validateDomain primaryDomain of
        Some e \<Rightarrow> Inl (Refused e)
      | None \<Rightarrow>
          (let (_, output, err, _) = cli_run proc (baseArguments c @ [''--info'', ''-d'', primaryDomain]) []
           in case err of Some e \<Rightarrow> Inl (RunFailed e) | None \<Rightarrow> Inr output))"

section \<open>The two domain checks agree\<close>

lemma engine_checkLabels_None:
  "engine_checkLabels ls = None \<longleftrightarrow> validateLabels ls = None"
  by (induction ls) (auto simp: validateLabel_def)

lemma count_dots: "length (labels d) = Suc (count_list d (CHR ''.''))"
  unfolding labels_def by (induction d) (auto split: list.splits)

lemma valid_labels_shape:
  assumes "validateLabels (labels d) = None"
  shows "\<forall>c \<in> set d. domain_char c \<or> c = CHR ''.''" and "d \<noteq> []"
    and "hd d \<noteq> CHR ''.''" "last d \<noteq> CHR ''.''" "hd d \<noteq> CHR ''-''"
proof -
  have l: "l \<noteq> [] \<and> hd l \<noteq> CHR ''-'' \<and> list_all domain_char l \<and> CHR ''.'' \<notin> set l" if "l \<in> set (labels d)" for l
    using assms that validateLabel_None labels_no_dot by (auto simp: validateLabels_None)
  obtain h t where ht: "labels d = h # t" by (cases "labels d") auto
  have h: "h \<noteq> []" "hd h \<noteq> CHR ''-''" "hd h \<in> set h" "CHR ''.'' \<notin> set h" using l [of h] ht by auto
  have la: "last (labels d) \<in> set (labels d)" by simp
  then have z: "last (labels d) \<noteq> []" "last (last (labels d)) \<in> set (last (labels d))"
      "CHR ''.'' \<notin> set (last (labels d))" using l [OF la] by auto
  have hd: "hd d = hd h" and ne: "d \<noteq> []" using hd_join [OF h(1), of "''.''" t] ht join_labels [of d] by auto
  then show "d \<noteq> []" "hd d \<noteq> CHR ''-''" using h by auto
  show "hd d \<noteq> CHR ''.''" using hd h(3,4) by metis
  have "last d = last (last (labels d))" using last_join [of "labels d" "''.''"] z(1) join_labels [of d] by simp
  then show "last d \<noteq> CHR ''.''" using z(2,3) by metis
  have "set (join ''.'' ls) \<subseteq> \<Union> (set ` set ls) \<union> {CHR ''.''}" for ls
    by (induction "''.''" ls rule: join.induct) auto
  from this [of "labels d"] join_labels [of d] l
  show "\<forall>c \<in> set d. domain_char c \<or> c = CHR ''.''" by (fastforce simp: list_all_iff)
qed

lemma not_space_domain_char: "domain_char c \<or> c = CHR ''.'' \<or> c = CHR ''*'' \<Longrightarrow> \<not> go_space c"
  by (auto simp: domain_char_def is_lower_ascii_def is_digit_def go_space_def code_def)

lemma valid_domain_text:
  assumes "validateLabels (labels b) = None" and "d = b \<or> d = ''*.'' @ b"
  shows "go_TrimSpace d = d" and "\<not> endsWith d ''.''" and "CHR 0x0D \<notin> set d \<and> CHR 0x0A \<notin> set d"
proof -
  note b = valid_labels_shape [OF assms(1)]
  have ok: "\<forall>c \<in> set d. domain_char c \<or> c = CHR ''.'' \<or> c = CHR ''*''"
    using b(1) assms(2) by auto
  then have "\<forall>c \<in> set d. \<not> go_space c" using not_space_domain_char by blast
  then show "go_TrimSpace d = d" "CHR 0x0D \<notin> set d \<and> CHR 0x0A \<notin> set d"
    by (auto simp: go_TrimSpace_def strip_none go_space_def code_def)
  have "last d = last b" using assms(2) b(2) by auto
  with b(4) have "last d \<noteq> CHR ''.''" by metis
  then show "\<not> endsWith d ''.''" by (auto simp: endsWith_def suffix_def)
qed

lemma engine_agrees:
  "engine_validateDomain d = None \<longleftrightarrow> validateDomain d True = None"
proof (cases "startsWith d ''*.''")
  case True
  then obtain b where b: "d = ''*.'' @ b" by (auto simp: startsWith_def prefix_def)
  have drop: "drop 2 d = b" using b by simp
  have e: "engine_validateDomain d = None \<longleftrightarrow> d \<noteq> [] \<and> go_len d \<le> 253 \<and> CHR 0x0D \<notin> set d \<and> CHR 0x0A \<notin> set d
      \<and> d = toLowerCase d \<and> CHR ''*'' \<notin> set b \<and> 2 \<le> length (labels b) \<and> validateLabels (labels b) = None"
    using True drop by (auto simp: engine_validateDomain_def Let_def engine_checkLabels_None)
  have v: "validateDomain d True = None \<longleftrightarrow> d \<noteq> [] \<and> go_len d \<le> 253 \<and> d = toLowerCase d \<and> go_TrimSpace d = d
      \<and> \<not> endsWith d ''.'' \<and> CHR ''*'' \<notin> set b \<and> 2 \<le> length (labels b) \<and> validateLabels (labels b) = None"
    using True drop count_dots [of b] by (auto simp: validateDomain_def validateUnprefixed_def Let_def)
  show ?thesis unfolding e v using valid_domain_text [of b d] b by blast
next
  case False
  have e: "engine_validateDomain d = None \<longleftrightarrow> d \<noteq> [] \<and> go_len d \<le> 253 \<and> CHR 0x0D \<notin> set d \<and> CHR 0x0A \<notin> set d
      \<and> d = toLowerCase d \<and> CHR ''*'' \<notin> set d \<and> 2 \<le> length (labels d) \<and> validateLabels (labels d) = None"
    using False by (auto simp: engine_validateDomain_def Let_def engine_checkLabels_None)
  have v: "validateDomain d True = None \<longleftrightarrow> d \<noteq> [] \<and> go_len d \<le> 253 \<and> d = toLowerCase d \<and> go_TrimSpace d = d
      \<and> \<not> endsWith d ''.'' \<and> CHR ''*'' \<notin> set d \<and> 2 \<le> length (labels d) \<and> validateLabels (labels d) = None"
    using False by (auto simp: validateDomain_def validateUnprefixed_def)
  show ?thesis unfolding e v using valid_domain_text [of d d] by blast
qed

section \<open>Nothing typed is read as an option\<close>

lemma engine_valid_hd:
  assumes "engine_validateDomain d = None"
  shows "d \<noteq> [] \<and> hd d \<noteq> CHR ''-''"
proof (cases "startsWith d ''*.''")
  case True
  then show ?thesis by (auto simp: startsWith_def prefix_def)
next
  case False
  then have "validateLabels (labels d) = None"
    using assms by (auto simp: engine_validateDomain_def Let_def engine_checkLabels_None split: if_splits)
  from valid_labels_shape(2,5) [OF this] show ?thesis by simp
qed

lemma provider_code_hd: "ValidateCustomProviderCode p = None \<Longrightarrow> startsWith p ''dns_''"
  by (auto simp: ValidateCustomProviderCode_def providerCodePattern_def split: if_splits)

text \<open>\<open>URL.String\<close> begins with the scheme.\<close>

definition url_text_ok :: "acme_lib \<Rightarrow> bool" where
  "url_text_ok lib \<longleftrightarrow> (\<forall>s u. al_ParseURL lib s = Some u \<longrightarrow> ul_Scheme u \<noteq> [] \<longrightarrow> startsWith (ul_String u) (ul_Scheme u))"

definition is_option :: "string \<Rightarrow> bool" where
  "is_option s \<longleftrightarrow> startsWith s ''-''"

lemma is_option_hd: "s \<noteq> [] \<Longrightarrow> is_option s \<longleftrightarrow> hd s = CHR ''-''"
  by (cases s) (auto simp: is_option_def startsWith_def)

lemma not_option_prefix: "startsWith s p \<Longrightarrow> p \<noteq> [] \<Longrightarrow> hd p \<noteq> CHR ''-'' \<Longrightarrow> \<not> is_option s"
  by (cases p) (auto simp: is_option_def startsWith_def prefix_def)

lemma validateCA_value:
  assumes "validateCA lib s = Some server" and "url_text_ok lib"
  shows "\<not> is_option server"
proof (cases "s \<in> {''letsencrypt'', ''letsencrypt_test'', ''zerossl''}")
  case True
  then show ?thesis using assms(1) by (auto simp: validateCA_def is_option_def startsWith_def)
next
  case False
  then obtain u where "al_ParseURL lib s = Some u" "ul_Scheme u = ''https''" "server = ul_String u"
    using assms(1) by (auto simp: validateCA_def split: option.splits if_splits)
  then have "startsWith server ''https''" using assms(2) unfolding url_text_ok_def by fastforce
  then show ?thesis by (rule not_option_prefix) auto
qed

lemma keyLength_value: "keyLength k = Some len \<Longrightarrow> \<not> is_option len"
  by (auto simp: keyLength_def is_option_def startsWith_def split: if_splits)

text \<open>
  Option-and-value pairs: the options at the even places, their values at the odd ones.
\<close>

fun paired :: "string list \<Rightarrow> (string \<times> string) list" where
  "paired (opt # val # rest) = (opt, val) # paired rest"
| "paired _ = []"

lemma paired_domains: "paired (concat (map (\<lambda>d. [''-d'', d]) ds) @ rest) = map (\<lambda>d. (''-d'', d)) ds @ paired rest"
  by (induction ds) auto

definition issue_options :: "string list" where
  "issue_options = [''--config-home'', ''--cert-home'', ''--issue'', ''--server'', ''--accountemail'', ''-d'',
     ''--keylength'', ''--dns'', ''--webroot'']"

lemma issueArguments_Inr:
  assumes "issueArguments lib c r = Inr args"
  obtains server len kind where
    "args = baseArguments c @ [''--issue'', ''--server'', server, ''--accountemail'', ai_Email r]
       @ concat (map (\<lambda>d. [''-d'', d]) (ai_Domains r)) @ [''--keylength'', len] @ kind"
    "validateCA lib (ai_CADirectory r) = Some server" "keyLength (ai_KeyType r) = Some len"
    "challenge_arguments c r = Inr kind" "\<forall>d \<in> set (ai_Domains r). engine_validateDomain d = None"
  using assms unfolding issueArguments_def
  by (auto simp: first_error_None split: option.splits if_splits sum.splits)

lemma challenge_arguments_Inr:
  assumes "challenge_arguments c r = Inr kind"
  shows "kind = [''--webroot'', ac_challengeDir c] \<or> (kind = [''--dns'', ai_DNSProvider r] \<and> \<not> is_option (ai_DNSProvider r))"
  using assms not_option_prefix [OF provider_code_hd, of "ai_DNSProvider r"]
  by (auto simp: challenge_arguments_def split: if_splits)

lemma issue_arguments_shape:
  assumes "url_text_ok lib" and "issueArguments lib c r = Inr args"
  shows "\<forall>a \<in> set args. is_option a \<longrightarrow> a \<in> set issue_options \<or> a = ai_Email r
      \<or> a \<in> {ac_acmeHome c, ac_acmeHome c @ ''/certs'', ac_challengeDir c}"
    and "map snd (filter (\<lambda>(opt, _). opt = ''-d'') (paired (drop 5 args))) = ai_Domains r"
proof -
  from assms(2) obtain server len kind where
    args: "args = baseArguments c @ [''--issue'', ''--server'', server, ''--accountemail'', ai_Email r]
       @ concat (map (\<lambda>d. [''-d'', d]) (ai_Domains r)) @ [''--keylength'', len] @ kind"
    and ok: "validateCA lib (ai_CADirectory r) = Some server" "keyLength (ai_KeyType r) = Some len"
      "challenge_arguments c r = Inr kind" "\<forall>d \<in> set (ai_Domains r). engine_validateDomain d = None"
    by (rule issueArguments_Inr)
  have v: "\<not> is_option server" "\<not> is_option len" "\<forall>d \<in> set (ai_Domains r). \<not> is_option d"
    using validateCA_value [OF ok(1) assms(1)] keyLength_value [OF ok(2)] ok(4) engine_valid_hd is_option_hd by blast+
  note kind = challenge_arguments_Inr [OF ok(3)]
  show "\<forall>a \<in> set args. is_option a \<longrightarrow> a \<in> set issue_options \<or> a = ai_Email r
      \<or> a \<in> {ac_acmeHome c, ac_acmeHome c @ ''/certs'', ac_challengeDir c}"
    unfolding args using v kind by (auto simp: baseArguments_def issue_options_def)
  have "drop 5 args = [''--server'', server, ''--accountemail'', ai_Email r]
      @ concat (map (\<lambda>d. [''-d'', d]) (ai_Domains r)) @ [''--keylength'', len] @ kind"
    unfolding args by (simp add: baseArguments_def)
  moreover have "filter (\<lambda>(opt, _). opt = ''-d'') (map (\<lambda>d. (''-d'', d)) ds) = map (\<lambda>d. (''-d'', d)) ds" for ds
    by (induction ds) auto
  ultimately show "map snd (filter (\<lambda>(opt, _). opt = ''-d'') (paired (drop 5 args))) = ai_Domains r"
    using kind by (auto simp: paired_domains comp_def)
qed

section \<open>The environment of the process\<close>

lemma seen_forbidden:
  assumes "\<forall>(n, v) \<in> set vars. ValidateProcessEnvironmentName n = None" and "f \<in> set forbiddenEnvironmentNames"
  shows "seen_value (process_environment vars) f = map_of (rev fixed_environment) f"
proof -
  have "\<forall>g \<in> set forbiddenEnvironmentNames. ValidateProcessEnvironmentName g \<noteq> None" by code_simp
  with assms have "f \<notin> fst ` set vars" by force
  then have "map_of (rev (sort_key fst vars)) f = None" by (simp add: map_of_eq_None_iff)
  then show ?thesis by (simp add: seen_value_def process_environment_def map_add_def)
qed

section \<open>Credential values in what is kept\<close>

text \<open>What of the output is returned: the summary of an error, or the one of a result.\<close>

fun kept_summary :: "acme_failure + issued_certificate \<Rightarrow> string" where
  "kept_summary (Inl (CommandError _ _ summary _ _ _)) = summary"
| "kept_summary (Inl _) = []"
| "kept_summary (Inr x) = is_OutputSummary x"

lemma kept_output_hidden:
  assumes "hideable v" "(n, v) \<in> set vars"
  shows "\<not> sublist (utf8 v) (kept_output vars ps)"
  unfolding kept_output_def
  by (intro cut_output_absent redactOutput_absent hideable_unmarked assms(1)) (use assms(2) in force)

lemma cli_run_hidden:
  assumes "hideable v" "(n, v) \<in> set vars" "cli_run proc args vars = (status, output, err, files)"
  shows "\<not> sublist (utf8 v) output"
proof -
  have "output = [] \<or> output = kept_output vars (proc args (process_environment vars))"
    using assms(3) by (auto simp: cli_run_def Let_def split: if_splits ending.splits)
  moreover have "\<not> sublist (utf8 v) []" using assms(1) utf8_hd by (auto simp: hideable_def)
  ultimately show ?thesis using kept_output_hidden [OF assms(1,2)] by metis
qed

lemma read_result_summary:
  "hideable v \<Longrightarrow> \<not> sublist (utf8 v) summary \<Longrightarrow>
     \<not> sublist (utf8 v) (kept_summary (read_result xl dir files status summary))"
  using utf8_hd [of v] by (auto simp: read_result_def hideable_def split: option.splits sum.splits)

lemma cli_install_hidden:
  assumes "hideable v" "(n, v) \<in> set vars" "\<not> sublist (utf8 v) previousOutput"
  shows "\<not> sublist (utf8 v) (kept_summary (cli_install xl c proc tempDir d k vars previousOutput))"
proof (cases tempDir)
  case None
  then show ?thesis using utf8_hd [of v] assms(1) by (simp add: cli_install_def hideable_def)
next
  case (Some dir)
  let ?args = "baseArguments c @ [''--install-cert'', ''-d'', d] @ (if isECC k then [''--ecc''] else [])
     @ [''--cert-file'', dir @ ''/cert.pem'', ''--ca-file'', dir @ ''/chain.pem'',
        ''--fullchain-file'', dir @ ''/fullchain.pem'', ''--key-file'', dir @ ''/privkey.pem'']"
  obtain status out err files where r: "cli_run proc ?args vars = (status, out, err, files)"
    by (metis prod_cases4)
  have "\<not> sublist (utf8 v) (bytes_TrimSpace (previousOutput @ CHR 0x0A # out))"
    by (rule TrimSpace_absent [OF hideable_join [OF assms(1,3) cli_run_hidden [OF assms(1,2) r]]])
  then show ?thesis
    using Some r read_result_summary [OF assms(1)] by (auto simp: cli_install_def Let_def split: option.splits)
qed

lemma run_and_install_hidden:
  assumes "hideable v" "(n, v) \<in> set vars"
  shows "\<not> sublist (utf8 v) (kept_summary (run_and_install xl c proc tempDir op p args d k vars))"
proof -
  obtain status out err files where r: "cli_run proc args vars = (status, out, err, files)"
    by (metis prod_cases4)
  note h = cli_run_hidden [OF assms r]
  show ?thesis using r h cli_install_hidden [OF assms h] by (auto simp: run_and_install_def split: option.splits)
qed

lemma refused_summary: "hideable v \<Longrightarrow> \<not> sublist (utf8 v) (kept_summary (Inl (Refused e)))"
  using utf8_hd [of v] by (simp add: hideable_def)

section \<open>Results\<close>

lemma read_result_Inr:
  assumes "read_result xl dir files status summary = Inr x"
  shows "key_belongs xl (is_CertificatePEM x) (is_PrivateKeyPEM x)"
    and "int (length (is_CertificatePEM x)) \<le> maxFile" "int (length (is_PrivateKeyPEM x)) \<le> maxFile"
  using assms
  by (auto simp: read_result_def read_file_def key_belongs_def split: option.splits sum.splits if_splits)

lemma run_and_install_Inr:
  assumes "run_and_install xl c proc tempDir op p args d k vars = Inr x"
  shows "key_belongs xl (is_CertificatePEM x) (is_PrivateKeyPEM x)"
  using assms read_result_Inr(1)
  by (auto simp: run_and_install_def cli_install_def Let_def split: option.splits prod.splits)

end
