(* ===== verification/Selfsigned_Engine.thy ===== *)
theory Selfsigned_Engine
  imports Acme_Engine
begin

text \<open>
  \<open>internal/certificate/selfsigned/engine.go\<close>: the arguments and the configuration file given to
  \<open>openssl req\<close>, and the checks on what it produced. As for \<open>acme.sh\<close>, the process is a function, here
  from the arguments and the configuration file to what it does.
\<close>

section \<open>Definitions\<close>

type_synonym openssl = "string list \<Rightarrow> string \<Rightarrow> process_result"

datatype selfsigned_failure =
    ValidDaysRange | SelfSignedKeyType | SelfSignedTempDir | OpenSSLTimeout | OpenSSLFailed int string
  | SelfSignedFile | SelfSignedInvalid parser_error

definition maxCommandOutput :: int where
  "maxCommandOutput = 256 * 1024"

definition buildArguments :: "selfsigned_request \<Rightarrow> string list option" where
  "buildArguments r =
     (let base = [''req'', ''-x509'', ''-new'', ''-nodes'', ''-sha256'', ''-days'', show_int (sr_ValidDays r)] in
      if sr_KeyType r = ''ec-256''
      then Some (base @ [''-newkey'', ''ec'', ''-pkeyopt'', ''ec_paramgen_curve:P-256''])
      else if sr_KeyType r = ''rsa-2048'' then Some (base @ [''-newkey'', ''rsa:2048''])
      else if sr_KeyType r = ''rsa-3072'' then Some (base @ [''-newkey'', ''rsa:3072''])
      else None)"

definition lines_text :: "string list \<Rightarrow> string" where
  "lines_text ls = concat (map (\<lambda>l. l @ [CHR 0x0A]) ls)"

definition alt_names :: "string list \<Rightarrow> string list" where
  "alt_names ds = map (\<lambda>(i, d). ''DNS.'' @ show_nat (i + 1) @ '' = '' @ d) (enumerate 0 ds)"

definition buildConfig :: "selfsigned_request \<Rightarrow> string" where
  "buildConfig r = lines_text
     ([''[req]'', ''prompt = no'', ''distinguished_name = dn'', ''x509_extensions = v3_req'', [],
       ''[dn]'', ''CN = '' @ sr_PrimaryDomain r, [],
       ''[v3_req]'', ''basicConstraints = critical,CA:FALSE'', ''keyUsage = critical,digitalSignature,keyEncipherment'',
       ''extendedKeyUsage = serverAuth'', ''subjectAltName = @alt_names'', [],
       ''[alt_names]''] @ alt_names (sr_Domains r))"

definition selfsigned_result ::
  "x509_lib \<Rightarrow> int \<Rightarrow> string list \<Rightarrow> string \<Rightarrow> (string \<Rightarrow> string option) \<Rightarrow> string
     \<Rightarrow> selfsigned_failure + issued_certificate" where
  "selfsigned_result xl now domains dir files summary =
     (case (read_file files (dir @ ''/cert.pem''), read_file files (dir @ ''/privkey.pem'')) of
        (Some cert, Some key) \<Rightarrow>
          (case ValidateCertificateAndKey xl cert key domains now of
             Inl e \<Rightarrow> Inl (SelfSignedInvalid e)
           | Inr meta \<Rightarrow>
               Inr \<lparr>is_CertificatePEM = cert, is_ChainPEM = [], is_FullchainPEM = [],
                 is_PrivateKeyPEM = key, is_Issuer = mt_Issuer meta, is_SerialNumber = mt_SerialNumber meta,
                 is_NotBefore = mt_NotBefore meta, is_NotAfter = mt_NotAfter meta,
                 is_FingerprintSHA256 = mt_FingerprintSHA256 meta, is_KeyAlgorithm = mt_KeyAlgorithm meta,
                 is_ExitCode = 0, is_OutputSummary = summary\<rparr>)
      | _ \<Rightarrow> Inl SelfSignedFile)"

definition generate ::
  "x509_lib \<Rightarrow> openssl \<Rightarrow> string option \<Rightarrow> int \<Rightarrow> selfsigned_request \<Rightarrow> selfsigned_failure + issued_certificate" where
  "generate xl proc tempDir now r =
     (if sr_ValidDays r < 1 \<or> sr_ValidDays r > 3650 then Inl ValidDaysRange
      else case buildArguments r of
        None \<Rightarrow> Inl SelfSignedKeyType
      | Some args \<Rightarrow>
          (case tempDir of
             None \<Rightarrow> Inl SelfSignedTempDir
           | Some dir \<Rightarrow>
               (let ps = proc (args @ [''-keyout'', dir @ ''/privkey.pem'', ''-out'', dir @ ''/cert.pem'',
                      ''-config'', dir @ ''/openssl.cnf'', ''-extensions'', ''v3_req'']) (buildConfig r);
                    (out, ok1) = copy_output maxCommandOutput [] (ps_stdout ps);
                    (err, ok2) = copy_output maxCommandOutput [] (ps_stderr ps);
                    summary = sanitizeOutput (out @ CHR 0x0A # err) dir
                in case ps_ending ps of
                     TimedOut \<Rightarrow> Inl OpenSSLTimeout
                   | NotStarted \<Rightarrow> Inl (OpenSSLFailed (- 1) summary)
                   | Exited status \<Rightarrow>
                       if status \<noteq> 0 then Inl (OpenSSLFailed status summary)
                       else if \<not> (ok1 \<and> ok2) then Inl (OpenSSLFailed (- 1) summary)
                       else selfsigned_result xl now (sr_Domains r) dir (ps_files ps) summary)))"

section \<open>The configuration file\<close>

text \<open>
  Reading such a file: its lines, the ones of the section \<open>[alt_names]\<close>, and the text after the first
  equals sign with its spaces.
\<close>

definition file_lines :: "string \<Rightarrow> string list" where
  "file_lines s = split_on (\<lambda>c. c = CHR 0x0A) s"

definition setting_value :: "string \<Rightarrow> string" where
  "setting_value l = drop 2 (dropWhile (\<lambda>c. c \<noteq> CHR ''='') l)"

definition config_names :: "string \<Rightarrow> string list" where
  "config_names s = map setting_value (takeWhile (\<lambda>l. l \<noteq> [])
     (tl (dropWhile (\<lambda>l. l \<noteq> ''[alt_names]'') (file_lines s))))"

definition config_subject :: "string \<Rightarrow> string" where
  "config_subject s = setting_value (hd (tl (dropWhile (\<lambda>l. l \<noteq> ''[dn]'') (file_lines s))))"

lemma file_lines_text: "\<forall>l \<in> set ls. CHR 0x0A \<notin> set l \<Longrightarrow> file_lines (lines_text ls) = ls @ [[]]"
  unfolding file_lines_def lines_text_def
proof (induction ls)
  case (Cons l ls)
  have "split_on (\<lambda>c. c = CHR 0x0A) (l @ CHR 0x0A # concat (map (\<lambda>l. l @ [CHR 0x0A]) ls)) =
      l # split_on (\<lambda>c. c = CHR 0x0A) (concat (map (\<lambda>l. l @ [CHR 0x0A]) ls))"
    by (rule split_on_append_sep) (use Cons.prems in auto)
  with Cons show ?case by simp
qed simp

lemma show_nat_no: "c \<in> set (show_nat n) \<Longrightarrow> is_digit c"
  using show_nat_digits [of n] by (auto simp: list_all_iff)

lemma alt_name_line:
  assumes "CHR 0x0A \<notin> set d"
  shows "setting_value (''DNS.'' @ show_nat i @ '' = '' @ d) = d"
    and "CHR 0x0A \<notin> set (''DNS.'' @ show_nat i @ '' = '' @ d)"
proof -
  have no: "CHR ''='' \<notin> set (show_nat i)" "CHR 0x0A \<notin> set (show_nat i)"
    using show_nat_no [of "CHR ''=''" i] show_nat_no [of "CHR 0x0A" i] by (auto simp: is_digit_def code_def)
  then have "dropWhile (\<lambda>c. c \<noteq> CHR ''='') (show_nat i @ '' = '' @ d) = ''= '' @ d"
    by (subst dropWhile_append2) auto
  then show "setting_value (''DNS.'' @ show_nat i @ '' = '' @ d) = d" by (simp add: setting_value_def)
  show "CHR 0x0A \<notin> set (''DNS.'' @ show_nat i @ '' = '' @ d)" using no(2) assms by auto
qed

lemma alt_names_read:
  assumes "\<forall>d \<in> set ds. CHR 0x0A \<notin> set d"
  shows "map setting_value (alt_names ds) = ds" and "\<forall>l \<in> set (alt_names ds). CHR 0x0A \<notin> set l \<and> l \<noteq> []"
proof -
  have "map setting_value (alt_names ds) = map snd (enumerate 0 ds)"
    unfolding alt_names_def map_map
  proof (rule map_cong [OF refl])
    fix x assume "x \<in> set (enumerate 0 ds)"
    then have "snd x \<in> set ds" by (metis in_set_zip enumerate_eq_zip nth_mem)
    with assms alt_name_line(1) show "(setting_value \<circ> (\<lambda>(i, d). ''DNS.'' @ show_nat (i + 1) @ '' = '' @ d)) x = snd x"
      by (cases x) (auto simp del: append_Cons append_Nil)
  qed
  then show "map setting_value (alt_names ds) = ds" by simp
  show "\<forall>l \<in> set (alt_names ds). CHR 0x0A \<notin> set l \<and> l \<noteq> []"
  proof
    fix l assume "l \<in> set (alt_names ds)"
    then obtain i d where id: "(i, d) \<in> set (enumerate 0 ds)" "l = ''DNS.'' @ show_nat (i + 1) @ '' = '' @ d"
      unfolding alt_names_def by auto
    then have "d \<in> set ds" by (metis in_set_zip enumerate_eq_zip nth_mem snd_conv)
    then show "CHR 0x0A \<notin> set l \<and> l \<noteq> []"
      using alt_name_line(2) [of d "i + 1"] assms unfolding id(2) by auto
  qed
qed

lemma config_read_back:
  assumes "\<forall>d \<in> insert (sr_PrimaryDomain r) (set (sr_Domains r)). CHR 0x0A \<notin> set d"
  shows "config_names (buildConfig r) = sr_Domains r" and "config_subject (buildConfig r) = sr_PrimaryDomain r"
proof -
  have ds: "\<forall>d \<in> set (sr_Domains r). CHR 0x0A \<notin> set d" using assms by simp
  let ?head = "[''[req]'', ''prompt = no'', ''distinguished_name = dn'', ''x509_extensions = v3_req'', [],
       ''[dn]'', ''CN = '' @ sr_PrimaryDomain r, [],
       ''[v3_req]'', ''basicConstraints = critical,CA:FALSE'', ''keyUsage = critical,digitalSignature,keyEncipherment'',
       ''extendedKeyUsage = serverAuth'', ''subjectAltName = @alt_names'', [], ''[alt_names]'']"
  have "\<forall>l \<in> set (?head @ alt_names (sr_Domains r)). CHR 0x0A \<notin> set l"
    using assms alt_names_read(2) [OF ds] by auto
  then have lines: "file_lines (buildConfig r) = ?head @ alt_names (sr_Domains r) @ [[]]"
    unfolding buildConfig_def by (subst file_lines_text) auto
  have "takeWhile (\<lambda>l. l \<noteq> []) (alt_names (sr_Domains r) @ [[]]) = alt_names (sr_Domains r)"
    using alt_names_read(2) [OF ds] by (subst takeWhile_append2) auto
  then show "config_names (buildConfig r) = sr_Domains r"
    unfolding config_names_def lines using alt_names_read(1) [OF ds] by simp
  show "config_subject (buildConfig r) = sr_PrimaryDomain r"
    unfolding config_subject_def lines by (simp add: setting_value_def)
qed

section \<open>Results\<close>

lemma generate_Inr:
  assumes "generate xl proc tempDir now r = Inr x"
  obtains dir files summary where "tempDir = Some dir"
    "selfsigned_result xl now (sr_Domains r) dir files summary = Inr x"
    "1 \<le> sr_ValidDays r" "sr_ValidDays r \<le> 3650"
  using assms unfolding generate_def Let_def
  by (auto split: if_splits option.splits ending.splits prod.splits)

lemma selfsigned_result_Inr:
  assumes "selfsigned_result xl now domains dir files summary = Inr x"
  obtains meta where "ValidateCertificateAndKey xl (is_CertificatePEM x) (is_PrivateKeyPEM x) domains now = Inr meta"
    "is_NotBefore x = mt_NotBefore meta" "is_NotAfter x = mt_NotAfter meta" "is_OutputSummary x = summary"
  using assms unfolding selfsigned_result_def by (auto split: option.splits sum.splits)

end
