(* ===== verification/Service_Discipline.thy ===== *)
theory Service_Discipline
  imports Cert_Service
begin

text \<open>
  Which actions an operation of the certificate service may take when. A ghost state says what an
  operation controls: it has loaded a lock, holds the lock of a certificate, is working on a
  certificate whose row is marked as unfinished, or has published its files. \<open>ghost_step\<close> is the
  protocol, and \<open>disciplined\<close> says that a program follows it whatever the calls answer. Every
  operation except deletion follows the protocol; \<open>Service_Interleaving\<close> draws the consequences.
\<close>

section \<open>The protocol\<close>

text \<open>Statuses that promise published files.\<close>

definition issued_status :: "status \<Rightarrow> bool" where
  "issued_status s \<longleftrightarrow> s = StatusActive \<or> s = StatusExpiring \<or> s = StatusExpired"

text \<open>
  \<open>Busy\<close> and \<open>Published\<close> carry the held lock, or nothing for the operation that creates the
  certificate, which takes no lock.
\<close>

datatype ghost =
    Idle | Loaded string nat | Locked string nat
  | Busy string "nat option" | Published string "nat option" payload

fun owner :: "ghost \<Rightarrow> (string \<times> nat option) option" where
  "owner (Locked i m) = Some (i, Some m)"
| "owner (Busy i l) = Some (i, l)"
| "owner (Published i l p) = Some (i, l)"
| "owner _ = None"

text \<open>The row \<open>v\<close> records the certificate of the published files \<open>p\<close>.\<close>

definition row_records :: "cert_row \<Rightarrow> payload \<Rightarrow> bool" where
  "row_records v p \<longleftrightarrow> (let d = pl_Metadata p in
     md_certificate_id d = cr_ID v \<and> md_issuer d = cr_Issuer v \<and> md_serial_number d = cr_SerialNumber v
     \<and> cr_NotBefore v = Some (md_not_before d) \<and> cr_NotAfter v = Some (md_not_after d)
     \<and> md_fingerprint_sha256 d = cr_FingerprintSHA256 v)"

text \<open>
  \<open>K\<close> are directories of certificates the program has read, \<open>N\<close> certificates it knows not to be in
  creation.
\<close>

type_synonym knowledge = "(string \<times> string) set \<times> string set"

definition learn_row :: "string \<Rightarrow> service_error + cert_row \<Rightarrow> knowledge \<Rightarrow> knowledge" where
  "learn_row i res kn =
     (case res of
        Inl _ \<Rightarrow> kn
      | Inr v \<Rightarrow> (insert (i, nc_OutputDirectory v) (fst kn),
          if nc_Status v = StatusIssuing then snd kn else insert i (snd kn)))"

fun ghost_step :: "ghost \<Rightarrow> knowledge \<Rightarrow> action \<Rightarrow> reply \<Rightarrow> (ghost \<times> knowledge) option" where
  "ghost_step g kn (GetRow i) r = Some (g, learn_row i (re_row r) kn)"
| "ghost_step g kn (CreateRow c) r =
     (if g = Idle \<and> nc_Status c = StatusIssuing
      then Some (case re_row r of
          Inl _ \<Rightarrow> (Idle, kn)
        | Inr v \<Rightarrow> (Busy (cr_ID v) None, insert (cr_ID v, nc_OutputDirectory c) (fst kn), snd kn))
      else None)"
| "ghost_step g kn (LoadOrStoreLock i) r =
     (if g = Idle then Some (Loaded i (re_mutex r), kn) else None)"
| "ghost_step g kn (TryLock m) r =
     (case g of
        Loaded i m' \<Rightarrow> if m = m' then Some (if re_locked r then Locked i m else Idle, kn) else None
      | _ \<Rightarrow> None)"
| "ghost_step g kn (Unlock m) r =
     (case owner g of
        Some (i, Some m') \<Rightarrow> if m = m' then Some (Idle, kn) else None
      | _ \<Rightarrow> None)"
| "ghost_step g kn (SetStatus i st) r =
     (case g of
        Locked i' m \<Rightarrow>
          if i = i' \<and> i \<in> snd kn \<and> \<not> issued_status st
          then Some (if re_err r = None then Busy i (Some m) else g, kn) else None
      | _ \<Rightarrow> None)"
| "ghost_step g kn (MarkFailed i msg) r =
     (case g of
        Busy i' l \<Rightarrow> if i = i' then Some (if l = None \<and> re_err r = None then Idle else g, kn) else None
      | _ \<Rightarrow> None)"
| "ghost_step g kn (MarkIssued v) r =
     (case g of
        Published i l p \<Rightarrow>
          if cr_ID v = i \<and> row_records v p
          then Some (if re_err r = None then (case l of None \<Rightarrow> Idle | Some m \<Rightarrow> Locked i m) else g, kn)
          else None
      | _ \<Rightarrow> None)"
| "ghost_step g kn (MarkRenewed v) r =
     (case g of
        Published i l p \<Rightarrow>
          if cr_ID v = i \<and> row_records v p
          then Some (if re_err r = None then (case l of None \<Rightarrow> Idle | Some m \<Rightarrow> Locked i m) else g, kn)
          else None
      | _ \<Rightarrow> None)"
| "ghost_step g kn (Publish d p) r =
     (case g of
        Busy i l \<Rightarrow>
          if (i, d) \<in> fst kn then Some (if re_err r = None then Published i l p else g, kn) else None
      | _ \<Rightarrow> None)"
| "ghost_step g kn (CallEngine i call) r =
     (case owner g of
        Some (i', l) \<Rightarrow> if i = i' \<and> (l = None \<or> i \<in> snd kn) then Some (g, kn) else None
      | None \<Rightarrow> None)"
| "ghost_step g kn (DeleteRow i ev) r = None"
| "ghost_step g kn (DeleteLock i) r = None"
| "ghost_step g kn (Backup d) r = None"
| "ghost_step g kn (RemoveFiles d) r = None"
| "ghost_step g kn a r = Some (g, kn)"

text \<open>What is known of the answers: a read row has the asked identifier, a created one is new.\<close>

definition possible_reply :: "action \<Rightarrow> reply \<Rightarrow> bool" where
  "possible_reply a r \<longleftrightarrow>
     (case a of
        GetRow i \<Rightarrow> (case re_row r of Inr v \<Rightarrow> cr_ID v = i | Inl _ \<Rightarrow> True)
      | CreateRow c \<Rightarrow> (case re_row r of Inr v \<Rightarrow> (\<exists>i now. v = new_row i now c) | Inl _ \<Rightarrow> True)
      | _ \<Rightarrow> True)"

primrec disciplined ::
  "'a svc \<Rightarrow> ghost \<Rightarrow> knowledge \<Rightarrow> ('a \<Rightarrow> ghost \<Rightarrow> knowledge \<Rightarrow> bool) \<Rightarrow> bool" where
  "disciplined (Ret v) g kn Q = Q v g kn"
| "disciplined (Act a k) g kn Q =
     (\<forall>r. possible_reply a r \<longrightarrow>
        (case ghost_step g kn a r of None \<Rightarrow> False | Some (g', kn') \<Rightarrow> disciplined (k r) g' kn' Q))"

section \<open>Rules\<close>

lemma disciplined_bind:
  "disciplined (svc_bind m f) g kn Q = disciplined m g kn (\<lambda>v g' kn'. disciplined (f v) g' kn' Q)"
proof (induction m arbitrary: g kn)
  case (Act a k)
  then show ?case by (auto split: option.splits prod.splits)
qed simp

lemma disciplined_mono:
  "disciplined m g kn Q \<Longrightarrow> (\<And>v g' kn'. Q v g' kn' \<Longrightarrow> R v g' kn') \<Longrightarrow> disciplined m g kn R"
proof (induction m arbitrary: g kn)
  case (Act a k)
  then show ?case by (fastforce split: option.splits prod.splits)
qed simp

named_theorems svc_rules \<open>rules for disciplined programs\<close>

lemma disciplined_ignored [svc_rules]:
  "disciplined (ignored a m) g kn Q \<longleftrightarrow>
     (\<forall>r. possible_reply a r \<longrightarrow>
        (case ghost_step g kn a r of None \<Rightarrow> False | Some (g', kn') \<Rightarrow> disciplined m g' kn' Q))"
  by (simp add: ignored_def)

lemma disciplined_checked:
  "disciplined (checked a m) g kn Q \<longleftrightarrow>
     (\<forall>r. possible_reply a r \<longrightarrow>
        (case ghost_step g kn a r of
           None \<Rightarrow> False
         | Some (g', kn') \<Rightarrow> (case re_err r of Some e \<Rightarrow> Q (Inl e) g' kn' | None \<Rightarrow> disciplined m g' kn' Q)))"
  unfolding checked_def by (auto split: option.splits)

definition any_end :: "'a \<Rightarrow> ghost \<Rightarrow> knowledge \<Rightarrow> bool" where
  "any_end v g kn \<longleftrightarrow> True"

lemma any_end_simp [simp]: "any_end v g kn"
  by (simp add: any_end_def)

text \<open>An operation on an existing certificate ends controlling nothing.\<close>

definition ends_idle :: "'a \<Rightarrow> ghost \<Rightarrow> knowledge \<Rightarrow> bool" where
  "ends_idle v g kn \<longleftrightarrow> g = Idle"

lemma ends_idle_simp [simp]: "ends_idle v Idle kn"
  by (simp add: ends_idle_def)

text \<open>An operation under the lock \<open>m\<close> of certificate \<open>i\<close> keeps it until it ends.\<close>

definition keeps_lock :: "string \<Rightarrow> nat \<Rightarrow> 'a \<Rightarrow> ghost \<Rightarrow> knowledge \<Rightarrow> bool" where
  "keeps_lock i m v g kn \<longleftrightarrow> owner g = Some (i, Some m)"

lemma keeps_lock_simps [simp]:
  "keeps_lock i m v (Locked i' m') kn \<longleftrightarrow> i' = i \<and> m' = m"
  "keeps_lock i m v (Busy i' l) kn \<longleftrightarrow> i' = i \<and> l = Some m"
  "keeps_lock i m v (Published i' l p) kn \<longleftrightarrow> i' = i \<and> l = Some m"
  by (auto simp: keeps_lock_def)

lemma disciplined_get_row:
  assumes "\<And>e. Q (Inl e) g kn"
    and "\<And>v. cr_ID v = i \<Longrightarrow> disciplined (f v) g (learn_row i (Inr v) kn) Q"
  shows "disciplined (get_row i f) g kn Q"
  using assms by (auto simp: get_row_def possible_reply_def learn_row_def split: sum.splits)

lemma disciplined_return_row:
  assumes "\<And>r kn'. Q r g kn'"
  shows "disciplined (return_row i) g kn Q"
  using assms by (simp add: return_row_def)

lemma disciplined_with_lock:
  assumes "\<And>m. disciplined body (Locked i m) kn (keeps_lock i m)"
  shows "disciplined (with_lock i body) Idle kn ends_idle"
proof -
  have "disciplined (svc_bind body (\<lambda>v. Act (Unlock m) (\<lambda>_. Ret v))) (Locked i m) kn ends_idle" for m
    unfolding disciplined_bind
    by (rule disciplined_mono [OF assms]) (auto simp: keeps_lock_def)
  then show ?thesis by (simp add: with_lock_def unlocking_def)
qed

section \<open>The operations\<close>

lemma ghost_step_audit [simp]: "ghost_step g kn (audit_action a b c d e f) r = Some (g, kn)"
  by (simp add: audit_action_def)

lemma disciplined_failRenewal_lock:
  "disciplined (failRenewal cfg v jid ex out e ev actor ip) (Busy (cr_ID v) (Some m)) kn (keeps_lock (cr_ID v) m)"
  by (simp add: failRenewal_def svc_rules)

lemma disciplined_failRenewal_create:
  "disciplined (failRenewal cfg v jid ex out e ev actor ip) (Busy (cr_ID v) None) kn any_end"
  by (simp add: failRenewal_def svc_rules)

lemma row_records_issued: "row_records (with_issued v x) (payload_of v x now)"
  by (simp add: row_records_def with_issued_def payload_of_def metadata_of_def Let_def)

lemma with_issued_sel [simp]: "cr_ID (with_issued v x) = cr_ID v"
  by (simp add: with_issued_def)

definition marking :: "(cert_row \<Rightarrow> action) \<Rightarrow> bool" where
  "marking mark \<longleftrightarrow> mark = MarkIssued \<or> mark = MarkRenewed"

lemma ghost_step_marking:
  assumes "marking mark" and "cr_ID v = i" "row_records v p"
  shows "ghost_step (Published i l p) kn (mark v) r =
    Some (if re_err r = None then (case l of None \<Rightarrow> Idle | Some m \<Rightarrow> Locked i m) else Published i l p, kn)"
  using assms by (auto simp: marking_def)

lemma disciplined_publish_result:
  assumes "marking mark" and "(cr_ID v, nc_OutputDirectory v) \<in> fst kn"
  shows "disciplined (publish_result cfg mark v jid x ev actor ip) (Busy (cr_ID v) (Some m)) kn
    (keeps_lock (cr_ID v) m)"
  using assms
  by (auto simp: publish_result_def disciplined_failRenewal_lock disciplined_checked svc_rules
      ghost_step_marking row_records_issued split: option.splits intro!: disciplined_return_row)

lemma disciplined_engine_result:
  assumes "marking mark" and "(cr_ID v, nc_OutputDirectory v) \<in> fst kn" and "cr_ID v \<in> snd kn"
  shows "disciplined (engine_result cfg mark v jid call n c f ev actor ip) (Busy (cr_ID v) (Some m)) kn
    (keeps_lock (cr_ID v) m)"
  using assms
  by (auto simp: engine_result_def disciplined_failRenewal_lock disciplined_publish_result
      split: sum.splits option.splits)

lemma disciplined_acme_values:
  assumes "\<And>pv. disciplined (k pv) (Busy (cr_ID v) (Some m)) kn (keeps_lock (cr_ID v) m)"
  shows "disciplined (acme_values cfg strict v jid ev actor ip k) (Busy (cr_ID v) (Some m)) kn
    (keeps_lock (cr_ID v) m)"
  using assms by (auto simp: acme_values_def disciplined_failRenewal_lock split: sum.splits)

lemmas under_lock_rules = disciplined_failRenewal_lock disciplined_engine_result disciplined_acme_values
  marking_def disciplined_checked svc_rules

lemma disciplined_issueExistingCertificate:
  assumes "(cr_ID v, nc_OutputDirectory v) \<in> fst kn" and "cr_ID v \<in> snd kn"
  shows "disciplined (issueExistingCertificate cfg v actor ip) (Locked (cr_ID v) m) kn (keeps_lock (cr_ID v) m)"
  using assms
  by (auto simp: issueExistingCertificate_def issue_with_engine_def Let_def under_lock_rules issued_status_def
      split: option.splits)

lemma disciplined_renewExistingCertificate:
  assumes "(i, nc_OutputDirectory v) \<in> fst kn" and "i \<in> snd kn" and "cr_ID v = i"
  shows "disciplined (renewExistingCertificate cfg force v i jt ev actor ip) (Locked i m) kn (keeps_lock i m)"
  using assms
  by (auto simp: renewExistingCertificate_def renew_with_engine_def under_lock_rules issued_status_def
      split: option.splits)

lemma disciplined_issueExisting:
  "disciplined (issueExisting cfg i force jt ev actor ip) Idle kn ends_idle"
  unfolding issueExisting_def
proof (rule disciplined_get_row)
  fix v :: cert_row assume v: "cr_ID v = i"
  show "disciplined (with_lock i (if jt = ''issue'' then
          (if \<not> manualIssueAllowed (nc_Status v) then Ret (Inl ErrIssueNotAllowed)
           else issueExistingCertificate cfg v actor ip)
        else renewExistingCertificate cfg force v i jt ev actor ip)) Idle (learn_row i (Inr v) kn) ends_idle"
  proof (rule disciplined_with_lock)
    fix m
    let ?kn = "learn_row i (Inr v) kn"
    have "disciplined (issueExistingCertificate cfg v actor ip) (Locked i m) ?kn (keeps_lock i m)"
      if "manualIssueAllowed (nc_Status v)"
      using that v disciplined_issueExistingCertificate [of v ?kn cfg actor ip m]
      by (auto simp: learn_row_def manualIssueAllowed_def split: status.splits)
    moreover have "disciplined (renewExistingCertificate cfg force v i jt ev actor ip) (Locked i m) ?kn (keeps_lock i m)"
      if "renewAllowed (nc_Status v)"
      using that v by (intro disciplined_renewExistingCertificate) (auto simp: learn_row_def renewAllowed_def)
    moreover have "disciplined (renewExistingCertificate cfg force v i jt ev actor ip) (Locked i m) ?kn (keeps_lock i m)"
      if "\<not> renewAllowed (nc_Status v)"
      using that by (simp add: renewExistingCertificate_def)
    ultimately show "disciplined (if jt = ''issue'' then
          (if \<not> manualIssueAllowed (nc_Status v) then Ret (Inl ErrIssueNotAllowed)
           else issueExistingCertificate cfg v actor ip)
        else renewExistingCertificate cfg force v i jt ev actor ip) (Locked i m) ?kn (keeps_lock i m)"
      by auto
  qed
qed simp

lemma disciplined_Renew: "disciplined (service_Renew cfg i force actor ip) Idle kn ends_idle"
  by (simp add: service_Renew_def disciplined_issueExisting)

lemma disciplined_Issue: "disciplined (service_Issue cfg i actor ip) Idle kn ends_idle"
  unfolding service_Issue_def
  by (rule disciplined_get_row) (simp_all add: disciplined_issueExisting)

lemma disciplined_Update: "disciplined (service_Update i name auto_renew days marker actor ip) Idle kn ends_idle"
  by (auto simp: service_Update_def svc_rules disciplined_checked split: option.splits
      intro!: disciplined_get_row disciplined_return_row)

lemma disciplined_Revoke: "disciplined (service_Revoke cfg i actor ip) Idle kn ends_idle"
  unfolding service_Revoke_def
proof (rule disciplined_get_row, goal_cases)
  case (2 v)
  show ?case
  proof (cases "nc_Mode v \<noteq> ''acme'' \<or> \<not> revokeAllowed (nc_Status v) \<or> \<not> sc_acme cfg")
    case False
    then have "i \<in> snd (learn_row i (Inr v) kn)" by (auto simp: learn_row_def revokeAllowed_def)
    with False show ?thesis
      by (auto simp: disciplined_checked svc_rules issued_status_def split: option.splits sum.splits
          intro!: disciplined_with_lock disciplined_return_row)
  qed auto
qed simp

lemma disciplined_create_and_issue:
  assumes "nc_Status c = StatusIssuing"
  shows "disciplined (create_and_issue cfg c jt call n ex f det actor ip) Idle kn any_end"
proof -
  have "nc_OutputDirectory (new_row i now c) = nc_OutputDirectory c" for i now by (simp add: new_row_def)
  with assms show ?thesis
    by (auto simp: create_and_issue_def possible_reply_def disciplined_failRenewal_create disciplined_checked
        svc_rules Let_def ghost_step_marking marking_def row_records_issued
        split: sum.splits option.splits intro!: disciplined_return_row)
qed

lemma disciplined_CreateSelfSigned: "disciplined (service_CreateSelfSigned cfg request actor ip) Idle kn any_end"
proof -
  have "nc_Status c = StatusIssuing" if "createSelfSigned_value request = Inr c" for c
    using that by (auto simp: createSelfSigned_value_def Let_def split: if_splits sum.splits)
  then show ?thesis
    by (auto simp: service_CreateSelfSigned_def disciplined_create_and_issue split: sum.splits)
qed

lemma createACME_status: "createACME_value enabled resolve request = Inr c \<Longrightarrow> nc_Status c = StatusIssuing"
  by (auto simp: createACME_value_def Let_def split: if_splits sum.splits option.splits)

lemma disciplined_CreateACME: "disciplined (service_CreateACME cfg request actor ip) Idle kn any_end"
  by (auto simp: service_CreateACME_def disciplined_create_and_issue createACME_status Let_def
      split: sum.splits)

lemma disciplined_scan_attempts: "disciplined (scan_attempts cfg i interval retries) Idle kn ends_idle"
proof (induction retries arbitrary: kn)
  case 0
  show ?case
    unfolding scan_attempts.simps disciplined_bind
    by (rule disciplined_mono [OF disciplined_Renew]) (simp add: ends_idle_def)
next
  case (Suc n)
  show ?case
    unfolding scan_attempts.simps disciplined_bind
    by (rule disciplined_mono [OF disciplined_Renew]) (auto simp: ends_idle_def Suc.IH)
qed

lemma disciplined_scan: "disciplined (scan_goroutine cfg retries interval item) Idle kn ends_idle"
  by (simp add: scan_goroutine_def disciplined_scan_attempts)

section \<open>All operations\<close>

datatype service_call =
    CallCreateSelfSigned createCertificateRequest | CallCreateACME createCertificateRequest
  | CallIssue string | CallRenew string bool | CallRevoke string
  | CallUpdate string string bool int bool | CallScanItem cert_row nat int

text \<open>An operation, forgetting its result, on behalf of an actor.\<close>

definition forget :: "'a svc \<Rightarrow> unit svc" where
  "forget m = svc_bind m (\<lambda>_. Ret ())"

fun call_program :: "service_config \<Rightarrow> string \<Rightarrow> string \<Rightarrow> service_call \<Rightarrow> unit svc" where
  "call_program cfg actor ip (CallCreateSelfSigned q) = forget (service_CreateSelfSigned cfg q actor ip)"
| "call_program cfg actor ip (CallCreateACME q) = forget (service_CreateACME cfg q actor ip)"
| "call_program cfg actor ip (CallIssue i) = forget (service_Issue cfg i actor ip)"
| "call_program cfg actor ip (CallRenew i force) = forget (service_Renew cfg i force actor ip)"
| "call_program cfg actor ip (CallRevoke i) = forget (service_Revoke cfg i actor ip)"
| "call_program cfg actor ip (CallUpdate i name auto_renew days marker) =
     forget (service_Update i name auto_renew days marker actor ip)"
| "call_program cfg actor ip (CallScanItem item retries interval) =
     forget (scan_goroutine cfg retries interval item)"

lemma disciplined_forget:
  "disciplined m g kn Q \<Longrightarrow> disciplined (forget m) g kn any_end"
  unfolding forget_def disciplined_bind by (erule disciplined_mono) simp

theorem call_program_disciplined: "disciplined (call_program cfg actor ip c) Idle kn any_end"
  by (cases c)
    (auto intro: disciplined_forget disciplined_CreateSelfSigned disciplined_CreateACME disciplined_Issue
      disciplined_Renew disciplined_Revoke disciplined_Update disciplined_scan)

end
