(* ===== verification/Service_Interleaving.thy ===== *)
theory Service_Interleaving
  imports Service_Discipline
begin

text \<open>
  Any number of service operations running at the same time, action by action, with failures of the
  database, the file system and the engines at any point, and with restarts of the server, which
  end all operations, forget all locks and mark unfinished jobs as interrupted
  (\<open>MarkInterruptedJobs\<close> of \<open>internal/store/sqlite/store.go\<close>, called from \<open>internal/app/app.go\<close>).
\<close>

section \<open>Interleaved operations\<close>

record svc_pool =
  sp_threads :: "unit svc list"
  sp_world :: world

definition markInterruptedJobs :: "string \<Rightarrow> int \<Rightarrow> stored_job list \<Rightarrow> stored_job list" where
  "markInterruptedJobs msg now jobs =
     map (\<lambda>j. if jb_Status j = ''running''
       then j\<lparr>jb_Status := ''interrupted'', jb_FinishedAt := Some now,
              jb_ErrorMessage := if jb_ErrorMessage j = [] then msg else jb_ErrorMessage j\<rparr> else j) jobs"

definition restarted :: "string \<Rightarrow> int \<Rightarrow> world \<Rightarrow> world" where
  "restarted msg now w = w\<lparr>wd_jobs := markInterruptedJobs msg now (wd_jobs w), wd_locks := Map.empty,
     wd_held := [], wd_mutexes := 0\<rparr>"

inductive svc_step :: "environment \<Rightarrow> (unit svc \<Rightarrow> bool) \<Rightarrow> svc_pool \<Rightarrow> svc_pool \<Rightarrow> bool"
  for env ops where
  spawn: "ops m \<Longrightarrow> svc_step env ops p (p\<lparr>sp_threads := sp_threads p @ [m]\<rparr>)"
| act: "j < length (sp_threads p) \<Longrightarrow> sp_threads p ! j = Act a k \<Longrightarrow>
    perform env a (sp_world p) = (r, w) \<Longrightarrow>
    svc_step env ops p (p\<lparr>sp_threads := (sp_threads p)[j := k r], sp_world := w\<rparr>)"
| restart: "svc_step env ops p \<lparr>sp_threads = [], sp_world = restarted msg now (sp_world p)\<rparr>"

inductive svc_reach :: "environment \<Rightarrow> (unit svc \<Rightarrow> bool) \<Rightarrow> svc_pool \<Rightarrow> svc_pool \<Rightarrow> bool"
  for env ops p0 where
  reach_start: "svc_reach env ops p0 p0"
| reach_next: "svc_reach env ops p0 p \<Longrightarrow> svc_step env ops p q \<Longrightarrow> svc_reach env ops p0 q"

text \<open>The operations of the service other than deletion, for any actor.\<close>

definition service_ops :: "service_config \<Rightarrow> unit svc \<Rightarrow> bool" where
  "service_ops cfg m \<longleftrightarrow> (\<exists>actor ip c. m = call_program cfg actor ip c)"

definition fresh_pool :: svc_pool where
  "fresh_pool = \<lparr>sp_threads = [], sp_world = empty_world\<rparr>"

text \<open>An executable scheduler.\<close>

datatype svc_choice = Spawn "unit svc" | Advance nat | Restart string int

fun svc_choose :: "environment \<Rightarrow> svc_choice \<Rightarrow> svc_pool \<Rightarrow> svc_pool option" where
  "svc_choose env (Spawn m) p = Some (p\<lparr>sp_threads := sp_threads p @ [m]\<rparr>)"
| "svc_choose env (Advance j) p =
     (if length (sp_threads p) \<le> j then None
      else case sp_threads p ! j of
        Ret _ \<Rightarrow> None
      | Act a k \<Rightarrow> (let (r, w) = perform env a (sp_world p)
          in Some (p\<lparr>sp_threads := (sp_threads p)[j := k r], sp_world := w\<rparr>)))"
| "svc_choose env (Restart msg now) p = Some \<lparr>sp_threads = [], sp_world = restarted msg now (sp_world p)\<rparr>"

fun svc_exec :: "environment \<Rightarrow> svc_choice list \<Rightarrow> svc_pool \<Rightarrow> svc_pool option" where
  "svc_exec env [] p = Some p"
| "svc_exec env (c # cs) p = (case svc_choose env c p of None \<Rightarrow> None | Some q \<Rightarrow> svc_exec env cs q)"

lemma svc_choose_step:
  "svc_choose env c p = Some q \<Longrightarrow> (\<forall>m. c = Spawn m \<longrightarrow> ops m) \<Longrightarrow> svc_step env ops p q"
  by (cases c) (auto simp: not_le intro: svc_step.intros split: if_splits svc.split_asm prod.split_asm)

lemma svc_exec_reach:
  "svc_exec env cs p = Some q \<Longrightarrow> svc_reach env ops p0 p \<Longrightarrow> (\<forall>m. Spawn m \<in> set cs \<longrightarrow> ops m) \<Longrightarrow>
     svc_reach env ops p0 q"
proof (induction cs arbitrary: p)
  case (Cons c cs)
  then obtain r where r: "svc_choose env c p = Some r" and q: "svc_exec env cs r = Some q"
    by (auto split: option.splits)
  have "svc_reach env ops p0 r"
    by (rule reach_next [OF Cons.prems(2) svc_choose_step [OF r]]) (use Cons.prems(3) in auto)
  with Cons.IH [OF q] Cons.prems(3) show ?case by simp
qed simp

section \<open>The state an operation sees\<close>

definition row_of :: "world \<Rightarrow> string \<Rightarrow> cert_row option" where
  "row_of w i = find_row i (wd_certs w)"

lemma find_row_id: "find_row i rows = Some r \<Longrightarrow> cr_ID r = i \<and> r \<in> set rows"
  by (auto simp: find_row_def dest!: find_SomeD)

lemma find_row_update:
  assumes "\<And>r. cr_ID (f r) = cr_ID r"
  shows "find_row i (update_rows j f rows) = (if i = j then map_option f (find_row i rows) else find_row i rows)"
  using assms by (induction rows) (auto simp: find_row_def update_rows_def)

lemma row_of_upd [simp]:
  assumes "\<And>r. cr_ID (f r) = cr_ID r"
  shows "row_of (upd_cert j f w) i = (if i = j then map_option f (row_of w i) else row_of w i)"
  by (simp add: row_of_def upd_cert_def find_row_update [OF assms])

lemma upd_cert_sel [simp]:
  "wd_files (upd_cert j f w) = wd_files w" "wd_locks (upd_cert j f w) = wd_locks w"
  "wd_held (upd_cert j f w) = wd_held w" "wd_mutexes (upd_cert j f w) = wd_mutexes w"
  by (simp_all add: upd_cert_def)

lemma row_exists_iff: "row_exists w i \<longleftrightarrow> row_of w i \<noteq> None"
  by (auto simp: row_exists_def row_of_def find_row_def find_None_iff list_ex_iff)

text \<open>What the statements about operations look at.\<close>

definition same_view :: "world \<Rightarrow> world \<Rightarrow> bool" where
  "same_view w w' \<longleftrightarrow> wd_certs w' = wd_certs w \<and> wd_files w' = wd_files w \<and> wd_locks w' = wd_locks w
     \<and> wd_held w' = wd_held w \<and> wd_mutexes w' = wd_mutexes w"

lemma row_of_tick [simp]: "row_of (w\<lparr>wd_tick := n\<rparr>) i = row_of w i"
  by (simp add: row_of_def)

section \<open>Invariant\<close>

definition world_ok :: "world \<Rightarrow> bool" where
  "world_ok w \<longleftrightarrow>
     (\<forall>i j r s. row_of w i = Some r \<and> row_of w j = Some s \<and> nc_OutputDirectory r = nc_OutputDirectory s \<longrightarrow> i = j)
   \<and> (\<forall>i r. row_of w i = Some r \<and> issued_status (nc_Status r) \<longrightarrow>
        (\<exists>p. wd_files w (nc_OutputDirectory r) = Some p \<and> row_records r p))
   \<and> (\<forall>i j m. wd_locks w i = Some m \<and> wd_locks w j = Some m \<longrightarrow> i = j)
   \<and> (\<forall>i m. wd_locks w i = Some m \<longrightarrow> m < wd_mutexes w)"

definition lock_ok :: "world \<Rightarrow> string \<Rightarrow> nat option \<Rightarrow> bool" where
  "lock_ok w i l \<longleftrightarrow> (case l of None \<Rightarrow> True | Some m \<Rightarrow> wd_locks w i = Some m \<and> m \<in> set (wd_held w))"

definition unfinished :: "nat option \<Rightarrow> cert_row \<Rightarrow> bool" where
  "unfinished l r \<longleftrightarrow> (if l = None then nc_Status r = StatusIssuing else \<not> issued_status (nc_Status r))"

definition ghost_ok :: "world \<Rightarrow> ghost \<Rightarrow> bool" where
  "ghost_ok w g \<longleftrightarrow>
     (case g of
        Idle \<Rightarrow> True
      | Loaded i m \<Rightarrow> wd_locks w i = Some m
      | Locked i m \<Rightarrow> lock_ok w i (Some m)
      | Busy i l \<Rightarrow> lock_ok w i l \<and> (\<exists>r. row_of w i = Some r \<and> unfinished l r)
      | Published i l p \<Rightarrow> lock_ok w i l
          \<and> (\<exists>r. row_of w i = Some r \<and> unfinished l r \<and> wd_files w (nc_OutputDirectory r) = Some p))"

definition knowledge_ok :: "world \<Rightarrow> knowledge \<Rightarrow> bool" where
  "knowledge_ok w kn \<longleftrightarrow>
     (\<forall>(i, d) \<in> fst kn. \<exists>r. row_of w i = Some r \<and> nc_OutputDirectory r = d)
   \<and> (\<forall>i \<in> snd kn. row_of w i \<noteq> None)"

text \<open>Two operations do not control the same certificate.\<close>

definition compatible :: "ghost \<times> knowledge \<Rightarrow> ghost \<times> knowledge \<Rightarrow> bool" where
  "compatible x y \<longleftrightarrow>
     (\<forall>i j m. owner (fst x) = Some (i, Some m) \<longrightarrow> owner (fst y) \<noteq> Some (j, Some m))
   \<and> (\<forall>i. owner (fst x) = Some (i, None) \<longrightarrow> owner (fst y) \<noteq> Some (i, None))
   \<and> (\<forall>i \<in> snd (snd x). owner (fst y) \<noteq> Some (i, None))
   \<and> (\<forall>i \<in> snd (snd y). owner (fst x) \<noteq> Some (i, None))"

text \<open>The certificate an operation has marked as unfinished and is working on.\<close>

fun working :: "ghost \<Rightarrow> (string \<times> nat option) option" where
  "working (Busy i l) = Some (i, l)"
| "working (Published i l p) = Some (i, l)"
| "working _ = None"

definition self_ok :: "world \<Rightarrow> ghost \<times> knowledge \<Rightarrow> bool" where
  "self_ok w x \<longleftrightarrow> ghost_ok w (fst x) \<and> knowledge_ok w (snd x)
     \<and> (\<forall>i \<in> snd (snd x). owner (fst x) \<noteq> Some (i, None))
     \<and> (\<forall>i m. working (fst x) = Some (i, Some m) \<longrightarrow> i \<in> snd (snd x))"

definition svc_inv :: "svc_pool \<Rightarrow> (ghost \<times> knowledge) list \<Rightarrow> bool" where
  "svc_inv p gs \<longleftrightarrow> length gs = length (sp_threads p) \<and> world_ok (sp_world p)
     \<and> (\<forall>j < length gs. self_ok (sp_world p) (gs ! j)
          \<and> disciplined (sp_threads p ! j) (fst (gs ! j)) (snd (gs ! j)) any_end)
     \<and> (\<forall>j < length gs. \<forall>k < length gs. j \<noteq> k \<longrightarrow> compatible (gs ! j) (gs ! k))"

section \<open>Steps\<close>

lemma working_owner: "working g = Some x \<Longrightarrow> owner g = Some x"
  by (cases g) auto

lemma self_ok_transfer:
  assumes ok: "self_ok w y"
    and rows: "\<And>i r. row_of w i = Some r \<Longrightarrow> \<exists>r'. row_of w' i = Some r'
        \<and> nc_OutputDirectory r' = nc_OutputDirectory r
        \<and> (\<forall>l. working (fst y) = Some (i, l) \<and> unfinished l r \<longrightarrow> unfinished l r')"
    and locks: "\<And>i m. wd_locks w i = Some m \<Longrightarrow> wd_locks w' i = Some m"
    and held: "\<And>i m. owner (fst y) = Some (i, Some m) \<Longrightarrow> m \<in> set (wd_held w) \<Longrightarrow> m \<in> set (wd_held w')"
    and files: "\<And>i l r. working (fst y) = Some (i, l) \<Longrightarrow> row_of w i = Some r \<Longrightarrow>
        wd_files w' (nc_OutputDirectory r) = wd_files w (nc_OutputDirectory r)"
  shows "self_ok w' y"
proof -
  obtain g K N where y: "y = (g, K, N)" by (cases y) auto
  have "knowledge_ok w' (K, N)"
    using ok rows unfolding y self_ok_def knowledge_ok_def by (fastforce split: prod.splits)
  moreover have "ghost_ok w' g"
  proof (cases g)
    case (Locked i m)
    then show ?thesis using ok locks held [of i m] by (auto simp: y self_ok_def ghost_ok_def lock_ok_def)
  next
    case (Busy i l)
    then obtain r where r: "row_of w i = Some r" "unfinished l r" and lk: "lock_ok w i l"
      using ok by (auto simp: y self_ok_def ghost_ok_def)
    then obtain r' where "row_of w' i = Some r'" "unfinished l r'"
      using rows [of i r] Busy by (auto simp: y)
    moreover have "lock_ok w' i l"
      using lk locks held [of i] Busy by (auto simp: lock_ok_def y split: option.splits)
    ultimately show ?thesis by (simp add: ghost_ok_def Busy)
  next
    case (Published i l p)
    then obtain r where r: "row_of w i = Some r" "unfinished l r" "wd_files w (nc_OutputDirectory r) = Some p"
      and lk: "lock_ok w i l"
      using ok by (auto simp: y self_ok_def ghost_ok_def)
    then obtain r' where "row_of w' i = Some r'" "unfinished l r'" "nc_OutputDirectory r' = nc_OutputDirectory r"
      using rows [of i r] Published by (auto simp: y)
    moreover have "wd_files w' (nc_OutputDirectory r) = Some p"
      using files [of i l r] r Published by (simp add: y)
    moreover have "lock_ok w' i l"
      using lk locks held [of i] Published by (auto simp: lock_ok_def y split: option.splits)
    ultimately show ?thesis by (simp add: ghost_ok_def Published)
  qed (use ok locks in \<open>auto simp: y self_ok_def ghost_ok_def\<close>)
  ultimately show ?thesis using ok by (simp add: y self_ok_def)
qed

lemma world_ok_transfer:
  assumes ok: "world_ok w"
    and rows: "\<And>i r'. row_of w' i = Some r' \<Longrightarrow> \<exists>r. row_of w i = Some r
        \<and> nc_OutputDirectory r' = nc_OutputDirectory r
        \<and> (issued_status (nc_Status r') \<longrightarrow>
             (\<exists>p. wd_files w' (nc_OutputDirectory r) = Some p \<and> row_records r' p))"
    and locks: "wd_locks w' = wd_locks w" "wd_mutexes w' = wd_mutexes w"
  shows "world_ok w'"
proof -
  have dirs: "i = j" if "row_of w' i = Some r" "row_of w' j = Some s" "nc_OutputDirectory r = nc_OutputDirectory s"
    for i j r s
    using rows [OF that(1)] rows [OF that(2)] that(3) ok unfolding world_ok_def by metis
  have published: "\<exists>p. wd_files w' (nc_OutputDirectory r) = Some p \<and> row_records r p"
    if "row_of w' i = Some r" "issued_status (nc_Status r)" for i r
    using rows [OF that(1)] that(2) by metis
  show ?thesis
    using ok unfolding world_ok_def locks
    by (intro conjI) (use dirs in blast, use published in blast, blast, blast)
qed

text \<open>One step of the operation \<open>x\<close>: the world, the operation itself and every other one stay fine.\<close>

definition step_ok :: "world \<Rightarrow> ghost \<times> knowledge \<Rightarrow> world \<Rightarrow> ghost \<times> knowledge \<Rightarrow> bool" where
  "step_ok w x w' x' \<longleftrightarrow> world_ok w' \<and> self_ok w' x'
     \<and> (\<forall>y. self_ok w y \<and> compatible x y \<longrightarrow> self_ok w' y \<and> compatible x' y)"

lemma step_okD: "step_ok w x w' x' \<Longrightarrow> self_ok w y \<Longrightarrow> compatible x y \<Longrightarrow> self_ok w' y \<and> compatible x' y"
  unfolding step_ok_def by blast

lemma step_ok_same:
  assumes "world_ok w" "self_ok w x" and same: "same_view w w'"
  shows "step_ok w x w' x"
proof -
  have r: "row_of w' = row_of w" using same by (simp add: same_view_def row_of_def fun_eq_iff)
  have "self_ok w' y = self_ok w y" for y
    using same by (simp add: self_ok_def ghost_ok_def lock_ok_def knowledge_ok_def r same_view_def
        split: ghost.split option.split)
  moreover have "world_ok w' = world_ok w" using same by (simp add: world_ok_def r same_view_def)
  ultimately show ?thesis using assms by (simp add: step_ok_def)
qed

text \<open>
  An operation controls a certificate that it is creating, or that it has locked and has seen not to
  be in creation. Two operations never control the same certificate.
\<close>

definition controls :: "ghost \<times> knowledge \<Rightarrow> string \<Rightarrow> bool" where
  "controls x i \<longleftrightarrow> (\<exists>l. owner (fst x) = Some (i, l) \<and> (l = None \<or> i \<in> snd (snd x)))"

lemma controlled_once:
  assumes "self_ok w x" "self_ok w y" "compatible x y" "controls x i" "controls y i"
  shows False
proof -
  obtain l l' where o: "owner (fst x) = Some (i, l)" "owner (fst y) = Some (i, l')"
    and n: "l = None \<or> i \<in> snd (snd x)" "l' = None \<or> i \<in> snd (snd y)"
    using assms(4,5) by (auto simp: controls_def)
  have lk: "lock_ok w i l" "lock_ok w i l'"
    using assms(1,2) o by (cases "fst x"; cases "fst y"; auto simp: self_ok_def ghost_ok_def)+
  show False
  proof (cases "l = None \<or> l' = None")
    case True
    then show False using assms(3) o n by (auto simp: compatible_def)
  next
    case False
    then obtain m m' where "l = Some m" "l' = Some m'" by auto
    moreover from this have "m = m'" using lk by (auto simp: lock_ok_def)
    ultimately show False using assms(3) o by (auto simp: compatible_def)
  qed
qed

text \<open>The row of a certificate an operation may change is not one another operation works on.\<close>

lemma not_working_on:
  assumes "self_ok w x" "self_ok w y" "compatible x y"
    and "owner (fst x) = Some (i, l)" and "l = None \<or> i \<in> snd (snd x)"
  shows "working (fst y) \<noteq> Some (i, l')"
proof
  assume y: "working (fst y) = Some (i, l')"
  then have "controls y i"
    using assms(2) working_owner [OF y] by (cases l') (auto simp: self_ok_def controls_def)
  moreover have "controls x i" using assms(4,5) by (auto simp: controls_def)
  ultimately show False using controlled_once assms(1-3) by blast
qed

text \<open>The operation \<open>x\<close> changes the row of the certificate \<open>i\<close> it controls, and no file.\<close>

lemma step_ok_row:
  assumes wok: "world_ok w" and xok: "self_ok w x"
    and own: "owner (fst x) = Some (i, l)" "l = None \<or> i \<in> snd (snd x)"
    and f: "\<And>r. cr_ID (f r) = cr_ID r" "\<And>r. nc_OutputDirectory (f r) = nc_OutputDirectory r"
    and row: "\<And>r. row_of w i = Some r \<Longrightarrow> issued_status (nc_Status (f r)) \<Longrightarrow>
        \<exists>p. wd_files w (nc_OutputDirectory r) = Some p \<and> row_records (f r) p"
    and x': "ghost_ok (upd_cert i f w) g'" "owner g' = None \<or> owner g' = Some (i, l)"
      "\<And>m. working g' = Some (i, Some m) \<Longrightarrow> i \<in> snd (snd x)"
  shows "step_ok w x (upd_cert i f w) (g', snd x)"
proof -
  let ?w = "upd_cert i f w"
  have rows: "\<exists>r'. row_of ?w j = Some r' \<and> nc_OutputDirectory r' = nc_OutputDirectory r" if "row_of w j = Some r" for j r
    using that f by auto
  have "world_ok ?w"
  proof (rule world_ok_transfer [OF wok])
    fix j r' assume r': "row_of ?w j = Some r'"
    show "\<exists>r. row_of w j = Some r \<and> nc_OutputDirectory r' = nc_OutputDirectory r \<and>
        (issued_status (nc_Status r') \<longrightarrow> (\<exists>p. wd_files ?w (nc_OutputDirectory r) = Some p \<and> row_records r' p))"
      using r' row f wok by (auto simp: world_ok_def split: if_splits)
  qed simp_all
  moreover have "knowledge_ok ?w (snd x)"
    using xok rows unfolding self_ok_def knowledge_ok_def by (fastforce split: prod.splits)
  then have "self_ok ?w (g', snd x)"
    using xok x' own by (auto simp: self_ok_def dest: working_owner)
  moreover have "self_ok ?w y \<and> compatible (g', snd x) y" if y: "self_ok w y" "compatible x y" for y
  proof
    have nw: "working (fst y) \<noteq> Some (i, l')" for l' by (rule not_working_on [OF xok y own])
    show "self_ok ?w y"
      by (rule self_ok_transfer [OF y(1)]) (use nw f in auto)
    show "compatible (g', snd x) y"
      using y(2) own x'(2) by (auto simp: compatible_def)
  qed
  ultimately show ?thesis by (simp add: step_ok_def)
qed

lemma step_ok_learn:
  assumes wok: "world_ok w" and xok: "self_ok w x"
    and row: "case res of Inl _ \<Rightarrow> True | Inr v \<Rightarrow> row_of w i = Some v"
  shows "step_ok w x w (fst x, learn_row i res (snd x))"
proof (cases res)
  case (Inl e)
  then have "(fst x, learn_row i res (snd x)) = x" by (simp add: learn_row_def)
  moreover have "same_view w w" by (simp add: same_view_def)
  ultimately show ?thesis using step_ok_same [OF wok xok] by metis
next
  case (Inr v)
  then have v: "row_of w i = Some v" using row by simp
  have creating: "nc_Status v = StatusIssuing" if "self_ok w y" "owner (fst y) = Some (i, None)" for y
    using that v by (cases "fst y") (auto simp: self_ok_def ghost_ok_def unfinished_def)
  have k: "knowledge_ok w (learn_row i res (snd x))"
    using xok v by (auto simp: self_ok_def knowledge_ok_def learn_row_def Inr)
  have "self_ok w (fst x, learn_row i res (snd x))"
    using xok k creating [OF xok] by (auto simp: self_ok_def learn_row_def Inr)
  moreover have "compatible (fst x, learn_row i res (snd x)) y" if "self_ok w y" "compatible x y" for y
    using that creating [OF that(1)] by (auto simp: compatible_def learn_row_def Inr)
  ultimately show ?thesis using wok by (simp add: step_ok_def)
qed

lemma find_row_snoc:
  "find_row i (rows @ [r]) = (case find_row i rows of Some x \<Rightarrow> Some x | None \<Rightarrow> if cr_ID r = i then Some r else None)"
  by (induction rows) (auto simp: find_row_def)

lemma step_ok_create:
  assumes wok: "world_ok w" and xok: "self_ok w x" and idle: "fst x = Idle"
    and c: "nc_Status c = StatusIssuing"
    and st: "store_CreateCertificate i now c w = (res, w')"
  shows "step_ok w x w' (case res of
      Inl _ \<Rightarrow> (Idle, snd x)
    | Inr v \<Rightarrow> (Busy (cr_ID v) None, insert (cr_ID v, nc_OutputDirectory c) (fst (snd x)), snd (snd x)))"
proof (cases res)
  case (Inl e)
  then have "w' = w" using st by (auto simp: store_CreateCertificate_def split: if_splits)
  moreover have "x = (Idle, snd x)" using idle by (cases x) simp
  moreover have "same_view w w" by (simp add: same_view_def)
  ultimately show ?thesis using step_ok_same [OF wok xok] Inl by simp
next
  case (Inr v)
  let ?r = "new_row i now c"
  have v: "v = ?r" and w': "w' = w\<lparr>wd_certs := wd_certs w @ [?r]\<rparr>" and new: "row_of w i = None"
    and dir: "\<forall>r \<in> set (wd_certs w). nc_OutputDirectory r \<noteq> nc_OutputDirectory c"
    using st Inr by (auto simp: store_CreateCertificate_def row_exists_iff list_ex_iff split: if_splits)
  have sel: "cr_ID ?r = i" "nc_OutputDirectory ?r = nc_OutputDirectory c" "nc_Status ?r = StatusIssuing"
    using c by (simp_all add: new_row_def)
  have row: "row_of w' j = (if j = i then Some ?r else row_of w j)" for j
    using new sel(1) by (auto simp: w' row_of_def find_row_snoc split: option.splits)
  have rest: "wd_files w' = wd_files w" "wd_locks w' = wd_locks w" "wd_held w' = wd_held w"
    "wd_mutexes w' = wd_mutexes w" by (simp_all add: w')
  have other: "nc_OutputDirectory r \<noteq> nc_OutputDirectory c" if "row_of w j = Some r" for j r
    using dir that by (auto simp: row_of_def dest: find_row_id)
  have "world_ok w'"
    using wok other sel unfolding world_ok_def rest row
    by (auto simp: issued_status_def split: if_splits) (metis other)+
  moreover have keep: "self_ok w' y" if "self_ok w y" for y
    by (rule self_ok_transfer [OF that]) (use new in \<open>auto simp: row rest split: if_splits\<close>)
  let ?x = "(Busy i None, insert (i, nc_OutputDirectory c) (fst (snd x)), snd (snd x))"
  have notin: "i \<notin> snd (snd y)" "owner (fst y) \<noteq> Some (i, None)" if "self_ok w y" for y
    using that new by (cases "fst y"; auto simp: self_ok_def knowledge_ok_def ghost_ok_def)+
  have "self_ok w' ?x"
    using keep [OF xok] notin(1) [OF xok] idle sel
    by (auto simp: self_ok_def knowledge_ok_def ghost_ok_def lock_ok_def unfinished_def row)
  moreover have "compatible ?x y" if "self_ok w y" "compatible x y" for y
    using that notin [OF that(1)] idle by (auto simp: compatible_def)
  ultimately show ?thesis using Inr v sel(1) by (simp add: step_ok_def keep)
qed

lemma step_ok_load:
  assumes wok: "world_ok w" and xok: "self_ok w x" and idle: "fst x = Idle"
    and st: "perform_action env (LoadOrStoreLock i) w = (r, w')"
  shows "step_ok w x w' (Loaded i (re_mutex r), snd x)"
proof -
  have row: "row_of w' = row_of w" and rest: "wd_files w' = wd_files w" "wd_held w' = wd_held w"
    and locks: "wd_locks w' = (wd_locks w)(i \<mapsto> re_mutex r)"
    and m: "wd_locks w i = Some (re_mutex r) \<and> wd_mutexes w' = wd_mutexes w
      \<or> wd_locks w i = None \<and> re_mutex r = wd_mutexes w \<and> wd_mutexes w' = Suc (wd_mutexes w)"
    using st by (auto simp: row_of_def fun_eq_iff split: option.splits)
  have old: "wd_locks w' j = Some n" if "wd_locks w j = Some n" for j n
    using that m by (auto simp: locks)
  have keep: "self_ok w' y" if "self_ok w y" for y
    by (rule self_ok_transfer [OF that]) (use old in \<open>auto simp: row rest\<close>)
  have "world_ok w'"
  proof -
    have lt: "\<And>j n. wd_locks w j = Some n \<Longrightarrow> n < wd_mutexes w"
      and inj: "\<And>j k n. wd_locks w j = Some n \<Longrightarrow> wd_locks w k = Some n \<Longrightarrow> j = k"
      using wok by (auto simp: world_ok_def)
    have "\<And>j n. wd_locks w' j = Some n \<Longrightarrow> n < wd_mutexes w'"
      using m by (auto simp: locks less_Suc_eq split: if_splits dest: lt)
    moreover have "\<And>j k n. wd_locks w' j = Some n \<Longrightarrow> wd_locks w' k = Some n \<Longrightarrow> j = k"
      using m lt inj by (auto simp: locks split: if_splits) (metis less_irrefl)+
    ultimately show ?thesis using wok by (simp add: world_ok_def row rest) blast
  qed
  moreover have "self_ok w' (Loaded i (re_mutex r), snd x)"
    using keep [OF xok] by (simp add: self_ok_def ghost_ok_def locks)
  moreover have "compatible (Loaded i (re_mutex r), snd x) y" if "compatible x y" for y
    using that idle by (simp add: compatible_def)
  ultimately show ?thesis by (simp add: step_ok_def keep)
qed

lemma step_ok_held:
  assumes wok: "world_ok w" and xok: "self_ok w x"
    and same: "row_of w' = row_of w" "wd_files w' = wd_files w" "wd_locks w' = wd_locks w" "wd_mutexes w' = wd_mutexes w"
    and held: "\<And>y i m. self_ok w y \<Longrightarrow> compatible x y \<Longrightarrow> owner (fst y) = Some (i, Some m) \<Longrightarrow>
        m \<in> set (wd_held w) \<Longrightarrow> m \<in> set (wd_held w')"
    and g': "ghost_ok w' g'" "working g' = None" "\<And>i. owner g' \<noteq> Some (i, None)"
    and comp: "\<And>y i j m. self_ok w y \<Longrightarrow> compatible x y \<Longrightarrow> owner g' = Some (i, Some m) \<Longrightarrow>
        owner (fst y) \<noteq> Some (j, Some m)"
  shows "step_ok w x w' (g', snd x)"
proof -
  have "world_ok w'" using wok unfolding world_ok_def same .
  moreover have "self_ok w' (g', snd x)"
    using xok g' by (auto simp: self_ok_def knowledge_ok_def same)
  moreover have "self_ok w' y \<and> compatible (g', snd x) y" if y: "self_ok w y" "compatible x y" for y
  proof
    show "self_ok w' y"
      by (rule self_ok_transfer [OF y(1)]) (use held [OF y] in \<open>auto simp: same\<close>)
    show "compatible (g', snd x) y"
      using comp [OF y] y(2) g'(3) by (auto simp: compatible_def)
  qed
  ultimately show ?thesis by (simp add: step_ok_def)
qed

lemma step_ok_publish:
  assumes wok: "world_ok w" and xok: "self_ok w x" and busy: "fst x = Busy i l"
    and d: "(i, d) \<in> fst (snd x)"
    and w': "w' = w\<lparr>wd_files := (wd_files w)(d := o')\<rparr>"
    and g': "g' = Busy i l \<or> (\<exists>p. o' = Some p \<and> g' = Published i l p)"
  shows "step_ok w x w' (g', snd x)"
proof -
  obtain r where r: "row_of w i = Some r" "nc_OutputDirectory r = d"
    using xok d by (auto simp: self_ok_def knowledge_ok_def split: prod.splits)
  have unfin: "unfinished l r" and lk: "lock_ok w i l" using xok busy r(1) by (auto simp: self_ok_def ghost_ok_def)
  then have uns: "\<not> issued_status (nc_Status r)" by (auto simp: unfinished_def issued_status_def split: if_splits)
  have row: "row_of w' = row_of w" by (simp add: w' row_of_def fun_eq_iff)
  have rest: "wd_files w' = (wd_files w)(d := o')" "wd_locks w' = wd_locks w" "wd_held w' = wd_held w"
    "wd_mutexes w' = wd_mutexes w" by (simp_all add: w')
  have other: "nc_OutputDirectory s \<noteq> d" if "row_of w j = Some s" "j \<noteq> i" for j s
    using wok r that unfolding world_ok_def by blast
  have own: "owner (fst x) = Some (i, l)" "l = None \<or> i \<in> snd (snd x)"
    using xok busy by (auto simp: self_ok_def)
  have "world_ok w'"
  proof (rule world_ok_transfer [OF wok])
    fix j s assume s: "row_of w' j = Some s"
    then show "\<exists>r. row_of w j = Some r \<and> nc_OutputDirectory s = nc_OutputDirectory r \<and>
        (issued_status (nc_Status s) \<longrightarrow> (\<exists>p. wd_files w' (nc_OutputDirectory r) = Some p \<and> row_records s p))"
      using other [of j s] uns r wok unfolding row by (cases "j = i") (auto simp: rest world_ok_def)
  qed (simp_all add: rest)
  moreover have "self_ok w' (g', snd x)"
    using xok busy g' r unfin lk own
    by (auto simp: self_ok_def knowledge_ok_def row ghost_ok_def lock_ok_def rest split: option.splits)
  moreover have "self_ok w' y \<and> compatible (g', snd x) y" if y: "self_ok w y" "compatible x y" for y
  proof
    have nw: "working (fst y) \<noteq> Some (i, l')" for l' by (rule not_working_on [OF xok y own])
    have "wd_files w' (nc_OutputDirectory s) = wd_files w (nc_OutputDirectory s)"
      if "working (fst y) = Some (j, l')" "row_of w j = Some s" for j l' s
      using other [of j s] that nw by (auto simp: rest)
    then show "self_ok w' y"
      by (intro self_ok_transfer [OF y(1)]) (auto simp: row rest)
    show "compatible (g', snd x) y"
      using y(2) busy g' by (auto simp: compatible_def)
  qed
  ultimately show ?thesis by (simp add: step_ok_def)
qed

lemma row_change_sel [simp]:
  "cr_ID (with_status st now r) = cr_ID r" "nc_OutputDirectory (with_status st now r) = nc_OutputDirectory r"
  "nc_Status (with_status st now r) = st"
  "cr_ID (marked_failed msg now r) = cr_ID r" "nc_OutputDirectory (marked_failed msg now r) = nc_OutputDirectory r"
  "nc_Status (marked_failed msg now r) = StatusFailed"
  "cr_ID (marked_issued v now r) = cr_ID r" "nc_OutputDirectory (marked_issued v now r) = nc_OutputDirectory r"
  "cr_ID (marked_renewed v now r) = cr_ID r" "nc_OutputDirectory (marked_renewed v now r) = nc_OutputDirectory r"
  "cr_ID (with_settings n b days k now r) = cr_ID r"
  "nc_OutputDirectory (with_settings n b days k now r) = nc_OutputDirectory r"
  "nc_Status (with_settings n b days k now r) = nc_Status r"
  by (simp_all add: with_status_def marked_failed_def marked_issued_def marked_renewed_def with_settings_def)

lemma row_records_marked:
  "row_records v p \<Longrightarrow> cr_ID r = cr_ID v \<Longrightarrow> row_records (marked_issued v now r) p"
  "row_records v p \<Longrightarrow> cr_ID r = cr_ID v \<Longrightarrow> row_records (marked_renewed v now r) p"
  "row_records (with_settings n b days k now r) p = row_records r p"
  by (simp_all add: row_records_def marked_issued_def marked_renewed_def with_settings_def Let_def)

lemma not_issued_simps [simp]:
  "\<not> issued_status StatusFailed" "\<not> issued_status StatusIssuing" "\<not> issued_status StatusRenewing" "\<not> issued_status StatusRevoked"
  by (simp_all add: issued_status_def)

lemma step_ok_SetStatus:
  assumes "world_ok w" "self_ok w x" "perform_action env (SetStatus i st) w = (r, w')"
    "ghost_step (fst x) (snd x) (SetStatus i st) r = Some x'"
  shows "step_ok w x w' x'"
proof -
  obtain m where x: "fst x = Locked i m" and i: "i \<in> snd (snd x)" and st: "\<not> issued_status st"
    and x': "x' = (if re_err r = None then Busy i (Some m) else fst x, snd x)"
    using assms(4) by (auto split: ghost.splits if_splits)
  show ?thesis
  proof (cases "en_fault env (wd_tick w) = NoFault")
    case True
    let ?f = "with_status st (en_now env (wd_tick w))"
    have w': "w' = upd_cert i ?f w" "re_err r = None"
      using assms(3) True by (auto simp: ok_reply_def)
    have lk: "lock_ok w i (Some m)" using assms(2) x by (simp add: self_ok_def ghost_ok_def)
    obtain v where "row_of w i = Some v" using assms(2) i by (auto simp: self_ok_def knowledge_ok_def)
    then have "ghost_ok (upd_cert i ?f w) (Busy i (Some m))"
      using lk st by (auto simp: ghost_ok_def lock_ok_def unfinished_def)
    then show ?thesis
      unfolding w' x' using x i st assms(1,2) by (simp, intro step_ok_row) auto
  next
    case False
    then have "w' = w" "x' = x" using assms(3) x' by (auto simp: err_reply_def ok_reply_def)
    then show ?thesis using step_ok_same [OF assms(1,2), of w] by (simp add: same_view_def)
  qed
qed

lemma step_ok_MarkFailed:
  assumes "world_ok w" "self_ok w x" "perform_action env (MarkFailed i msg) w = (r, w')"
    "ghost_step (fst x) (snd x) (MarkFailed i msg) r = Some x'"
  shows "step_ok w x w' x'"
proof -
  obtain l where x: "fst x = Busy i l"
    and x': "x' = (if l = None \<and> re_err r = None then Idle else Busy i l, snd x)"
    using assms(4) by (auto split: ghost.splits if_splits)
  show ?thesis
  proof (cases "en_fault env (wd_tick w) = NoFault")
    case True
    let ?f = "marked_failed msg (en_now env (wd_tick w))"
    have w': "w' = upd_cert i ?f w" "re_err r = None"
      using assms(3) True by (auto simp: ok_reply_def)
    have ok: "lock_ok w i l" "\<exists>v. row_of w i = Some v" "l = None \<or> i \<in> snd (snd x)"
      using assms(2) x by (auto simp: self_ok_def ghost_ok_def)
    then have "ghost_ok (upd_cert i ?f w) (if l = None then Idle else Busy i l)"
      by (auto simp: ghost_ok_def lock_ok_def unfinished_def)
    then have "step_ok w x (upd_cert i ?f w) (if l = None then Idle else Busy i l, snd x)"
      using x ok assms(1,2) by (intro step_ok_row [where l = l]) auto
    then show ?thesis by (simp add: w' x')
  next
    case False
    then have "w' = w" "x' = x" using assms(3) x x' by (auto simp: err_reply_def ok_reply_def prod_eq_iff)
    then show ?thesis using step_ok_same [OF assms(1,2), of w] by (simp add: same_view_def)
  qed
qed

lemma step_ok_mark:
  assumes "world_ok w" "self_ok w x"
    and x: "fst x = Published i l p" and v: "cr_ID v = i" "row_records v p"
    and f: "f = marked_issued v now \<or> f = marked_renewed v now"
  shows "step_ok w x (upd_cert i f w) (case l of None \<Rightarrow> Idle | Some m \<Rightarrow> Locked i m, snd x)"
proof -
  obtain r where r: "row_of w i = Some r" "wd_files w (nc_OutputDirectory r) = Some p" and lk: "lock_ok w i l"
    and known: "l = None \<or> i \<in> snd (snd x)"
    using assms(2) x by (auto simp: self_ok_def ghost_ok_def)
  have id: "cr_ID r = i" using r(1) by (auto simp: row_of_def dest: find_row_id)
  have rec: "row_records (f r) p" using f v id by (auto intro: row_records_marked)
  have "ghost_ok (upd_cert i f w) (case l of None \<Rightarrow> Idle | Some m \<Rightarrow> Locked i m)"
    using lk by (auto simp: ghost_ok_def lock_ok_def split: option.splits)
  then show ?thesis
    using x known r rec f assms(1,2)
    by (intro step_ok_row [where l = l]) (auto split: option.splits)
qed

lemma step_ok_Mark:
  assumes "world_ok w" "self_ok w x" and a: "a = MarkIssued v \<or> a = MarkRenewed v"
    and "perform_action env a w = (r, w')" "ghost_step (fst x) (snd x) a r = Some x'"
  shows "step_ok w x w' x'"
proof -
  obtain i l p where x: "fst x = Published i l p" and v: "cr_ID v = i" "row_records v p"
    and x': "x' = (if re_err r = None then (case l of None \<Rightarrow> Idle | Some m \<Rightarrow> Locked i m) else fst x, snd x)"
    using assms(5) a by (auto split: ghost.splits if_splits)
  show ?thesis
  proof (cases "en_fault env (wd_tick w) = NoFault")
    case True
    then have w': "w' = upd_cert i (if a = MarkIssued v then marked_issued v (en_now env (wd_tick w))
        else marked_renewed v (en_now env (wd_tick w))) w" "re_err r = None"
      using assms(4) a v by (auto simp: ok_reply_def)
    show ?thesis
      using step_ok_mark [OF assms(1,2) x v, of _ "en_now env (wd_tick w)"] by (simp add: w' x')
  next
    case False
    then have "w' = w" "x' = x" using assms(4) a x' by (auto simp: err_reply_def ok_reply_def)
    then show ?thesis using step_ok_same [OF assms(1,2), of w] by (simp add: same_view_def)
  qed
qed

lemma step_ok_UpdateSettings:
  assumes wok: "world_ok w" and xok: "self_ok w x"
  shows "step_ok w x (upd_cert i (with_settings n b days k now) w) x"
proof -
  let ?w = "upd_cert i (with_settings n b days k now) w"
  have "world_ok ?w"
  proof (rule world_ok_transfer [OF wok])
    fix j r' assume "row_of ?w j = Some r'"
    then show "\<exists>r. row_of w j = Some r \<and> nc_OutputDirectory r' = nc_OutputDirectory r \<and>
        (issued_status (nc_Status r') \<longrightarrow> (\<exists>p. wd_files ?w (nc_OutputDirectory r) = Some p \<and> row_records r' p))"
      using wok by (auto simp: world_ok_def row_records_marked split: if_splits)
  qed simp_all
  moreover have "self_ok ?w y" if "self_ok w y" for y
    by (rule self_ok_transfer [OF that]) (auto simp: unfinished_def)
  ultimately show ?thesis using xok by (simp add: step_ok_def)
qed

lemma step_ok_tick: "step_ok w x w' x' \<Longrightarrow> step_ok w x (w'\<lparr>wd_tick := n\<rparr>) x'"
proof -
  have "world_ok (w'\<lparr>wd_tick := n\<rparr>) = world_ok w'" "\<And>y. self_ok (w'\<lparr>wd_tick := n\<rparr>) y = self_ok w' y"
    by (simp_all add: world_ok_def self_ok_def ghost_ok_def knowledge_ok_def lock_ok_def
        split: ghost.split option.split)
  then show "step_ok w x w' x' \<Longrightarrow> step_ok w x (w'\<lparr>wd_tick := n\<rparr>) x'" by (simp add: step_ok_def)
qed

lemma step_ok_TryLock:
  assumes "world_ok w" "self_ok w x" "perform_action env (TryLock m) w = (r, w')"
    "ghost_step (fst x) (snd x) (TryLock m) r = Some x'"
  shows "step_ok w x w' x'"
proof -
  obtain i where x: "fst x = Loaded i m" and x': "x' = (if re_locked r then Locked i m else Idle, snd x)"
    using assms(4) by (auto split: ghost.splits if_splits)
  have held: "j \<in> set (wd_held w)" if "self_ok w y" "owner (fst y) = Some (k, Some j)" for y k j
    using that by (cases "fst y") (auto simp: self_ok_def ghost_ok_def lock_ok_def)
  show ?thesis
  proof (cases "m \<in> set (wd_held w)")
    case True
    then have "w' = w" "x' = (Idle, snd x)" using assms(3) x' by (auto simp: ok_reply_def)
    then show ?thesis
      using assms(1,2) by (simp, intro step_ok_held) (auto simp: ghost_ok_def)
  next
    case False
    then have w': "w' = w\<lparr>wd_held := m # wd_held w\<rparr>" "x' = (Locked i m, snd x)"
      using assms(3) x' by (auto simp: ok_reply_def)
    have "wd_locks w i = Some m" using assms(2) x by (simp add: self_ok_def ghost_ok_def)
    moreover have "row_of w' = row_of w" by (simp add: w' row_of_def fun_eq_iff)
    ultimately show ?thesis
      unfolding w'(2) using False held
      by (intro step_ok_held [OF assms(1,2)]) (auto simp: w' ghost_ok_def lock_ok_def)
  qed
qed

lemma step_ok_Unlock:
  assumes "world_ok w" "self_ok w x" "perform_action env (Unlock m) w = (r, w')"
    "ghost_step (fst x) (snd x) (Unlock m) r = Some x'"
  shows "step_ok w x w' x'"
proof -
  obtain i where x: "owner (fst x) = Some (i, Some m)" and x': "x' = (Idle, snd x)"
    using assms(4) by (auto split: option.splits if_splits prod.splits)
  have w': "w' = w\<lparr>wd_held := filter (\<lambda>k. k \<noteq> m) (wd_held w)\<rparr>" using assms(3) by auto
  have "row_of w' = row_of w" by (simp add: w' row_of_def fun_eq_iff)
  then show ?thesis
    unfolding x' using x
    by (intro step_ok_held [OF assms(1,2)]) (auto simp: w' ghost_ok_def compatible_def)
qed

lemma step_ok_Publish:
  assumes "world_ok w" "self_ok w x" "perform_action env (Publish d p) w = (r, w')"
    "ghost_step (fst x) (snd x) (Publish d p) r = Some x'"
  shows "step_ok w x w' x'"
proof -
  obtain i l where x: "fst x = Busy i l" and d: "(i, d) \<in> fst (snd x)"
    and x': "x' = (if re_err r = None then Published i l p else Busy i l, snd x)"
    using assms(4) by (auto split: ghost.splits if_splits)
  consider (published) "w' = w\<lparr>wd_files := (wd_files w)(d := Some p)\<rparr>" "re_err r = None"
    | (kept) "w' = w" "re_err r \<noteq> None"
    | (lost) "w' = w\<lparr>wd_files := (wd_files w)(d := None)\<rparr>" "re_err r \<noteq> None"
    using assms(3) by (auto simp: err_reply_def ok_reply_def split: if_splits fault.splits)
  then show ?thesis
  proof cases
    case kept
    then have "x' = x" using x x' by (auto simp: prod_eq_iff)
    with kept show ?thesis using step_ok_same [OF assms(1,2), of w] by (simp add: same_view_def)
  qed (auto simp: x' intro: step_ok_publish [OF assms(1,2) x d])
qed

definition quiet :: "action \<Rightarrow> bool" where
  "quiet a \<longleftrightarrow> (case a of
      ListRows \<Rightarrow> True | CreateJob _ _ \<Rightarrow> True | FinishJob _ _ _ _ _ \<Rightarrow> True | AddAudit _ \<Rightarrow> True
    | ResolveCredential _ \<Rightarrow> True | CallEngine _ _ \<Rightarrow> True | ReadClock \<Rightarrow> True | MarshalMetadata _ \<Rightarrow> True
    | WaitSeconds _ \<Rightarrow> True | ReadFile _ _ \<Rightarrow> True | ListFiles _ \<Rightarrow> True | _ \<Rightarrow> False)"

lemma step_ok_quiet:
  assumes "world_ok w" "self_ok w x" "quiet a" "perform_action env a w = (r, w')"
    "ghost_step (fst x) (snd x) a r = Some x'"
  shows "step_ok w x w' x'"
proof -
  have "same_view w w'"
    using assms(3,4) by (cases a) (auto simp: quiet_def same_view_def store_CreateJob_def store_FinishJob_def
        store_CreateAuditEvent_def Let_def split: if_splits prod.splits)
  moreover have "x' = x"
    using assms(3,5) by (cases a) (auto simp: quiet_def split: option.splits if_splits)
  ultimately show ?thesis using step_ok_same assms(1,2) by simp
qed

lemma possible_perform: "perform_action env a w = (r, w') \<Longrightarrow> possible_reply a r"
proof (cases a)
  case (GetRow i)
  then show "perform_action env a w = (r, w') \<Longrightarrow> possible_reply a r"
    by (auto simp: possible_reply_def split: if_splits option.splits sum.splits dest: find_row_id)
next
  case (CreateRow c)
  then show "perform_action env a w = (r, w') \<Longrightarrow> possible_reply a r"
    by (auto simp: possible_reply_def store_CreateCertificate_def split: if_splits sum.splits) blast
qed (auto simp: possible_reply_def)

lemma action_step_ok:
  assumes wok: "world_ok w" and xok: "self_ok w x" and run: "perform_action env a w = (r, w')"
    and gs: "ghost_step (fst x) (snd x) a r = Some x'"
  shows "step_ok w x w' x'"
proof (cases a)
  case (GetRow i)
  then have "w' = w" "case re_row r of Inl _ \<Rightarrow> True | Inr v \<Rightarrow> row_of w i = Some v"
    using run by (auto simp: row_of_def split: if_splits option.splits)
  with step_ok_learn [OF wok xok, of i "re_row r"] gs GetRow show ?thesis by simp
next
  case (CreateRow c)
  then have idle: "fst x = Idle" and c: "nc_Status c = StatusIssuing"
    and x': "x' = (case re_row r of Inl _ \<Rightarrow> (Idle, snd x)
      | Inr v \<Rightarrow> (Busy (cr_ID v) None, insert (cr_ID v, nc_OutputDirectory c) (fst (snd x)), snd (snd x)))"
    using gs by (auto split: if_splits)
  show ?thesis
  proof (cases "en_fault env (wd_tick w) = NoFault")
    case True
    then have "store_CreateCertificate (en_newID env (wd_tick w)) (en_now env (wd_tick w)) c w = (re_row r, w')"
      using run CreateRow by (auto split: prod.splits)
    then show ?thesis unfolding x' by (rule step_ok_create [OF wok xok idle c])
  next
    case False
    then have "w' = w" "x' = x" using run CreateRow idle x' by (auto simp: prod_eq_iff)
    then show ?thesis using step_ok_same [OF wok xok, of w] by (simp add: same_view_def)
  qed
next
  case (LoadOrStoreLock i)
  then have "fst x = Idle" "x' = (Loaded i (re_mutex r), snd x)" using gs by (auto split: if_splits)
  with step_ok_load [OF wok xok _ run [unfolded LoadOrStoreLock]] show ?thesis by simp
next
  case (UpdateSettings i n b days k)
  then have "x' = x" using gs by simp
  moreover have "w' = w \<or> (\<exists>now. w' = upd_cert i (with_settings n b days k now) w)"
    using run UpdateSettings by (auto simp: store_UpdateSettings_def split: if_splits prod.splits)
  ultimately show ?thesis
    using step_ok_UpdateSettings [OF wok xok] step_ok_same [OF wok xok, of w] by (auto simp: same_view_def)
next
  case (MarkIssued v)
  show ?thesis by (rule step_ok_Mark [OF wok xok _ run gs, of v]) (simp add: MarkIssued)
next
  case (MarkRenewed v)
  show ?thesis by (rule step_ok_Mark [OF wok xok _ run gs, of v]) (simp add: MarkRenewed)
next
  case (SetStatus i st)
  show ?thesis by (rule step_ok_SetStatus [OF wok xok run [unfolded SetStatus] gs [unfolded SetStatus]])
next
  case (MarkFailed i msg)
  show ?thesis by (rule step_ok_MarkFailed [OF wok xok run [unfolded MarkFailed] gs [unfolded MarkFailed]])
next
  case (TryLock m)
  show ?thesis by (rule step_ok_TryLock [OF wok xok run [unfolded TryLock] gs [unfolded TryLock]])
next
  case (Unlock m)
  show ?thesis by (rule step_ok_Unlock [OF wok xok run [unfolded Unlock] gs [unfolded Unlock]])
next
  case (Publish d p)
  show ?thesis by (rule step_ok_Publish [OF wok xok run [unfolded Publish] gs [unfolded Publish]])
qed (use gs step_ok_quiet [OF wok xok _ run gs] in \<open>simp_all add: quiet_def\<close>)

section \<open>Reachable states\<close>

lemma svc_inv_fresh: "svc_inv fresh_pool []"
  by (simp add: svc_inv_def fresh_pool_def world_ok_def empty_world_def row_of_def find_row_def)

lemma compatible_sym: "compatible x y \<Longrightarrow> compatible y x"
  unfolding compatible_def by metis

lemma svc_inv_spawn:
  assumes inv: "svc_inv p gs" and m: "service_ops cfg m"
  shows "svc_inv (p\<lparr>sp_threads := sp_threads p @ [m]\<rparr>) (gs @ [(Idle, {}, {})])"
proof -
  have "disciplined m Idle ({}, {}) any_end"
    using m call_program_disciplined by (auto simp: service_ops_def)
  moreover have "self_ok (sp_world p) (Idle, {}, {})"
    by (simp add: self_ok_def ghost_ok_def knowledge_ok_def)
  moreover have "compatible (Idle, {}, {}) y \<and> compatible y (Idle, {}, {})" for y
    by (simp add: compatible_def)
  ultimately show ?thesis
    using inv by (auto simp: svc_inv_def nth_append less_Suc_eq)
qed

lemma svc_inv_act:
  assumes inv: "svc_inv p gs" and j: "j < length (sp_threads p)" and t: "sp_threads p ! j = Act a k"
    and run: "perform env a (sp_world p) = (r, w)"
  shows "\<exists>x. svc_inv (p\<lparr>sp_threads := (sp_threads p)[j := k r], sp_world := w\<rparr>) (gs[j := x])"
proof -
  obtain w' where w': "perform_action env a (sp_world p) = (r, w')" and w: "w = w'\<lparr>wd_tick := Suc (wd_tick w')\<rparr>"
    using run by (auto simp: perform_def split: prod.splits)
  let ?x = "gs ! j"
  have len: "j < length gs" using inv j by (simp add: svc_inv_def)
  have xok: "self_ok (sp_world p) ?x" and wok: "world_ok (sp_world p)"
    and dis: "disciplined (Act a k) (fst ?x) (snd ?x) any_end"
    using inv len t by (auto simp: svc_inv_def)
  obtain x' where gs': "ghost_step (fst ?x) (snd ?x) a r = Some x'" and dis': "disciplined (k r) (fst x') (snd x') any_end"
    using dis possible_perform [OF w'] by (auto split: option.splits prod.splits)
  have ok: "step_ok (sp_world p) ?x w x'"
    unfolding w by (rule step_ok_tick [OF action_step_ok [OF wok xok w' gs']])
  have others: "self_ok w (gs ! l) \<and> compatible x' (gs ! l) \<and> compatible (gs ! l) x'" if "l < length gs" "l \<noteq> j" for l
  proof -
    have "self_ok (sp_world p) (gs ! l)" "compatible ?x (gs ! l)"
      using inv that len by (auto simp: svc_inv_def)
    from step_okD [OF ok this] show ?thesis using compatible_sym by blast
  qed
  have own: "world_ok w" "self_ok w x'" using ok by (simp_all add: step_ok_def)
  have threads: "disciplined (sp_threads p ! l) (fst (gs ! l)) (snd (gs ! l)) any_end" if "l < length gs" for l
    using inv that by (simp add: svc_inv_def)
  have pairs: "compatible (gs ! l) (gs ! n)" if "l < length gs" "n < length gs" "l \<noteq> n" for l n
    using inv that by (simp add: svc_inv_def)
  have "length gs = length (sp_threads p)" using inv by (simp add: svc_inv_def)
  then have "svc_inv (p\<lparr>sp_threads := (sp_threads p)[j := k r], sp_world := w\<rparr>) (gs[j := x'])"
    using own others threads pairs dis' j by (simp add: svc_inv_def nth_list_update)
  then show ?thesis ..
qed

lemma svc_inv_restart:
  assumes "svc_inv p gs"
  shows "svc_inv \<lparr>sp_threads = [], sp_world = restarted msg now (sp_world p)\<rparr> []"
proof -
  let ?w = "restarted msg now (sp_world p)"
  have same: "row_of ?w = row_of (sp_world p)" "wd_files ?w = wd_files (sp_world p)" "wd_locks ?w = Map.empty"
    by (simp_all add: restarted_def row_of_def fun_eq_iff)
  have "world_ok (sp_world p)" using assms by (simp add: svc_inv_def)
  then have "world_ok ?w" unfolding world_ok_def same by auto
  then show ?thesis by (simp add: svc_inv_def)
qed

theorem svc_reach_inv: "svc_reach env (service_ops cfg) fresh_pool p \<Longrightarrow> \<exists>gs. svc_inv p gs"
proof (induction rule: svc_reach.induct)
  case reach_start
  show ?case using svc_inv_fresh by blast
next
  case (reach_next p q)
  then obtain gs where "svc_inv p gs" by blast
  with reach_next.hyps(2) show ?case
    by (cases rule: svc_step.cases)
      (auto dest: svc_inv_spawn svc_inv_act intro: svc_inv_restart)
qed

end
