(* ===== verification/Service_Sample.thy ===== *)
theory Service_Sample
  imports Cert_Service
begin

text \<open>
  A concrete service, on which statements about the service are tried: an engine that always
  delivers the same certificate, a database and a file system that always work, and one
  self-signed certificate created with them.
\<close>

definition plain_config :: service_config where
  "plain_config = \<lparr>sc_acme = True, sc_credentials = True, sc_engine = True, sc_text = (\<lambda>_. ''error'')\<rparr>"

definition sample_result :: issued_certificate where
  "sample_result = \<lparr>is_CertificatePEM = ''cert'', is_ChainPEM = ''chain'', is_FullchainPEM = ''full'',
     is_PrivateKeyPEM = ''key'', is_Issuer = ''me'', is_SerialNumber = ''01'', is_NotBefore = 1,
     is_NotAfter = 9, is_FingerprintSHA256 = ''ff'', is_KeyAlgorithm = ''RSA'', is_ExitCode = 0,
     is_OutputSummary = ''ok''\<rparr>"

definition sample_request :: "string \<Rightarrow> createCertificateRequest" where
  "sample_request dir = \<lparr>cq_Mode = ''self_signed'', cq_Name = ''n'', cq_PrimaryDomain = ''a.b'', cq_SANs = [],
     cq_KeyType = ''ec-256'', cq_ValidDays = 90, cq_OutputDirectory = dir, cq_AutoRenewEnabled = True,
     cq_RenewBeforeDays = 30, cq_CreateRenewedMarker = False, cq_ChallengeType = [],
     cq_DNSCredentialID = [], cq_CADirectoryURL = [], cq_ACMEEmail = []\<rparr>"

text \<open>Identifiers are the moments they are drawn at, in unary.\<close>

definition steady :: environment where
  "steady = \<lparr>en_fault = (\<lambda>_. NoFault), en_newID = (\<lambda>t. CHR ''c'' # replicate t (CHR ''x'')), en_now = (\<lambda>_. 5),
     en_resolve = (\<lambda>_ _. None), en_engine = (\<lambda>_ _. Inr (Some sample_result))\<rparr>"

definition sample_world :: world where
  "sample_world = snd (run_svc steady (service_CreateSelfSigned plain_config (sample_request ''d'') ''admin'' ''ip'')
     empty_world)"

end
