(* ===== verification/Service_Properties.thy ===== *)
theory Service_Properties
  imports Service_Safety
begin

text \<open>
  A contract for properties of the state that operations of the certificate service keep, whatever
  their interleaving: which actions an operation may take, what the answers to them can be, and that
  these actions and the restart of the server keep the property. The statement about all reachable
  states is proved once from the contract; the audit log is its first instance.
\<close>

section \<open>Programs that keep to some actions\<close>

primrec follows :: "(action \<Rightarrow> bool) \<Rightarrow> (action \<Rightarrow> reply \<Rightarrow> bool) \<Rightarrow> 'a svc \<Rightarrow> bool" where
  "follows may can (Ret v) = True"
| "follows may can (Act a k) = (may a \<and> (\<forall>r. can a r \<longrightarrow> follows may can (k r)))"

lemma follows_bind:
  "follows may can m \<Longrightarrow> (\<And>v. follows may can (f v)) \<Longrightarrow> follows may can (svc_bind m f)"
  by (induction m) auto

lemma follows_ignored [simp]: "may a \<Longrightarrow> follows may can m \<Longrightarrow> follows may can (ignored a m)"
  by (simp add: ignored_def)

lemma follows_checked [simp]: "may a \<Longrightarrow> follows may can m \<Longrightarrow> follows may can (checked a m)"
  by (simp add: checked_def split: option.splits)

section \<open>The contract\<close>

locale kept_property =
  fixes fit :: "environment \<Rightarrow> bool"
    and good :: "world \<Rightarrow> bool"
    and may :: "action \<Rightarrow> bool"
    and can :: "action \<Rightarrow> reply \<Rightarrow> bool"
  assumes kept: "fit env \<Longrightarrow> good w \<Longrightarrow> may a \<Longrightarrow> perform_action env a w = (r, w') \<Longrightarrow> good w' \<and> can a r"
    and clock: "good (w\<lparr>wd_tick := n\<rparr>) = good w"
    and restarts: "good w \<Longrightarrow> good (restarted msg now w)"
begin

definition holding :: "svc_pool \<Rightarrow> bool" where
  "holding p \<longleftrightarrow> good (sp_world p) \<and> (\<forall>m \<in> set (sp_threads p). follows may can m)"

lemma kept_step:
  assumes "svc_step env ops p q" and env: "fit env" and ops: "\<And>m. ops m \<Longrightarrow> follows may can m" and p: "holding p"
  shows "holding q"
  using assms(1)
proof cases
  case (spawn m)
  then show ?thesis using p ops by (auto simp: holding_def)
next
  case (act j a k r w)
  have f: "follows may can (Act a k)" using act p nth_mem unfolding holding_def by metis
  obtain w' where w': "perform_action env a (sp_world p) = (r, w')" "w = w'\<lparr>wd_tick := Suc (wd_tick w')\<rparr>"
    using act(4) by (auto simp: perform_def split: prod.splits)
  have "good w' \<and> can a r" using kept [OF env _ _ w'(1)] f p by (simp add: holding_def)
  with f w'(2) have "good w \<and> follows may can (k r)" by (simp add: clock)
  then show ?thesis
    using act p set_update_subset_insert [of "sp_threads p" j "k r"] by (auto simp: holding_def)
next
  case (restart msg now)
  then show ?thesis using p restarts by (simp add: holding_def)
qed

lemma kept_reach:
  assumes "svc_reach env ops p q" and "fit env" and "\<And>m. ops m \<Longrightarrow> follows may can m" and "holding p"
  shows "holding q"
  using assms(1)
proof (induction rule: svc_reach.induct)
  case reach_start
  show ?case by (rule assms(4))
next
  case (reach_next q r)
  then show ?case using kept_step assms(2,3) by blast
qed

end

section \<open>Operations that follow the protocol\<close>

definition protocol_action :: "action \<Rightarrow> bool" where
  "protocol_action a \<longleftrightarrow> (case a of
     DeleteRow _ _ \<Rightarrow> False | DeleteLock _ \<Rightarrow> False | Backup _ \<Rightarrow> False | RemoveFiles _ \<Rightarrow> False | _ \<Rightarrow> True)"

lemma disciplined_follows: "disciplined m g kn Q \<Longrightarrow> follows protocol_action possible_reply m"
proof (induction m arbitrary: g kn)
  case (Act a k)
  have "possible_reply a ok_reply" by (simp add: possible_reply_def ok_reply_def split: action.split)
  then have "ghost_step g kn a ok_reply \<noteq> None"
    using Act.prems by (auto simp del: ghost_step.simps split: option.splits)
  then have "protocol_action a" by (cases a) (simp_all add: protocol_action_def)
  moreover have "follows protocol_action possible_reply (k r)" if reply: "possible_reply a r" for r
  proof -
    obtain g' kn' where "disciplined (k r) g' kn' Q"
      using Act.prems [unfolded disciplined.simps, rule_format, OF reply]
      by (auto simp del: ghost_step.simps split: option.splits)
    with Act.IH show ?thesis by blast
  qed
  ultimately show ?case by simp
qed simp

lemma service_ops_follow: "service_ops cfg m \<Longrightarrow> follows protocol_action possible_reply m"
  unfolding service_ops_def using disciplined_follows [OF call_program_disciplined] by blast

lemma reachable_threads_follow:
  assumes "svc_reach env (service_ops cfg) fresh_pool p" "m \<in> set (sp_threads p)"
  shows "follows protocol_action possible_reply m"
proof -
  obtain gs where "svc_inv p gs" using svc_reach_inv [OF assms(1)] ..
  moreover obtain j where "j < length (sp_threads p)" "sp_threads p ! j = m" using assms(2) by (auto simp: in_set_conv_nth)
  ultimately show ?thesis using disciplined_follows unfolding svc_inv_def by metis
qed

section \<open>The audit log\<close>

definition log_extends :: "stored_event list \<Rightarrow> world \<Rightarrow> bool" where
  "log_extends events w \<longleftrightarrow> (\<exists>es. wd_audit w = events @ es)"

lemma log_kept:
  assumes "log_extends events w" "protocol_action a" "perform_action env a w = (r, w')"
  shows "log_extends events w'"
proof -
  have "wd_audit w' = wd_audit w \<or> (\<exists>e. wd_audit w' = wd_audit w @ [e])"
    using assms(2,3)
    by (cases a) (auto simp: protocol_action_def store_CreateCertificate_def store_CreateJob_def store_FinishJob_def
        store_UpdateSettings_def store_CreateAuditEvent_def upd_cert_def Let_def
        split: if_splits prod.splits option.splits fault.splits)
  with assms(1) show ?thesis unfolding log_extends_def by (metis append_assoc)
qed

interpretation audit_log: kept_property "\<lambda>_. True" "log_extends events" protocol_action possible_reply
proof
  show "log_extends events w' \<and> possible_reply a r"
    if "log_extends events w" "protocol_action a" "perform_action env a w = (r, w')" for w a env r w'
    using log_kept [OF that] possible_perform [OF that(3)] by blast
qed (simp_all add: log_extends_def restarted_def)

text \<open>
  The audit log only grows: between any two states that the service passes through, with any
  interleaving of its operations other than deletion, failures and restarts, the later log is the
  earlier one with events added at the end.
\<close>

theorem audit_log_only_grows:
  assumes "svc_reach env (service_ops cfg) fresh_pool p" and "svc_reach env (service_ops cfg) p q"
  shows "\<exists>es. wd_audit (sp_world q) = wd_audit (sp_world p) @ es"
proof -
  have "audit_log.holding (wd_audit (sp_world p)) p"
    using reachable_threads_follow [OF assms(1)] by (simp add: audit_log.holding_def log_extends_def)
  from audit_log.kept_reach [OF assms(2) TrueI service_ops_follow this] show ?thesis
    by (simp add: audit_log.holding_def log_extends_def)
qed

theorem audit_log_only_grows_witness:
  "\<exists>q es. svc_exec steady [Spawn (sample_create ''e''), Advance 1] (played steady active_play) = Some q
     \<and> wd_audit (sp_world q) = wd_audit (sp_world (played steady active_play)) @ es"
proof -
  let ?cs = "[Spawn (sample_create ''e''), Advance 1]" and ?p = "played steady active_play"
  have "svc_exec steady ?cs ?p \<noteq> None" by code_simp
  then obtain q where q: "svc_exec steady ?cs ?p = Some q" by auto
  have p: "svc_reach steady (service_ops plain_config) fresh_pool ?p" by (rule active_play_reach)
  have "svc_reach steady (service_ops plain_config) ?p q"
    by (rule svc_exec_reach [OF q reach_start]) (simp add: sample_create_ops)
  from audit_log_only_grows [OF p this] q show ?thesis by blast
qed

end
