(* ===== verification/Engine_Wiring.thy ===== *)
theory Engine_Wiring
  imports Selfsigned_Engine Service_Properties
begin

text \<open>
  The certificate service run with the engines of \<open>Acme_Engine\<close> and \<open>Selfsigned_Engine\<close>
  (\<open>internal/app/app.go\<close> 60-77): a call of the service becomes a call of the engine, and the engine's
  error becomes what the service distinguishes. What the engines guarantee of a result is carried
  through every operation of the service to the published files.
\<close>

section \<open>The engines of the service\<close>

text \<open>What the engines find at a call: the processes, the temporary directory and the clock.\<close>

record surroundings =
  sd_acme :: process
  sd_openssl :: openssl
  sd_tempDir :: "string option"
  sd_now :: int

definition acme_engine_error :: "acme_failure \<Rightarrow> engine_error" where
  "acme_engine_error f = (case f of CommandError _ status _ _ zone _ \<Rightarrow> AcmeCommand status zone | _ \<Rightarrow> EngineOther)"

definition selfsigned_engine_error :: "selfsigned_failure \<Rightarrow> engine_error" where
  "selfsigned_engine_error f = (case f of OpenSSLFailed status _ \<Rightarrow> SelfSignedCommand status | _ \<Rightarrow> EngineOther)"

definition engine_reply :: "('e \<Rightarrow> engine_error) \<Rightarrow> 'e + issued_certificate \<Rightarrow> engine_error + issued_certificate option" where
  "engine_reply f r = (case r of Inl e \<Rightarrow> Inl (f e) | Inr x \<Rightarrow> Inr (Some x))"

fun call_engines ::
  "acme_lib \<Rightarrow> x509_lib \<Rightarrow> acme_cli \<Rightarrow> surroundings \<Rightarrow> engine_call \<Rightarrow> engine_error + issued_certificate option" where
  "call_engines lib xl c s (SelfSignedIssue r) =
     engine_reply selfsigned_engine_error (generate xl (sd_openssl s) (sd_tempDir s) (sd_now s) r)"
| "call_engines lib xl c s (SelfSignedRenew r) =
     engine_reply selfsigned_engine_error (generate xl (sd_openssl s) (sd_tempDir s) (sd_now s) r)"
| "call_engines lib xl c s (AcmeIssue r) = engine_reply acme_engine_error (acme_Issue lib xl c (sd_acme s) (sd_tempDir s) r)"
| "call_engines lib xl c s (AcmeRenew r) = engine_reply acme_engine_error (acme_Renew lib xl c (sd_acme s) (sd_tempDir s) r)"
| "call_engines lib xl c s (AcmeRevoke d k) =
     (case acme_Revoke c (sd_acme s) d k of Some e \<Rightarrow> Inl (acme_engine_error e) | None \<Rightarrow> Inr None)"

text \<open>An environment of the service whose engines are these ones.\<close>

definition wired :: "x509_lib \<Rightarrow> environment \<Rightarrow> bool" where
  "wired xl env \<longleftrightarrow> (\<exists>lib c s. \<forall>tick. en_engine env tick = call_engines lib xl c (s tick))"

section \<open>What a result says of itself\<close>

definition issued_ok :: "x509_lib \<Rightarrow> issued_certificate \<Rightarrow> bool" where
  "issued_ok xl x \<longleftrightarrow> key_belongs xl (is_CertificatePEM x) (is_PrivateKeyPEM x)
     \<and> (\<exists>c meta. ParseCertificate xl (is_CertificatePEM x) = Inr (c, meta)
          \<and> is_SerialNumber x = mt_SerialNumber meta \<and> is_FingerprintSHA256 x = mt_FingerprintSHA256 meta
          \<and> is_NotBefore x = mt_NotBefore meta \<and> is_NotAfter x = mt_NotAfter meta)"

lemma read_result_ok: "read_result xl dir files status summary = Inr x \<Longrightarrow> issued_ok xl x"
  by (auto simp: read_result_def issued_ok_def key_belongs_def split: option.splits sum.splits)

lemma run_and_install_ok: "run_and_install xl c proc tempDir op p args d k vars = Inr x \<Longrightarrow> issued_ok xl x"
  using read_result_ok
  by (auto simp: run_and_install_def cli_install_def Let_def split: option.splits prod.splits)

lemma ValidateCertificateAndKey_parse:
  "ValidateCertificateAndKey xl cert key domains now = Inr meta \<Longrightarrow> \<exists>c. ParseCertificate xl cert = Inr (c, meta)"
  by (auto simp: ValidateCertificateAndKey_def split: sum.splits if_splits option.splits)

lemma selfsigned_result_ok:
  assumes "selfsigned_result xl now domains dir files summary = Inr x"
  shows "issued_ok xl x"
proof -
  obtain meta where v: "ValidateCertificateAndKey xl (is_CertificatePEM x) (is_PrivateKeyPEM x) domains now = Inr meta"
      and eq: "is_SerialNumber x = mt_SerialNumber meta" "is_FingerprintSHA256 x = mt_FingerprintSHA256 meta"
        "is_NotBefore x = mt_NotBefore meta" "is_NotAfter x = mt_NotAfter meta"
    using assms unfolding selfsigned_result_def by (auto split: option.splits sum.splits)
  from ValidateCertificateAndKey_Inr(1) [OF v] ValidateCertificateAndKey_parse [OF v] eq
  show ?thesis unfolding issued_ok_def by blast
qed

lemma generate_ok: "generate xl proc tempDir now r = Inr x \<Longrightarrow> issued_ok xl x"
  using generate_Inr selfsigned_result_ok by metis

lemma call_engines_ok: "call_engines lib xl c s call = Inr (Some x) \<Longrightarrow> issued_ok xl x"
  using generate_ok run_and_install_ok
  by (cases call) (auto simp: engine_reply_def acme_Issue_def acme_Renew_def split: sum.splits option.splits)

section \<open>Published files\<close>

definition published_ok :: "x509_lib \<Rightarrow> payload \<Rightarrow> bool" where
  "published_ok xl p \<longleftrightarrow> key_belongs xl (pl_CertPEM p) (pl_PrivateKeyPEM p)
     \<and> (\<exists>c meta. ParseCertificate xl (pl_CertPEM p) = Inr (c, meta)
          \<and> md_serial_number (pl_Metadata p) = mt_SerialNumber meta
          \<and> md_fingerprint_sha256 (pl_Metadata p) = mt_FingerprintSHA256 meta
          \<and> md_not_before (pl_Metadata p) = mt_NotBefore meta \<and> md_not_after (pl_Metadata p) = mt_NotAfter meta)"

definition files_ok :: "x509_lib \<Rightarrow> world \<Rightarrow> bool" where
  "files_ok xl w \<longleftrightarrow> (\<forall>dir p. wd_files w dir = Some p \<longrightarrow> published_ok xl p)"

definition publishes_ok :: "x509_lib \<Rightarrow> action \<Rightarrow> bool" where
  "publishes_ok xl a \<longleftrightarrow> (case a of Publish _ p \<Rightarrow> published_ok xl p | _ \<Rightarrow> True)"

definition issues_ok :: "x509_lib \<Rightarrow> action \<Rightarrow> reply \<Rightarrow> bool" where
  "issues_ok xl a r \<longleftrightarrow> (case a of CallEngine _ _ \<Rightarrow> (\<forall>x. re_result r = Inr (Some x) \<longrightarrow> issued_ok xl x) | _ \<Rightarrow> True)"

lemma files_kept:
  assumes "wired xl env" "files_ok xl w" "publishes_ok xl a" "perform_action env a w = (r, w')"
  shows "files_ok xl w' \<and> issues_ok xl a r"
proof
  have "wd_files w' = wd_files w \<or> (\<exists>dir. wd_files w' = (wd_files w)(dir := None))
      \<or> (\<exists>dir p. a = Publish dir p \<and> wd_files w' = (wd_files w)(dir \<mapsto> p))"
    using assms(4)
    by (cases a) (auto simp: store_CreateCertificate_def store_CreateJob_def store_FinishJob_def
        store_UpdateSettings_def store_CreateAuditEvent_def store_DeleteCertificateWithAudit_def upd_cert_def Let_def
        split: if_splits prod.splits option.splits fault.splits)
  then show "files_ok xl w'"
    using assms(2,3) by (auto simp: files_ok_def publishes_ok_def split: if_splits)
  show "issues_ok xl a r"
  proof (cases a)
    case (CallEngine i call)
    then show ?thesis
      using assms(1,4) call_engines_ok by (fastforce simp: issues_ok_def wired_def split: sum.splits)
  qed (simp_all add: issues_ok_def)
qed

interpretation published: kept_property "wired xl" "files_ok xl" "publishes_ok xl" "issues_ok xl"
proof
  show "files_ok xl w' \<and> issues_ok xl a r"
    if "wired xl env" "files_ok xl w" "publishes_ok xl a" "perform_action env a w = (r, w')" for env w a r w'
    by (rule files_kept [OF that])
qed (simp_all add: files_ok_def restarted_def)

section \<open>Every operation publishes results only\<close>

lemma payload_of_ok: "issued_ok xl x \<Longrightarrow> published_ok xl (payload_of v x t)"
  by (auto simp: issued_ok_def published_ok_def payload_of_def metadata_of_def)

lemma self_signed_files_ok: "issued_ok xl x \<Longrightarrow> issued_ok xl (self_signed_files x)"
  by (simp add: issued_ok_def self_signed_files_def)

abbreviation keeps_files :: "x509_lib \<Rightarrow> 'a svc \<Rightarrow> bool" where
  "keeps_files xl m \<equiv> follows (publishes_ok xl) (issues_ok xl) m"

lemma publishes_simps [simp]:
  "publishes_ok xl (Publish dir p) = published_ok xl p" "publishes_ok xl (GetRow i)" "publishes_ok xl ListRows"
  "publishes_ok xl (CreateRow c)" "publishes_ok xl (CreateJob i s)" "publishes_ok xl (FinishJob i s n s' s'')"
  "publishes_ok xl (MarkFailed i s)" "publishes_ok xl (MarkIssued v)" "publishes_ok xl (MarkRenewed v)"
  "publishes_ok xl (SetStatus i st)" "publishes_ok xl (UpdateSettings i s b n b')" "publishes_ok xl (DeleteRow i ev)"
  "publishes_ok xl (AddAudit ev)" "publishes_ok xl (LoadOrStoreLock i)" "publishes_ok xl (TryLock m)"
  "publishes_ok xl (Unlock m)" "publishes_ok xl (DeleteLock i)" "publishes_ok xl (ResolveCredential i)"
  "publishes_ok xl (CallEngine i c')" "publishes_ok xl ReadClock" "publishes_ok xl (MarshalMetadata md)"
  "publishes_ok xl (Backup dir)" "publishes_ok xl (RemoveFiles dir)" "publishes_ok xl (WaitSeconds n)"
  by (simp_all add: publishes_ok_def)

lemma issues_CallEngine: "issues_ok xl (CallEngine i call) r \<Longrightarrow> re_result r = Inr (Some x) \<Longrightarrow> issued_ok xl x"
  by (simp add: issues_ok_def)

lemma follows_audit [simp]: "publishes_ok xl (audit_action i ev actor ip res det)"
  by (simp add: audit_action_def)

lemma follows_return_row [simp]: "keeps_files xl (return_row i)"
  by (simp add: return_row_def)

lemma follows_get_row: "(\<And>v. keeps_files xl (k v)) \<Longrightarrow> keeps_files xl (get_row i k)"
  by (simp add: get_row_def split: sum.splits)

lemma follows_with_lock: "keeps_files xl m \<Longrightarrow> keeps_files xl (with_lock i m)"
  by (auto simp: with_lock_def unlocking_def intro!: follows_bind)

lemma follows_failRenewal [simp]: "keeps_files xl (failRenewal cfg v jid n out e ev actor ip)"
  by (simp add: failRenewal_def)

lemma follows_publish_result:
  assumes "issued_ok xl x" and "\<And>v. publishes_ok xl (mark v)"
  shows "keeps_files xl (publish_result cfg mark v jid x ev actor ip)"
  using payload_of_ok [OF assms(1)] assms(2) by (auto simp: publish_result_def split: option.splits)

lemma follows_engine_result:
  assumes "\<And>x. issued_ok xl x \<Longrightarrow> issued_ok xl (files x)" and "\<And>v. publishes_ok xl (mark v)"
  shows "keeps_files xl (engine_result cfg mark v jid call f g files ev actor ip)"
  using follows_publish_result assms issues_CallEngine
  by (auto simp: engine_result_def split: sum.splits option.splits)

lemma follows_acme_values:
  "(\<And>pv. keeps_files xl (k pv)) \<Longrightarrow> keeps_files xl (acme_values cfg strict v jid ev actor ip k)"
  by (simp add: acme_values_def split: sum.splits)

lemma follows_with_engine [simp]:
  "keeps_files xl (renew_with_engine cfg force v jid ev actor ip)"
  "keeps_files xl (issue_with_engine cfg v jid actor ip)"
  unfolding renew_with_engine_def issue_with_engine_def Let_def
  by (auto intro!: follows_acme_values follows_engine_result simp: self_signed_files_ok)

lemma follows_existing [simp]: "keeps_files xl (issueExisting cfg i force jt ev actor ip)"
  unfolding issueExisting_def issueExistingCertificate_def renewExistingCertificate_def
  by (auto intro!: follows_get_row follows_with_lock split: option.splits)

lemma follows_create_and_issue:
  assumes "\<And>x. issued_ok xl x \<Longrightarrow> issued_ok xl (files x)"
  shows "keeps_files xl (create_and_issue cfg c jt call f g files det actor ip)"
  using payload_of_ok assms issues_CallEngine
  by (auto simp: create_and_issue_def Let_def split: sum.splits option.splits)

lemma follows_operations:
  "keeps_files xl (service_Renew cfg i force actor ip)"
  "keeps_files xl (service_Issue cfg i actor ip)"
  "keeps_files xl (service_Update i n b d m actor ip)"
  "keeps_files xl (service_Revoke cfg i actor ip)"
  "keeps_files xl (service_Delete i del actor ip)"
  "keeps_files xl (service_CreateSelfSigned cfg q actor ip)"
  "keeps_files xl (service_CreateACME cfg q actor ip)"
  subgoal by (simp add: service_Renew_def)
  subgoal by (auto simp: service_Issue_def intro!: follows_get_row)
  subgoal by (auto simp: service_Update_def intro!: follows_get_row split: option.splits)
  subgoal by (auto simp: service_Revoke_def intro!: follows_get_row follows_with_lock split: option.splits sum.splits)
  subgoal by (auto simp: service_Delete_def delete_row_and_files_def intro!: follows_get_row follows_with_lock split: option.splits)
  subgoal by (auto simp: service_CreateSelfSigned_def intro!: follows_create_and_issue self_signed_files_ok split: sum.splits)
  subgoal by (auto simp: service_CreateACME_def Let_def intro!: follows_create_and_issue split: sum.splits)
  done

lemma follows_scan: "keeps_files xl (scan_attempts cfg i interval n)"
  by (induction cfg i interval n rule: scan_attempts.induct)
    (auto simp: scan_attempts.simps intro!: follows_bind follows_operations)

lemma follows_forget: "keeps_files xl m \<Longrightarrow> keeps_files xl (forget m)"
  by (auto simp: forget_def intro: follows_bind)

lemma follows_call_program: "keeps_files xl (call_program cfg actor ip c)"
  by (cases c) (auto intro!: follows_forget follows_operations follows_scan simp: scan_goroutine_def)

text \<open>All operations, deletion included.\<close>

definition all_ops :: "service_config \<Rightarrow> unit svc \<Rightarrow> bool" where
  "all_ops cfg m \<longleftrightarrow> service_ops cfg m \<or> (\<exists>i del actor ip. m = forget (service_Delete i del actor ip))"

lemma all_ops_follow: "all_ops cfg m \<Longrightarrow> keeps_files xl m"
  by (auto simp: all_ops_def service_ops_def intro!: follows_forget follows_operations(5) follows_call_program)

lemma reachable_files_ok:
  assumes "wired xl env" "svc_reach env (all_ops cfg) fresh_pool p"
  shows "files_ok xl (sp_world p)"
proof -
  have "published.holding xl fresh_pool"
    by (simp add: published.holding_def fresh_pool_def files_ok_def empty_world_def)
  from published.kept_reach [OF assms(2,1) all_ops_follow this] show ?thesis
    by (simp add: published.holding_def)
qed

lemma svc_step_mono: "svc_step env ops p q \<Longrightarrow> (\<And>m. ops m \<Longrightarrow> ops' m) \<Longrightarrow> svc_step env ops' p q"
  by (induction rule: svc_step.induct) (auto intro: svc_step.intros)

lemma svc_reach_mono: "svc_reach env ops p q \<Longrightarrow> (\<And>m. ops m \<Longrightarrow> ops' m) \<Longrightarrow> svc_reach env ops' p q"
  by (induction rule: svc_reach.induct) (auto intro: svc_reach.intros svc_step_mono)

section \<open>A concrete wiring\<close>

text \<open>
  Certificates that are read from any PEM text, for the domain \<open>a.b\<close>; an \<open>openssl\<close> that leaves a
  certificate and a key.
\<close>

definition sample_x509 :: x509_lib where
  "sample_x509 = \<lparr>xl_Decode = (\<lambda>s. Some (''CERTIFICATE'', s)),
     xl_ParseCertificate = (\<lambda>s. Some \<lparr>xc_Raw = s, xc_Issuer = ''me'', xc_SerialNumber = 26, xc_DNSNames = [''a.b''],
        xc_NotBefore = 0, xc_NotAfter = 9, xc_PublicKey = Some ''k'', xc_Algorithm = RSA 2048, xc_SelfSigned = True\<rparr>),
     xl_ParsePKCS8 = (\<lambda>_. Some (Signer (Some ''k''))), xl_ParsePKCS1 = (\<lambda>_. None), xl_ParseEC = (\<lambda>_. None),
     xl_Sum256 = (\<lambda>_. [171])\<rparr>"

definition sample_process :: process_result where
  "sample_process = \<lparr>ps_stdout = [], ps_stderr = [], ps_ending = Exited 0, ps_files = (\<lambda>_. Some ''PEM'')\<rparr>"

definition sample_lib :: acme_lib where
  "sample_lib = \<lparr>al_ParseAddress = Some,
     al_ParseURL = (\<lambda>s. if startsWith s ''https://''
       then Some \<lparr>ul_Scheme = ''https'', ul_Host = drop 8 s, ul_HasUser = False, ul_Fragment = [], ul_String = s\<rparr>
       else None)\<rparr>"

definition sample_cli :: acme_cli where
  "sample_cli = \<lparr>ac_acmeHome = ''/acme'', ac_challengeDir = ''/challenge''\<rparr>"

definition sample_surroundings :: surroundings where
  "sample_surroundings = \<lparr>sd_acme = (\<lambda>_ _. sample_process), sd_openssl = (\<lambda>_ _. sample_process),
     sd_tempDir = Some ''/tmp/x'', sd_now = 5\<rparr>"

definition wired_steady :: environment where
  "wired_steady = steady\<lparr>en_engine := (\<lambda>_. call_engines sample_lib sample_x509 sample_cli sample_surroundings)\<rparr>"

lemma wired_steady_wired: "wired sample_x509 wired_steady"
  unfolding wired_def wired_steady_def
  by (intro exI [of _ sample_lib] exI [of _ sample_cli] exI [of _ "\<lambda>_. sample_surroundings"]) simp

definition wired_play_check :: bool where
  "wired_play_check = (case svc_exec wired_steady active_play fresh_pool of
     None \<Rightarrow> False
   | Some p \<Rightarrow> wd_files (sp_world p) ''d'' \<noteq> None \<and> (case find_row ''c'' (wd_certs (sp_world p)) of
       None \<Rightarrow> False
     | Some r \<Rightarrow> issued_status (nc_Status r) \<and> nc_OutputDirectory r = ''d'' \<and> cr_SerialNumber r = ''1A''))"

lemma wired_play:
  obtains p r f where "svc_reach wired_steady (service_ops plain_config) fresh_pool p"
    "svc_exec wired_steady active_play fresh_pool = Some p"
    "wd_files (sp_world p) ''d'' = Some f" "find_row ''c'' (wd_certs (sp_world p)) = Some r"
    "issued_status (nc_Status r)" "nc_OutputDirectory r = ''d''" "cr_SerialNumber r = ''1A''"
proof -
  have "wired_play_check" by code_simp
  then obtain p r f where p: "svc_exec wired_steady active_play fresh_pool = Some p"
    and rest: "wd_files (sp_world p) ''d'' = Some f" "find_row ''c'' (wd_certs (sp_world p)) = Some r"
      "issued_status (nc_Status r)" "nc_OutputDirectory r = ''d''" "cr_SerialNumber r = ''1A''"
    unfolding wired_play_check_def by (auto split: option.splits)
  have "svc_reach wired_steady (service_ops plain_config) fresh_pool p"
    by (rule svc_exec_reach [OF p reach_start]) (simp add: active_play_def sample_create_ops)
  with p rest that show thesis by blast
qed

section \<open>Properties\<close>

text \<open>
  C1. With the two engines in place, under any interleaving of creations, issues, renewals,
  revocations, updates and renewal scans, with database, file, process and engine failures and
  server restarts at any point: a certificate whose row says active, expiring or expired has
  published files; the published private key belongs to the published certificate; and the serial
  number, fingerprint and validity of the row are the ones read from that certificate.
\<close>

theorem active_row_describes_published_certificate:
  assumes "wired xl env" and "svc_reach env (service_ops cfg) fresh_pool p"
    and "find_row i (wd_certs (sp_world p)) = Some r" and "issued_status (nc_Status r)"
  shows "\<exists>f c meta. wd_files (sp_world p) (nc_OutputDirectory r) = Some f
    \<and> ParseCertificate xl (pl_CertPEM f) = Inr (c, meta)
    \<and> ValidateKeyMatches xl c (pl_PrivateKeyPEM f) = None
    \<and> cr_SerialNumber r = mt_SerialNumber meta \<and> cr_FingerprintSHA256 r = mt_FingerprintSHA256 meta
    \<and> cr_NotBefore r = Some (mt_NotBefore meta) \<and> cr_NotAfter r = Some (mt_NotAfter meta)"
proof -
  from svc_reach_inv [OF assms(2)] obtain gs where "svc_inv p gs" ..
  then obtain f where f: "wd_files (sp_world p) (nc_OutputDirectory r) = Some f" "row_records r f"
    using assms(3,4) unfolding svc_inv_def world_ok_def row_of_def by blast
  have "svc_reach env (all_ops cfg) fresh_pool p"
    using svc_reach_mono [OF assms(2)] by (simp add: all_ops_def)
  from reachable_files_ok [OF assms(1) this] f(1) have "published_ok xl f" by (simp add: files_ok_def)
  with f show ?thesis
    unfolding published_ok_def key_belongs_def row_records_def Let_def by (auto split: sum.splits)
qed

theorem active_row_describes_published_certificate_witness:
  "\<exists>p f c meta. svc_exec wired_steady active_play fresh_pool = Some p
     \<and> wd_files (sp_world p) ''d'' = Some f \<and> ParseCertificate sample_x509 (pl_CertPEM f) = Inr (c, meta)
     \<and> ValidateKeyMatches sample_x509 c (pl_PrivateKeyPEM f) = None \<and> mt_SerialNumber meta = ''1A''"
proof -
  obtain p r f where p: "svc_reach wired_steady (service_ops plain_config) fresh_pool p"
      "svc_exec wired_steady active_play fresh_pool = Some p"
    and r: "find_row ''c'' (wd_certs (sp_world p)) = Some r" "issued_status (nc_Status r)"
      "nc_OutputDirectory r = ''d''" "cr_SerialNumber r = ''1A''"
    by (rule wired_play)
  from active_row_describes_published_certificate [OF wired_steady_wired p(1) r(1,2), unfolded r(3,4)] p(2)
  show ?thesis by metis
qed

text \<open>
  Deletions included, whatever is published in any directory at any time belongs together: the
  key matches the certificate, and the metadata document states that certificate's serial number,
  fingerprint and validity.
\<close>

theorem published_files_belong_together:
  assumes "wired xl env" and "svc_reach env (all_ops cfg) fresh_pool p"
    and "wd_files (sp_world p) dir = Some f"
  shows "published_ok xl f"
  using reachable_files_ok [OF assms(1,2)] assms(3) by (simp add: files_ok_def)

theorem published_files_belong_together_witness:
  "\<exists>p f. svc_exec wired_steady active_play fresh_pool = Some p
     \<and> wd_files (sp_world p) ''d'' = Some f \<and> published_ok sample_x509 f"
proof -
  obtain p r f where p: "svc_reach wired_steady (service_ops plain_config) fresh_pool p"
      "svc_exec wired_steady active_play fresh_pool = Some p" and f: "wd_files (sp_world p) ''d'' = Some f"
    by (rule wired_play)
  have "svc_reach wired_steady (all_ops plain_config) fresh_pool p"
    using svc_reach_mono [OF p(1)] by (simp add: all_ops_def)
  from published_files_belong_together [OF wired_steady_wired this f] f p(2) show ?thesis by blast
qed

end
