(* ===== verification/Engine_Properties.thy ===== *)
theory Engine_Properties
  imports Engine_Wiring
begin

text \<open>
  What the engines and the DNS credentials guarantee together: credential values stay out of what is
  recorded, stored credentials resolve to what was entered and cannot redirect the process, the
  arguments given to \<open>acme.sh\<close> carry the requested names and nothing that reads as another option,
  and which certificates the engine refuses although the service created them.
\<close>

section \<open>Credential values are not recorded\<close>

text \<open>
  C5. Whatever \<open>acme.sh\<close> writes and however it ends, the summary that issuing or renewing returns (and
  that the service stores in the job record) does not contain the value of a credential variable
  given to it. The value is meant as its UTF-8 bytes; it is not empty, has no bracket and no line
  break, and is no part of the word REDACTED.
\<close>

theorem credential_values_stay_hidden:
  assumes "hideable v" and "(n, v) \<in> set vars"
  shows "\<not> sublist (utf8 v) (kept_summary (acme_Issue lib xl c proc tempDir (issue\<lparr>ai_DNSVariables := vars\<rparr>)))
    \<and> \<not> sublist (utf8 v) (kept_summary (acme_Renew lib xl c proc tempDir (renew\<lparr>ar_DNSVariables := vars\<rparr>)))"
  using run_and_install_hidden [OF assms] refused_summary [OF assms(1)]
  by (auto simp: acme_Issue_def acme_Renew_def split: sum.splits)

definition talkative :: process_result where
  "talkative = \<lparr>ps_stdout = [''using s3cr'', ''et''], ps_stderr = [], ps_ending = Exited 1, ps_files = (\<lambda>_. None)\<rparr>"

definition dns_issue :: acme_issue_request where
  "dns_issue = \<lparr>ai_CertificateID = ''i'', ai_PrimaryDomain = ''a.b'', ai_Domains = [''a.b''], ai_KeyType = ''ec-256'',
     ai_ChallengeType = ''dns-01'', ai_DNSProvider = ''dns_cf'', ai_DNSVariables = [(''CF_Token'', ''s3cret'')],
     ai_CADirectory = ''letsencrypt'', ai_Email = ''x@a.b''\<rparr>"

theorem credential_values_stay_hidden_witness:
  "\<not> sublist ''s3cret'' (kept_summary (acme_Issue sample_lib sample_x509 sample_cli (\<lambda>_ _. talkative) None dns_issue))
   \<and> kept_summary (acme_Issue sample_lib sample_x509 sample_cli (\<lambda>_ _. talkative) None dns_issue) = ''using [REDACTED]''"
proof
  have h: "hideable ''s3cret''" "utf8 ''s3cret'' = ''s3cret''" by code_simp+
  have "dns_issue\<lparr>ai_DNSVariables := [(''CF_Token'', ''s3cret'')]\<rparr> = dns_issue" by (simp add: dns_issue_def)
  with credential_values_stay_hidden [OF h(1), of "''CF_Token''" "[(''CF_Token'', ''s3cret'')]" sample_lib sample_x509
      sample_cli "\<lambda>_ _. talkative" None dns_issue] h(2)
  show "\<not> sublist ''s3cret'' (kept_summary (acme_Issue sample_lib sample_x509 sample_cli (\<lambda>_ _. talkative) None dns_issue))"
    by simp
  show "kept_summary (acme_Issue sample_lib sample_x509 sample_cli (\<lambda>_ _. talkative) None dns_issue) = ''using [REDACTED]''"
    by code_simp
qed

section \<open>Domains\<close>

text \<open>
  C36. The engine's own check of a domain accepts exactly the names that the service accepts as
  further names of a certificate: the two implementations agree on every text.
\<close>

theorem engine_domain_check_agrees:
  "(engine_validateDomain d = None) = (validateDomain d True = None)"
  by (rule engine_agrees)

section \<open>Arguments\<close>

text \<open>
  When the engine accepts a request, every argument of the command that starts with a dash is one
  of the engine's own options, the e-mail address (which follows \<open>--accountemail\<close>) or one of the
  configured directories; and the names after the options \<open>-d\<close> are the requested domains, in order.
\<close>

theorem issue_arguments_carry_the_request:
  assumes "url_text_ok lib" and "issueArguments lib c r = Inr args"
  shows "(\<forall>a \<in> set args. is_option a \<longrightarrow> a \<in> set issue_options \<or> a = ai_Email r
      \<or> a \<in> {ac_acmeHome c, ac_acmeHome c @ ''/certs'', ac_challengeDir c})
    \<and> map snd (filter (\<lambda>(opt, _). opt = ''-d'') (paired (drop 5 args))) = ai_Domains r"
  using issue_arguments_shape [OF assms] by blast

lemma sample_lib_ok: "url_text_ok sample_lib"
  by (auto simp: url_text_ok_def sample_lib_def startsWith_def prefix_def split: if_splits)

theorem issue_arguments_carry_the_request_witness:
  "\<exists>args. issueArguments sample_lib sample_cli dns_issue = Inr args
     \<and> map snd (filter (\<lambda>(opt, _). opt = ''-d'') (paired (drop 5 args))) = [''a.b'']"
proof -
  have "\<not> isl (issueArguments sample_lib sample_cli dns_issue)" by code_simp
  then obtain args where a: "issueArguments sample_lib sample_cli dns_issue = Inr args" by (auto simp: isl_def split: sum.splits) (metis sum.exhaust)
  from issue_arguments_carry_the_request [OF sample_lib_ok a] a show ?thesis by (auto simp: dns_issue_def)
qed

section \<open>What the engine refuses of what the service created\<close>

text \<open>
  The checks that are left to the engine: the number of names, the directory of the CA, the e-mail
  address, the provider, missing variables, and a wildcard with HTTP-01.
\<close>

definition later_refusal :: "acme_lib \<Rightarrow> cert_row \<Rightarrow> process_values \<Rightarrow> acme_refusal option" where
  "later_refusal lib v pv =
     (if length (nc_Domains v) > 100 then Some DomainCount
      else if validateCA lib (nc_CADirectoryURL v) = None then Some CAInvalid
      else if \<not> emailAccepted lib (nc_ACMEEmail v) then Some EmailInvalid
      else if nc_ChallengeType v = ''dns-01'' then
        (if ValidateCustomProviderCode (pv_ACMEDNSCode pv) \<noteq> None then Some ProviderCode
         else if pv_Environment pv = [] then Some CredentialsMissing
         else None)
      else if list_ex (\<lambda>d. startsWith d ''*.'') (nc_Domains v) then Some WildcardHTTP
      else None)"

lemma createACME_value_Inr:
  assumes "createACME_value enabled resolve q = Inr c"
  shows "\<forall>d \<in> set (nc_Domains c). validateDomain d True = None" and "nc_Domains c \<noteq> []"
    and "validateDomain (nc_PrimaryDomain c) True = None" and "nc_KeyType c \<in> set supported_keys"
    and "nc_ChallengeType c = ''dns-01'' \<or> nc_ChallengeType c = ''http-01''"
proof -
  obtain primary domains where n: "normalizeDomains (cq_PrimaryDomain q) (cq_SANs q) = Inr (primary, domains)"
    and c: "nc_PrimaryDomain c = primary" "nc_Domains c = domains" "nc_KeyType c = cq_KeyType q"
      "nc_ChallengeType c = cq_ChallengeType q" "cq_KeyType q \<in> set supported_keys"
    and ch: "\<exists>p. resolve_challenge resolve q = Inr p"
    using assms unfolding createACME_value_def Let_def
    by (auto split: if_splits sum.splits option.splits)
  from normalizeDomains_Inr [OF n] obtain ss where "domains = primary # ss" "validateDomain primary False = None"
      "\<forall>d \<in> set ss. validateDomain d True = None" by blast
  with c show "\<forall>d \<in> set (nc_Domains c). validateDomain d True = None" "nc_Domains c \<noteq> []"
    "validateDomain (nc_PrimaryDomain c) True = None" "nc_KeyType c \<in> set supported_keys"
    using validateDomain_weaken by auto
  show "nc_ChallengeType c = ''dns-01'' \<or> nc_ChallengeType c = ''http-01''"
    using ch c(4) by (auto simp: resolve_challenge_def split: if_splits)
qed


definition wildcard_http :: createCertificateRequest where
  "wildcard_http = (sample_request ''d'')\<lparr>cq_Mode := ''acme'', cq_SANs := [''*.c.d''], cq_ChallengeType := ''http-01'',
     cq_CADirectoryURL := ''letsencrypt'', cq_ACMEEmail := ''x@a.b''\<rparr>"


section \<open>Stored credentials\<close>

lemma create_encrypted:
  assumes "crypto_lib_ok lib" "se_cipher s = Some lib" "length nonce = nonce_size" "request_ok r"
    and "rq_SourceMode r = ''encrypted''"
    and "credential_Create s (Some nonce) fails newID now r st = (Inr c, st')"
  obtains e where "st' = st\<lparr>ds_credentials := ds_credentials st @ [(c, Some e)]\<rparr>" "cd_ID c \<notin> set (row_ids st)"
    "cd_SourceMode c = ''encrypted''" "cipher_Decrypt lib e = Inr (sort_key fst (rq_Values r))"
proof -
  obtain v e where p: "prepare s (Some nonce) r = Inr (v, e)"
      and st: "store_CreateDNSCredential fails newID now v e st = Inr (c, st')"
    using assms(6) by (auto simp: credential_Create_def split: sum.splits)
  have src: "cipher_Encrypt lib (Some nonce) (rq_Values r) = Inr e"
    using p assms(2,5) unfolding prepare_def Let_def prepare_source_def
    by (auto split: if_splits option.splits sum.splits)
  have dec: "cipher_Decrypt lib e = Inr (sort_key fst (rq_Values r))"
    by (rule Decrypt_Encrypt [OF assms(1,3) _ src]) (use assms(4) in \<open>simp add: request_ok_def\<close>)
  have "e \<noteq> []" using src assms(3) by (auto simp: cipher_Encrypt_def nonce_size_def)
  note cr = store_CreateDNSCredential_Inr [OF st]
  have "cd_SourceMode c = ''encrypted''"
    unfolding cr(1) using prepare_accepted(2) [OF assms(1,2) _ assms(4) p] assms(3,5) by (simp add: nonce_ok_def)
  with that [OF _ cr(3) _ dec] cr(2) \<open>e \<noteq> []\<close> show thesis by (simp add: nullableBytes_def)
qed

lemma rename_resolves_alike:
  assumes "distinct (row_ids st)" and "credential_Rename fails now i n st = (Inr c, st')"
  shows "credential_Resolve s j st' = credential_Resolve s j st"
proof -
  obtain v e where v: "store_DNSCredential (go_TrimSpace i) st = Inr (v, e)"
      and u: "store_UpdateDNSCredential fails now (v\<lparr>cd_Name := go_TrimSpace n\<rparr>) e st = Inr (c, st')"
    using assms(2) by (auto simp: credential_Rename_def Let_def split: if_splits sum.splits)
  obtain b where f: "find_credential (go_TrimSpace i) (ds_credentials st) = Some (v, b)"
      and e: "e = (case b of None \<Rightarrow> [] | Some e \<Rightarrow> e)"
    using v by (auto simp: store_DNSCredential_find split: option.splits)
  have same: "resolve_row s (updated_row now (v\<lparr>cd_Name := go_TrimSpace n\<rparr>) e row) = resolve_row s row"
    if "find_credential j (ds_credentials st) = Some row" for row
  proof (cases "cd_ID (fst row) = cd_ID v")
    case True
    then have "row = (v, b)" using that f find_credential_Some by (cases row) fastforce
    then show ?thesis using e by (simp add: updated_row_def resolve_row_def cong: option.case_cong sum.case_cong)
  qed (simp add: updated_row_def)
  show ?thesis
    unfolding credential_Resolve_find store_UpdateDNSCredential_Inr(1) [OF u]
    using same by (auto simp: find_updated_row split: option.splits)
qed

text \<open>
  C18. An encrypted credential resolves to the values that were entered, and goes on doing so when it
  is renamed; creating it changes what no other credential resolves to.
\<close>

theorem encrypted_credential_round_trip:
  assumes "crypto_lib_ok lib" "se_cipher s = Some lib" "length nonce = nonce_size" "request_ok r"
    and "rq_SourceMode r = ''encrypted''" "distinct (row_ids st)"
    and "credential_Create s (Some nonce) fails newID now r st = (Inr c, st')"
  shows "credential_Resolve s (cd_ID c) st' =
      Inr \<lparr>pv_ACMEDNSCode = cd_ACMEDNSCode c, pv_Environment = sort_key fst (rq_Values r)\<rparr>
    \<and> (\<forall>j. j \<noteq> cd_ID c \<longrightarrow> credential_Resolve s j st' = credential_Resolve s j st)
    \<and> (\<forall>fails' now' n c' st''. credential_Rename fails' now' (cd_ID c) n st' = (Inr c', st'')
        \<longrightarrow> credential_Resolve s (cd_ID c) st'' = credential_Resolve s (cd_ID c) st')"
proof -
  obtain e where st': "st' = st\<lparr>ds_credentials := ds_credentials st @ [(c, Some e)]\<rparr>"
    and new: "cd_ID c \<notin> set (row_ids st)" and src: "cd_SourceMode c = ''encrypted''"
    and dec: "cipher_Decrypt lib e = Inr (sort_key fst (rq_Values r))"
    by (rule create_encrypted [OF assms(1-5,7)])
  have none: "find_credential (cd_ID c) (ds_credentials st) = None"
    using new by (simp add: find_credential_None row_ids_def)
  have 1: "credential_Resolve s (cd_ID c) st' =
      Inr \<lparr>pv_ACMEDNSCode = cd_ACMEDNSCode c, pv_Environment = sort_key fst (rq_Values r)\<rparr>"
    using none src dec assms(2) by (simp add: st' credential_Resolve_find find_credential_append resolve_row_def)
  have 2: "credential_Resolve s j st' = credential_Resolve s j st" if "j \<noteq> cd_ID c" for j
    using that by (simp add: st' credential_Resolve_find find_credential_append split: option.splits)
  have "distinct (row_ids st')" using assms(6) new by (simp add: st' row_ids_def)
  with 1 2 rename_resolves_alike show ?thesis by blast
qed

text \<open>
  A cipher that keeps the promises: it does not hide anything, and it writes a map as the lengths and
  the characters of its names and values.
\<close>

definition enc_text :: "string \<Rightarrow> string" where
  "enc_text s = map (\<lambda>_. CHR ''1'') s @ CHR ''0'' # s"

definition dec_text :: "string \<Rightarrow> string \<times> string" where
  "dec_text s = (let n = length (takeWhile (\<lambda>c. c = CHR ''1'') s); r = drop (Suc n) s in (take n r, drop n r))"

definition enc_map :: "variables \<Rightarrow> string" where
  "enc_map vs = concat (map (\<lambda>(n, v). enc_text n @ enc_text v) (sort_key fst vs))"

fun dec_map :: "nat \<Rightarrow> string \<Rightarrow> variables" where
  "dec_map 0 s = []"
| "dec_map (Suc k) s = (if s = [] then [] else
     (let (n, r) = dec_text s; (v, r') = dec_text r in (n, v) # dec_map k r'))"

definition open_lib :: crypto_lib where
  "open_lib = \<lparr>cl_Seal = (\<lambda>_ p. p), cl_Open = (\<lambda>_ c. Some c), cl_Marshal = enc_map,
     cl_Unmarshal = (\<lambda>s. Some (dec_map (length s) s))\<rparr>"

lemma dec_enc_text: "dec_text (enc_text s @ r) = (s, r)"
proof -
  have "takeWhile (\<lambda>c. c = CHR ''1'') (enc_text s @ r) = map (\<lambda>_. CHR ''1'') s"
    by (simp add: enc_text_def takeWhile_append)
  then show ?thesis by (simp add: dec_text_def Let_def enc_text_def)
qed

lemma dec_enc_pairs: "length vs \<le> k \<Longrightarrow> dec_map k (concat (map (\<lambda>(n, v). enc_text n @ enc_text v) vs)) = vs"
proof (induction vs arbitrary: k)
  case Nil
  then show ?case by (cases k) auto
next
  case (Cons nv vs)
  obtain n v where nv: "nv = (n, v)" by fastforce
  obtain k' where k: "k = Suc k'" using Cons.prems by (cases k) auto
  have "enc_text n \<noteq> []" by (simp add: enc_text_def)
  with Cons nv k show ?case by (simp add: dec_enc_text)
qed

lemma open_lib_ok: "crypto_lib_ok open_lib"
proof -
  have "length vs \<le> length (concat (map (\<lambda>(n, v). enc_text n @ enc_text v) vs))" for vs :: variables
    by (induction vs) (auto simp: enc_text_def)
  from dec_enc_pairs [OF this] have "dec_map (length (enc_map vs)) (enc_map vs) = sort_key fst vs" for vs
    unfolding enc_map_def by simp
  then show ?thesis by (simp add: crypto_lib_ok_def open_lib_def)
qed

definition open_service :: credential_service where
  "open_service = \<lparr>se_cipher = Some open_lib, se_lookup = (\<lambda>_. None)\<rparr>"

definition cloudflare :: "variables \<Rightarrow> credential_request" where
  "cloudflare vs = \<lparr>rq_Name = ''cf'', rq_Provider = ''cloudflare'', rq_CustomACMECode = [], rq_SourceMode = ''encrypted'',
     rq_Values = vs, rq_EnvironmentRefs = []\<rparr>"

definition sample_nonce :: string where
  "sample_nonce = ''0123456789ab''"

theorem encrypted_credential_round_trip_witness:
  "\<exists>c st'. credential_Create open_service (Some sample_nonce) False ''id'' 0 (cloudflare [(''CF_Token'', ''t'')]) empty_store
       = (Inr c, st')
     \<and> credential_Resolve open_service (cd_ID c) st' =
         Inr \<lparr>pv_ACMEDNSCode = cd_ACMEDNSCode c, pv_Environment = [(''CF_Token'', ''t'')]\<rparr>"
proof -
  let ?r = "cloudflare [(''CF_Token'', ''t'')]"
  have "\<not> isl (fst (credential_Create open_service (Some sample_nonce) False ''id'' 0 ?r empty_store))" by code_simp
  then obtain c st' where c: "credential_Create open_service (Some sample_nonce) False ''id'' 0 ?r empty_store = (Inr c, st')"
    by (metis fst_conv sum.collapse(2) surj_pair)
  have "se_cipher open_service = Some open_lib" by (simp add: open_service_def)
  moreover have "length sample_nonce = nonce_size" "request_ok ?r" "rq_SourceMode ?r = ''encrypted''"
    "distinct (row_ids empty_store)"
    by (simp_all add: sample_nonce_def nonce_size_def request_ok_def cloudflare_def empty_store_def row_ids_def)
  ultimately have "credential_Resolve open_service (cd_ID c) st' =
      Inr \<lparr>pv_ACMEDNSCode = cd_ACMEDNSCode c, pv_Environment = sort_key fst (rq_Values ?r)\<rparr>"
    using encrypted_credential_round_trip [OF open_lib_ok _ _ _ _ _ c] by blast
  with c show ?thesis by (auto simp: cloudflare_def)
qed

text \<open>
  C13. Whatever is done with DNS credentials, what a stored credential resolves to cannot redirect the
  process that gets it: its variables have names the engine accepts, the names that are kept back
  (\<open>PATH\<close>, \<open>HOME\<close>, \<open>LD_PRELOAD\<close> and the others) have the values the engine fixed, or none, and the
  provider given to \<open>acme.sh\<close> is a name of the form \<open>dns_...\<close>.
\<close>

theorem stored_credentials_cannot_redirect_acme:
  assumes "crypto_lib_ok lib" "se_cipher s = Some lib" "credential_reachable s st"
    and "credential_Resolve s i st = Inr pv"
  shows "(\<forall>(n, v) \<in> set (pv_Environment pv). ValidateProcessEnvironmentName n = None)
    \<and> (\<forall>f \<in> set forbiddenEnvironmentNames.
        seen_value (process_environment (pv_Environment pv)) f = map_of (rev fixed_environment) f)
    \<and> providerCodePattern (pv_ACMEDNSCode pv)"
proof -
  have inv: "dns_store_inv lib st" by (rule credential_reachable_inv [OF assms(3,1,2)])
  obtain row where row: "find_credential i (ds_credentials st) = Some row" "resolve_row s row = Inr pv"
    using assms(4) by (auto simp: credential_Resolve_find split: option.splits)
  then have "accepted_row lib row" using inv find_credential_Some by (cases row) (auto simp: dns_store_inv_def)
  note ok = resolved_row_ok [OF this assms(2) row(2)]
  have names: "\<forall>(n, v) \<in> set (pv_Environment pv). ValidateProcessEnvironmentName n = None" using ok(2) by auto
  with seen_forbidden ok(1) show ?thesis by (auto simp: ValidateCustomProviderCode_def split: if_splits)
qed

theorem stored_credentials_cannot_redirect_acme_witness:
  "\<exists>st pv. credential_reachable open_service st \<and> credential_Resolve open_service ''id'' st = Inr pv
     \<and> pv_Environment pv \<noteq> [] \<and> seen_value (process_environment (pv_Environment pv)) ''HOME'' = Some ''/nonexistent''"
proof -
  let ?st = "snd (credential_Create open_service (Some sample_nonce) False ''id'' 0 (cloudflare [(''CF_Token'', ''t'')]) empty_store)"
  have "credential_step open_service empty_store ?st"
    by (rule step_create) (simp_all add: nonce_ok_def sample_nonce_def nonce_size_def request_ok_def cloudflare_def)
  then have reach: "credential_reachable open_service ?st" using reach_empty reach_step by blast
  have "\<not> isl (credential_Resolve open_service ''id'' ?st)"
      "pv_Environment (projr (credential_Resolve open_service ''id'' ?st)) \<noteq> []" by code_simp+
  then obtain pv where pv: "credential_Resolve open_service ''id'' ?st = Inr pv" "pv_Environment pv \<noteq> []"
    by (metis sum.collapse(2))
  have "se_cipher open_service = Some open_lib" by (simp add: open_service_def)
  from stored_credentials_cannot_redirect_acme [OF open_lib_ok this reach pv(1)]
  have "seen_value (process_environment (pv_Environment pv)) ''HOME'' = map_of (rev fixed_environment) ''HOME''"
    by (simp add: forbiddenEnvironmentNames_def)
  with reach pv show ?thesis by (auto simp: fixed_environment_def)
qed

lemma empty_value_stops_run: "(n, []) \<in> set vars \<Longrightarrow> cli_run proc args vars = (- 1, [], Some EnvironmentInvalid, \<lambda>_. None)"
  by (auto simp: cli_run_def list_all_iff variable_ok_def)

text \<open>
  C38. A credential can be accepted and pass its test and yet never issue anything: with an optional
  field entered as the empty text, creating succeeds, the local test succeeds, and every issue with it
  fails before \<open>acme.sh\<close> is started, for every request and whatever the process would do.
\<close>

theorem tested_credential_may_never_issue:
  "\<exists>c st'. credential_Create open_service (Some sample_nonce) False ''id'' 0
        (cloudflare [(''CF_Token'', ''t''), (''CF_Zone_ID'', [])]) empty_store = (Inr c, st')
    \<and> credential_Test open_service ''id'' st' = None
    \<and> (\<exists>pv. credential_Resolve open_service ''id'' st' = Inr pv
        \<and> (\<forall>lib xl cli proc tempDir q. \<exists>e.
             acme_Issue lib xl cli proc tempDir (q\<lparr>ai_DNSVariables := pv_Environment pv\<rparr>) = Inl e
             \<and> e \<in> insert (CommandError ''issue'' (- 1) [] True False EnvironmentInvalid) (range Refused)))"
proof -
  let ?create = "credential_Create open_service (Some sample_nonce) False ''id'' 0
        (cloudflare [(''CF_Token'', ''t''), (''CF_Zone_ID'', [])]) empty_store"
  have ev: "\<not> isl (fst ?create)" "credential_Test open_service ''id'' (snd ?create) = None"
      "\<not> isl (credential_Resolve open_service ''id'' (snd ?create))"
      "pv_Environment (projr (credential_Resolve open_service ''id'' (snd ?create))) = [(''CF_Token'', ''t''), (''CF_Zone_ID'', [])]"
    by code_simp+
  obtain c where c: "?create = (Inr c, snd ?create)" using ev(1) by (metis prod.collapse sum.collapse(2))
  obtain pv where pv: "credential_Resolve open_service ''id'' (snd ?create) = Inr pv"
      "pv_Environment pv = [(''CF_Token'', ''t''), (''CF_Zone_ID'', [])]"
    using ev(3,4) by (metis sum.collapse(2))
  have "(''CF_Zone_ID'', []) \<in> set (pv_Environment pv)" using pv(2) by simp
  note stop = empty_value_stops_run [OF this]
  have "\<exists>e. acme_Issue lib xl cli proc tempDir (q\<lparr>ai_DNSVariables := pv_Environment pv\<rparr>) = Inl e
      \<and> e \<in> insert (CommandError ''issue'' (- 1) [] True False EnvironmentInvalid) (range Refused)" for lib xl cli proc tempDir q
    by (auto simp: acme_Issue_def run_and_install_def stop classifyDNSFailure_def split: sum.splits)
  with c ev(2) pv(1) show ?thesis by blast
qed

section \<open>Self-signed certificates\<close>

text \<open>
  A self-signed certificate that the engine returns is the one that was asked for: its key
  belongs to it, its names are the requested ones (each as often as requested), and it is valid at the
  time of the check.
\<close>

theorem selfsigned_result_is_for_the_request:
  assumes "generate xl proc tempDir now r = Inr x"
  shows "\<exists>c meta. ParseCertificate xl (is_CertificatePEM x) = Inr (c, meta)
    \<and> ValidateKeyMatches xl c (is_PrivateKeyPEM x) = None
    \<and> mset (mt_DNSNames meta) = mset (sr_Domains r)
    \<and> mt_NotBefore meta - five_minutes \<le> now \<and> now < mt_NotAfter meta"
proof -
  obtain dir files summary where "selfsigned_result xl now (sr_Domains r) dir files summary = Inr x"
    by (rule generate_Inr [OF assms])
  then obtain meta where v: "ValidateCertificateAndKey xl (is_CertificatePEM x) (is_PrivateKeyPEM x) (sr_Domains r) now = Inr meta"
    by (rule selfsigned_result_Inr)
  obtain c where c: "ParseCertificate xl (is_CertificatePEM x) = Inr (c, meta)"
    using ValidateCertificateAndKey_parse [OF v] ..
  then show ?thesis using ValidateCertificateAndKey_Inr [OF v] by (auto simp: key_belongs_def)
qed

definition selfsigned_demo :: selfsigned_request where
  "selfsigned_demo = \<lparr>sr_PrimaryDomain = ''a.b'', sr_Domains = [''a.b''], sr_KeyType = ''ec-256'', sr_ValidDays = 90\<rparr>"

theorem selfsigned_result_is_for_the_request_witness:
  "\<exists>x c meta. generate sample_x509 (\<lambda>_ _. sample_process) (Some ''/tmp/x'') 5 selfsigned_demo = Inr x
     \<and> ParseCertificate sample_x509 (is_CertificatePEM x) = Inr (c, meta) \<and> mset (mt_DNSNames meta) = mset [''a.b'']"
proof -
  have "\<not> isl (generate sample_x509 (\<lambda>_ _. sample_process) (Some ''/tmp/x'') 5 selfsigned_demo)" by code_simp
  then obtain x where x: "generate sample_x509 (\<lambda>_ _. sample_process) (Some ''/tmp/x'') 5 selfsigned_demo = Inr x"
    by (metis sum.collapse(2))
  from selfsigned_result_is_for_the_request [OF x] x show ?thesis by (auto simp: selfsigned_demo_def)
qed

lemma createSelfSigned_value_Inr:
  assumes "createSelfSigned_value q = Inr c"
  shows "\<forall>d \<in> insert (nc_PrimaryDomain c) (set (nc_Domains c)). CHR 0x0A \<notin> set d"
proof -
  obtain primary domains where n: "normalizeDomains (cq_PrimaryDomain q) (cq_SANs q) = Inr (primary, domains)"
    and c: "nc_PrimaryDomain c = primary" "nc_Domains c = domains"
    using assms unfolding createSelfSigned_value_def Let_def
    by (auto split: if_splits sum.splits option.splits)
  from normalizeDomains_Inr [OF n] obtain ss where "domains = primary # ss" "validateDomain primary False = None"
      "\<forall>d \<in> set ss. validateDomain d True = None" by blast
  then have "\<forall>d \<in> insert primary (set domains). engine_validateDomain d = None"
    using validateDomain_weaken by (auto simp: engine_agrees)
  then show ?thesis unfolding c by (auto simp: engine_validateDomain_def split: if_splits)
qed

text \<open>
  C37. The configuration file written for \<open>openssl\<close> says what was asked for: read line by line, the
  section \<open>[alt_names]\<close> lists the requested names in order and the section \<open>[dn]\<close> has the primary
  domain, for every certificate that the service accepted; no name can add a line or a section.
\<close>

theorem openssl_configuration_read_back:
  assumes "createSelfSigned_value q = Inr c"
  shows "config_names (buildConfig (engine_self_signed (new_row i now c))) = nc_Domains c
    \<and> config_subject (buildConfig (engine_self_signed (new_row i now c))) = nc_PrimaryDomain c"
  using config_read_back [of "engine_self_signed (new_row i now c)"] createSelfSigned_value_Inr [OF assms]
  by (simp add: engine_self_signed_def new_row_def)

theorem openssl_configuration_read_back_witness:
  "\<exists>c. createSelfSigned_value (sample_request ''d'') = Inr c
     \<and> config_names (buildConfig (engine_self_signed (new_row ''i'' 0 c))) = [''a.b'']"
proof -
  have ev: "\<not> isl (createSelfSigned_value (sample_request ''d''))"
    "nc_Domains (projr (createSelfSigned_value (sample_request ''d''))) = [''a.b'']" by code_simp+
  then obtain c where c: "createSelfSigned_value (sample_request ''d'') = Inr c" "nc_Domains c = [''a.b'']"
    by (metis sum.collapse(2))
  from openssl_configuration_read_back [OF c(1)] c show ?thesis by auto
qed

end
