(* ===== verification/Admin_Properties.thy ===== *)
theory Admin_Properties
  imports Admin_Handlers Engine_Properties
begin

text \<open>
  What the handlers for credentials and the schedule give away and keep: two runs that differ only in
  the entered values of credentials are compared answer by answer.
\<close>

section \<open>Stores that look the same\<close>

definition same_public :: "dns_store \<Rightarrow> dns_store \<Rightarrow> bool" where
  "same_public st st' \<longleftrightarrow> list_all2 (\<lambda>a b. fst a = fst b) (ds_credentials st) (ds_credentials st')
     \<and> ds_certificates st = ds_certificates st'"

definition same_request :: "credential_request \<Rightarrow> credential_request \<Rightarrow> bool" where
  "same_request r r' \<longleftrightarrow> r\<lparr>rq_Values := []\<rparr> = r'\<lparr>rq_Values := []\<rparr> \<and> map fst (rq_Values r) = map fst (rq_Values r')"

fun same_call :: "admin_call \<Rightarrow> admin_call \<Rightarrow> bool" where
  "same_call (CreateCredential (Some r)) c' = (case c' of CreateCredential (Some r') \<Rightarrow> same_request r r' | _ \<Rightarrow> False)"
| "same_call (UpdateCredential i (Some r)) c' =
     (case c' of UpdateCredential j (Some r') \<Rightarrow> i = j \<and> same_request r r' | _ \<Rightarrow> False)"
| "same_call c c' = (c = c')"

abbreviation same_outcome :: "credential_error + (credential \<times> dns_store) \<Rightarrow> credential_error + (credential \<times> dns_store) \<Rightarrow> bool" where
  "same_outcome \<equiv> rel_sum (=) (rel_prod (=) same_public)"

lemma same_requestD:
  assumes "same_request r r'"
  shows "rq_Name r' = rq_Name r" "rq_Provider r' = rq_Provider r" "rq_CustomACMECode r' = rq_CustomACMECode r"
    "rq_SourceMode r' = rq_SourceMode r" "rq_EnvironmentRefs r' = rq_EnvironmentRefs r"
    "map fst (rq_Values r') = map fst (rq_Values r)"
  using assms by (cases r; cases r'; simp add: same_request_def)+

lemma map_fst_same: "list_all2 (\<lambda>a b. fst a = fst b) xs ys \<Longrightarrow> map fst ys = map fst xs"
  by (induction xs ys rule: list_all2_induct) auto

lemma same_public_columns:
  assumes "same_public st st'"
  shows "map fst (ds_credentials st') = map fst (ds_credentials st)" and "row_ids st' = row_ids st"
    and "name_taken i n st' = name_taken i n st" and "store_DNSCredentials st' = store_DNSCredentials st"
proof -
  show m: "map fst (ds_credentials st') = map fst (ds_credentials st)"
    using assms map_fst_same unfolding same_public_def by blast
  have "map (\<lambda>c. cd_ID c) (map fst (ds_credentials st')) = map (\<lambda>c. cd_ID c) (map fst (ds_credentials st))" by (simp only: m)
  then show "row_ids st' = row_ids st" by (simp add: row_ids_def comp_def)
  have "(\<exists>c \<in> set (map fst (ds_credentials x)). cd_Name c = n \<and> cd_ID c \<noteq> i) = name_taken i n x" for x
    by (auto simp: name_taken_def)
  from this [of st] this [of st'] m show "name_taken i n st' = name_taken i n st" by simp
  show "store_DNSCredentials st' = store_DNSCredentials st" by (simp only: store_DNSCredentials_def m)
qed

lemma find_same:
  assumes "same_public st st'"
  shows "rel_sum (=) (\<lambda>a b. fst a = fst b) (store_DNSCredential i st) (store_DNSCredential i st')"
proof -
  have "list_all2 (\<lambda>a b. fst a = fst b) rows rows' \<Longrightarrow>
      rel_option (\<lambda>a b. fst a = fst b) (find_credential i rows) (find_credential i rows')" for rows rows'
    by (induction rows rows' rule: list_all2_induct) (auto simp: find_credential_def)
  from this [of "ds_credentials st" "ds_credentials st'"] assms show ?thesis
    unfolding store_DNSCredential_find same_public_def
    by (cases "find_credential i (ds_credentials st)"; cases "find_credential i (ds_credentials st')") auto
qed

lemma updated_same:
  "list_all2 (\<lambda>a b. fst a = fst b) rows rows' \<Longrightarrow>
     list_all2 (\<lambda>a b. fst a = fst b) (map (updated_row now v e) rows) (map (updated_row now v e') rows')"
  by (induction rows rows' rule: list_all2_induct) (auto simp: updated_row_def)

lemma create_same:
  assumes "same_public st st'"
  shows "same_outcome (store_CreateDNSCredential f i t v e st) (store_CreateDNSCredential f i t v e' st')"
  using assms same_public_columns [OF assms]
  by (simp add: store_CreateDNSCredential_def Let_def same_public_def list_all2_appendI)

lemma update_same:
  assumes "same_public st st'"
  shows "same_outcome (store_UpdateDNSCredential f t v e st) (store_UpdateDNSCredential f t v e' st')"
proof -
  let ?s = "st\<lparr>ds_credentials := map (updated_row t v e) (ds_credentials st)\<rparr>"
    and ?s' = "st'\<lparr>ds_credentials := map (updated_row t v e') (ds_credentials st')\<rparr>"
  have s: "same_public ?s ?s'" using assms updated_same by (simp add: same_public_def)
  from find_same [OF s, of "cd_ID v"] s show ?thesis
    using same_public_columns [OF assms]
    by (cases "store_DNSCredential (cd_ID v) ?s"; cases "store_DNSCredential (cd_ID v) ?s'")
      (auto simp: store_UpdateDNSCredential_def Let_def split: prod.splits)
qed

lemma prepare_same:
  assumes "same_request r r'" "prepare s n r = Inr (v, e)" "prepare s n r' = Inr (v', e')"
  shows "v' = v"
  using assms(2,3) same_requestD [OF assms(1)]
  by (auto simp: prepare_def prepare_source_def Let_def sortedKeys_def split: if_splits option.splits sum.splits)

section \<open>One request\<close>

abbreviation same_answer :: "admin_answer \<times> dns_store \<Rightarrow> admin_answer \<times> dns_store \<Rightarrow> bool" where
  "same_answer x x' \<equiv> aa_status (fst x) = aa_status (fst x') \<longrightarrow> fst x = fst x' \<and> same_public (snd x) (snd x')"

lemma create_answers_same:
  assumes "same_public st st'" "same_request r r'"
  shows "same_answer (handle_createDNSCredential s h (Some r) st) (handle_createDNSCredential s h (Some r') st')"
proof -
  note r = same_requestD [OF assms(2)]
  show ?thesis
  proof (cases "prepare s (ah_nonce h) r")
    case (Inl e)
    then show ?thesis
      using assms(1) r
      by (auto simp: handle_createDNSCredential_def credential_Create_def answer_def split: sum.splits)
  next
    case p: (Inr ve)
    obtain v e where ve: "ve = (v, e)" by fastforce
    show ?thesis
    proof (cases "prepare s (ah_nonce h) r'")
      case (Inl e')
      then show ?thesis
        using assms(1) r p ve
        by (auto simp: handle_createDNSCredential_def credential_Create_def answer_def split: sum.splits)
    next
      case (Inr ve')
      obtain e' where ve': "ve' = (v, e')" using prepare_same [OF assms(2)] p ve Inr by (cases ve') auto
      from create_same [OF assms(1), of "ah_fails h" "ah_newID h" "ah_now h" v e e'] show ?thesis
        using assms(1) r p ve Inr ve'
        by (auto simp: handle_createDNSCredential_def credential_Create_def answer_def rel_sum.simps split: sum.splits)
    qed
  qed
qed

lemma rename_same:
  assumes "same_public st st'"
  shows "rel_prod (=) same_public (credential_Rename f t i n st) (credential_Rename f t i n st')"
proof (cases "go_TrimSpace n = [] \<or> go_len (go_TrimSpace n) > 100")
  case True
  then show ?thesis using assms by (simp add: credential_Rename_def Let_def)
next
  case ok: False
  from find_same [OF assms, of "go_TrimSpace i"] show ?thesis
  proof (cases rule: rel_sum.cases)
    case (1 e e')
    then show ?thesis using assms ok by (simp add: credential_Rename_def Let_def)
  next
    case (2 x y)
    then obtain v e e' where xy: "store_DNSCredential (go_TrimSpace i) st = Inr (v, e)"
        "store_DNSCredential (go_TrimSpace i) st' = Inr (v, e')" by (cases x; cases y) auto
    from update_same [OF assms, of f t "v\<lparr>cd_Name := go_TrimSpace n\<rparr>" e e'] show ?thesis
      by (cases rule: rel_sum.cases) (use assms ok xy in \<open>auto simp: credential_Rename_def Let_def\<close>)
  qed
qed

lemma update_answers_same:
  assumes "same_public st st'" "same_request r r'"
  shows "same_answer (handle_updateDNSCredential s h i (Some r) st) (handle_updateDNSCredential s h i (Some r') st')"
proof -
  note r = same_requestD [OF assms(2)]
  note defs = handle_updateDNSCredential_def credential_Update_def answer_def
  show ?thesis
  proof (cases "rq_Provider r = []")
    case True
    from rename_same [OF assms(1), of "ah_fails h" "ah_now h" i "rq_Name r"] show ?thesis
      using r True by (auto simp: handle_updateDNSCredential_def split: prod.splits sum.splits)
  next
    case prov: False
    show ?thesis
    proof (cases "\<exists>x x'. prepare s (ah_nonce h) r = Inr x \<and> prepare s (ah_nonce h) r' = Inr x'")
      case True
      then obtain v e e' where "prepare s (ah_nonce h) r = Inr (v, e)" "prepare s (ah_nonce h) r' = Inr (v, e')"
        using prepare_same [OF assms(2)] by (metis surj_pair)
      with update_same [OF assms(1), of "ah_fails h" "ah_now h" "v\<lparr>cd_ID := go_TrimSpace i\<rparr>" e e'] show ?thesis
        using assms(1) r prov by (auto simp: defs rel_sum.simps split: sum.splits)
    next
      case False
      then show ?thesis
        using assms(1) r prov
        by (cases "prepare s (ah_nonce h) r"; cases "prepare s (ah_nonce h) r'") (auto simp: defs split: sum.splits)
    qed
  qed
qed

lemma test_answers_same:
  "aa_status (handle_testDNSCredential s h i st) = aa_status (handle_testDNSCredential s h i st')
     \<Longrightarrow> handle_testDNSCredential s h i st = handle_testDNSCredential s h i st'"
  by (auto simp: handle_testDNSCredential_def answer_def internalError_def split: option.splits if_splits)

lemma references_same:
  assumes "same_public st st'"
  shows "handle_dnsCredentialReferences h i st = handle_dnsCredentialReferences h i st'"
  using find_same [OF assms, of i]
  by (cases rule: rel_sum.cases) (use assms in \<open>simp_all add: handle_dnsCredentialReferences_def same_public_def\<close>)

lemma delete_same:
  assumes "same_public st st'"
  shows "rel_prod (=) same_public (handle_deleteDNSCredential h i st) (handle_deleteDNSCredential h i st')"
proof -
  have "list_all2 (\<lambda>a b. fst a = fst b) rows rows' \<Longrightarrow> list_all2 (\<lambda>a b. fst a = fst b)
      (filter (\<lambda>row. cd_ID (fst row) \<noteq> i) rows) (filter (\<lambda>row. cd_ID (fst row) \<noteq> i) rows')" for rows rows'
    by (induction rows rows' rule: list_all2_induct) auto
  from this [of "ds_credentials st" "ds_credentials st'"] assms show ?thesis
    using same_public_columns(2) [OF assms]
    by (simp add: handle_deleteDNSCredential_def credential_Delete_def store_DeleteDNSCredential_def same_public_def)
qed

lemma serve_same:
  assumes "same_public st st'" "same_call c c'"
  shows "same_answer (admin_serve s h c st) (admin_serve s h c' st')"
  using assms(2)
proof (induction c c' rule: same_call.induct)
  case (1 r c')
  then show ?case using create_answers_same [OF assms(1)] by (auto split: admin_call.splits option.splits)
next
  case (2 i r c')
  then show ?case using update_answers_same [OF assms(1)] by (auto split: admin_call.splits option.splits)
next
  case "3_5"
  then show ?case using test_answers_same assms(1) by auto
next
  case "3_7"
  then show ?case using delete_same [OF assms(1), of h] by (auto simp: rel_prod_sel)
qed (use assms(1) same_public_columns(4) [OF assms(1)] references_same [OF assms(1)] in
    \<open>auto simp: handle_listDNSCredentials_def handle_createDNSCredential_def handle_updateDNSCredential_def\<close>)

section \<open>Properties\<close>

text \<open>C14. The values of credentials do not leak through the interface: take any two sequences of requests
  that differ only in the values entered for credentials, on stores that differ only in the encrypted
  column. If the answers have the same status codes, then they are equal in every respect, and so are
  the audit events that are recorded; and the stores again differ in the encrypted column at most.\<close>

theorem credential_answers_hide_values:
  assumes "list_all2 (\<lambda>x y. fst x = fst y \<and> same_call (snd x) (snd y)) cs cs'" and "same_public st st'"
    and "admin_run s cs st = (as, st1)" "admin_run s cs' st' = (as', st1')"
    and "map aa_status as = map aa_status as'"
  shows "as = as' \<and> same_public st1 st1'"
  using assms
proof (induction cs cs' arbitrary: st st' as as' rule: list_all2_induct)
  case (Cons x cs y cs')
  obtain h c c' where xy: "x = (h, c)" "y = (h, c')" "same_call c c'" using Cons.hyps by (cases x; cases y) auto
  obtain a s2 where a: "admin_serve s h c st = (a, s2)" by fastforce
  obtain a' s2' where a': "admin_serve s h c' st' = (a', s2')" by fastforce
  obtain bs s3 where b: "admin_run s cs s2 = (bs, s3)" by fastforce
  obtain bs' s3' where b': "admin_run s cs' s2' = (bs', s3')" by fastforce
  have as: "as = a # bs" "st1 = s3" "as' = a' # bs'" "st1' = s3'" using Cons.prems(2,3) xy a a' b b' by auto
  then have "a = a' \<and> same_public s2 s2'" using serve_same [OF Cons.prems(1) xy(3), of s h] a a' Cons.prems(4) by simp
  with Cons.IH [of s2 s2' bs bs'] Cons.prems(4) as b b' show ?case by simp
qed simp

definition token_calls :: "string \<Rightarrow> (admin_chance \<times> admin_call) list" where
  "token_calls v = map (Pair \<lparr>ah_nonce = Some sample_nonce, ah_fails = False, ah_newID = ''id'', ah_now = 0\<rparr>)
     [CreateCredential (Some (cloudflare [(''CF_Token'', v)])), TestCredential ''id'', ListCredentials, DeleteCredential ''id'']"

theorem credential_answers_hide_values_witness:
  "map aa_status (fst (admin_run open_service (token_calls ''one'') empty_store)) = [201, 200, 200, 204]
   \<and> fst (admin_run open_service (token_calls ''one'') empty_store)
     = fst (admin_run open_service (token_calls ''other'') empty_store)"
proof -
  have st: "map aa_status (fst (admin_run open_service (token_calls ''one'') empty_store)) = [201, 200, 200, 204]"
    "map aa_status (fst (admin_run open_service (token_calls ''other'') empty_store)) = [201, 200, 200, 204]"
    by code_simp+
  have calls: "list_all2 (\<lambda>x y. fst x = fst y \<and> same_call (snd x) (snd y)) (token_calls ''one'') (token_calls ''other'')"
    by (simp add: token_calls_def same_request_def cloudflare_def)
  have same: "same_public empty_store empty_store" by (simp add: same_public_def empty_store_def)
  obtain as s1 as' s1' where run: "admin_run open_service (token_calls ''one'') empty_store = (as, s1)"
      "admin_run open_service (token_calls ''other'') empty_store = (as', s1')" by fastforce
  have "map aa_status as = map aa_status as'" using st run by simp
  from credential_answers_hide_values [OF calls same run this] st run show ?thesis by simp
qed

text \<open>A refused or failed change of the policy leaves the old one in force and stored; a successful
  one is in force, stored and shown in the answer.\<close>

lemma advance_failed:
  "ct_tasks s ! j = UpdateFailed \<Longrightarrow> j < length (ct_tasks s) \<Longrightarrow> advance_task ch j s = s"
  by (simp add: advance_task_def list_update_same_conv)

theorem policy_request_replaces_or_keeps:
  assumes "handle_updateRenewalPolicy lib ch body s = (a, s')"
  shows "aa_status a = 200 \<and> (\<exists>p. body = Some p \<and> validatePolicy lib p \<and> same_policy (ct_policy s') p \<and> same_policy (ct_stored s') p
        \<and> aa_body a = PolicyBody (ct_policy s') (controller_Status s') \<and> ct_cron s' = Some (length (ct_instances s)))
    \<or> aa_status a \<noteq> 200 \<and> ct_policy s' = ct_policy s \<and> ct_stored s' = ct_stored s \<and> ct_cron s' = ct_cron s
        \<and> ct_running s' = ct_running s"
proof (cases body)
  case None
  then show ?thesis using assms by (auto simp: handle_updateRenewalPolicy_def answer_def)
next
  case (Some p)
  show ?thesis
  proof (cases "validatePolicy lib p")
    case False
    then have "finish_update ch (length (ct_tasks s)) (controller_Update lib p s) = controller_Update lib p s"
      by (simp add: finish_update_def numeral_eq_Suc advance_failed controller_Update_def controller_build_def)
    then show ?thesis
      using assms Some False
      by (auto simp: handle_updateRenewalPolicy_def Let_def answer_def controller_Update_def controller_build_def)
  next
    case True
    then show ?thesis
      using assms Some
      by (cases "ch_fails ch")
        (auto simp: handle_updateRenewalPolicy_def Let_def answer_def internalError_def finish_update_def numeral_eq_Suc
          controller_Update_def controller_build_def advance_task_def split: option.splits)
  qed
qed

text \<open>A challenge file is read from the configured directory itself: its name has no slash and no dot.\<close>

lemma challenge_stays_in_directory:
  assumes "acmeHTTPChallenge fs dir token = Some c"
  shows "fs (dir @ ''/'' @ token) = Some (SeenFile c) \<and> fs dir = Some SeenDirectory \<and> token \<noteq> []
    \<and> CHR ''/'' \<notin> set token \<and> CHR ''.'' \<notin> set token"
  using assms
  by (auto simp: acmeHTTPChallenge_def challengeTokenPattern_def list_all_iff is_lower_ascii_def is_digit_def code_def
      split: if_splits option.splits seen.splits)

end
