(* ===== verification/Publisher_Files.thy ===== *)
theory Publisher_Files
  imports Service_World
begin

text \<open>
  \<open>internal/certificate/files/publisher.go\<close> call by call: publishing, backing up and removing a
  directory as programs of file-system calls. Each call can fail, a failing write or removal can leave
  a part behind, and the program can stop between any two calls. \<open>Service_World\<close> takes a publication
  as one action; the theorems here say what that stands for.

  A directory is a map from names to regular files (contents and mode) or other things. Names that
  \<open>os.MkdirTemp\<close> draws are arguments.
\<close>

section \<open>The file system\<close>

datatype node = Regular string nat | Irregular

datatype entry = Folder "string \<rightharpoonup> node" | OtherEntry

record disk =
  dk_root :: "string \<rightharpoonup> entry"
  dk_backups :: "string \<rightharpoonup> entry"

datatype disk_call =
    CheckRoot | MakeBackupDir | MakeDir string | ChangeMode string | RemoveDir string
  | WriteTo string string string nat | ChangeFileMode string string nat
  | Stat string | MakeBackup string | CopyTo string string string nat | CopyMark string string
  | Move string string | RemoveTree string | RemoveBackup string

datatype disk_reply = Good | Bad | Absent | NotFolder

text \<open>
  How a call goes: as it should, or it fails, with the part that was written and the names that were
  not removed.
\<close>

datatype luck = Fine | Fails "string option" "string list"

definition in_folder :: "(string \<rightharpoonup> entry) \<Rightarrow> string \<Rightarrow> string \<Rightarrow> node \<Rightarrow> (string \<rightharpoonup> entry)" where
  "in_folder m d n x = (case m d of Some (Folder f) \<Rightarrow> m(d \<mapsto> Folder (f(n \<mapsto> x))) | _ \<Rightarrow> m)"

definition folder_of :: "(string \<rightharpoonup> entry) \<Rightarrow> string \<Rightarrow> (string \<rightharpoonup> node)" where
  "folder_of m d = (case m d of Some (Folder f) \<Rightarrow> f | _ \<Rightarrow> Map.empty)"

definition keep_names :: "string list \<Rightarrow> entry option \<Rightarrow> entry option" where
  "keep_names names e = (case e of Some (Folder f) \<Rightarrow> Some (Folder (\<lambda>n. if n \<in> set names then f n else None)) | e' \<Rightarrow> e')"

definition left_part :: "(string \<rightharpoonup> entry) \<Rightarrow> string \<Rightarrow> string \<Rightarrow> string option \<Rightarrow> nat \<Rightarrow> (string \<rightharpoonup> entry)" where
  "left_part m d n part mode = (case part of None \<Rightarrow> m | Some c \<Rightarrow> in_folder m d n (Regular c mode))"

text \<open>The modes 0644 and 0600.\<close>

definition shared_mode :: nat where
  "shared_mode = 420"

definition private_mode :: nat where
  "private_mode = 384"

definition marker_name :: string where
  "marker_name = ''.renewed''"

fun perform_disk :: "luck \<Rightarrow> disk_call \<Rightarrow> disk \<Rightarrow> disk_reply \<times> disk" where
  "perform_disk (Fails part names) (WriteTo d n c m) s =
     (Bad, s\<lparr>dk_root := left_part (dk_root s) d n part m\<rparr>)"
| "perform_disk (Fails part names) (CopyTo src b n m) s =
     (Bad, s\<lparr>dk_backups := left_part (dk_backups s) b n part m\<rparr>)"
| "perform_disk (Fails part names) (CopyMark src b) s =
     (Bad, s\<lparr>dk_backups := left_part (dk_backups s) b marker_name part shared_mode\<rparr>)"
| "perform_disk (Fails part names) (RemoveTree d) s =
     (Bad, s\<lparr>dk_root := (dk_root s)(d := keep_names names (dk_root s d))\<rparr>)"
| "perform_disk (Fails part names) (RemoveBackup b) s =
     (Bad, s\<lparr>dk_backups := (dk_backups s)(b := keep_names names (dk_backups s b))\<rparr>)"
| "perform_disk (Fails part names) c s = (Bad, s)"
| "perform_disk Fine CheckRoot s = (Good, s)"
| "perform_disk Fine MakeBackupDir s = (Good, s)"
| "perform_disk Fine (MakeDir d) s =
     (if dk_root s d \<noteq> None then (Bad, s) else (Good, s\<lparr>dk_root := (dk_root s)(d \<mapsto> Folder Map.empty)\<rparr>))"
| "perform_disk Fine (ChangeMode d) s = (Good, s)"
| "perform_disk Fine (RemoveDir d) s = (Good, s\<lparr>dk_root := (dk_root s)(d := None)\<rparr>)"
| "perform_disk Fine (WriteTo d n c m) s = (Good, s\<lparr>dk_root := in_folder (dk_root s) d n (Regular c m)\<rparr>)"
| "perform_disk Fine (ChangeFileMode d n m) s =
     (Good, (case folder_of (dk_root s) d n of
        Some (Regular c _) \<Rightarrow> s\<lparr>dk_root := in_folder (dk_root s) d n (Regular c m)\<rparr>
      | _ \<Rightarrow> s))"
| "perform_disk Fine (Stat d) s =
     (case dk_root s d of None \<Rightarrow> (Absent, s) | Some (Folder _) \<Rightarrow> (Good, s) | Some OtherEntry \<Rightarrow> (NotFolder, s))"
| "perform_disk Fine (MakeBackup b) s =
     (if dk_backups s b \<noteq> None then (Bad, s) else (Good, s\<lparr>dk_backups := (dk_backups s)(b \<mapsto> Folder Map.empty)\<rparr>))"
| "perform_disk Fine (CopyTo src b n m) s =
     (case folder_of (dk_root s) src n of
        Some (Regular c _) \<Rightarrow> (Good, s\<lparr>dk_backups := in_folder (dk_backups s) b n (Regular c m)\<rparr>)
      | _ \<Rightarrow> (Bad, s))"
| "perform_disk Fine (CopyMark src b) s =
     (case folder_of (dk_root s) src marker_name of
        Some (Regular c _) \<Rightarrow> (Good, s\<lparr>dk_backups := in_folder (dk_backups s) b marker_name (Regular c shared_mode)\<rparr>)
      | Some Irregular \<Rightarrow> (Bad, s)
      | None \<Rightarrow> (Good, s))"
| "perform_disk Fine (Move a b) s =
     (if dk_root s a = None \<or> dk_root s b \<noteq> None then (Bad, s)
      else (Good, s\<lparr>dk_root := (dk_root s)(b := dk_root s a, a := None)\<rparr>))"
| "perform_disk Fine (RemoveTree d) s = (Good, s\<lparr>dk_root := (dk_root s)(d := None)\<rparr>)"
| "perform_disk Fine (RemoveBackup b) s = (Good, s\<lparr>dk_backups := (dk_backups s)(b := None)\<rparr>)"

section \<open>Programs\<close>

datatype 'a fsp = Return 'a | Call disk_call "disk_reply \<Rightarrow> 'a fsp"

text \<open>\<open>if err := call; err != nil { return ... }\<close>.\<close>

definition must :: "disk_call \<Rightarrow> 'a fsp \<Rightarrow> 'a fsp \<Rightarrow> 'a fsp" where
  "must c failed k = Call c (\<lambda>r. if r = Good then k else failed)"

text \<open>A run with the luck of its calls; when the list is used up the program has been stopped.\<close>

fun run_disk :: "luck list \<Rightarrow> 'a fsp \<Rightarrow> disk \<Rightarrow> 'a option \<times> disk" where
  "run_disk ls (Return v) s = (Some v, s)"
| "run_disk [] (Call c k) s = (None, s)"
| "run_disk (l # ls) (Call c k) s = (let (r, s') = perform_disk l c s in run_disk ls (k r) s')"

section \<open>Publishing\<close>

definition file_mode :: "string \<Rightarrow> nat" where
  "file_mode n = (if n = ''privkey.pem'' then private_mode else shared_mode)"

definition stage_name :: "string \<Rightarrow> string \<Rightarrow> string" where
  "stage_name safeName drawn = ''.'' @ safeName @ ''.stage-'' @ drawn"

definition previous_name :: "string \<Rightarrow> string \<Rightarrow> string" where
  "previous_name safeName drawn = ''.'' @ safeName @ ''.previous-'' @ drawn"

text \<open>The names a publication draws, the name of its backup, and the order in which the backup is made.\<close>

record drawn_names =
  nm_stage :: string
  nm_previous :: string
  nm_backup :: string
  nm_order :: "string list"

text \<open>
  The loop over the files, in the order in which the map delivers them: an empty one is refused, the
  others are written and get their mode.
\<close>

fun write_files :: "string \<Rightarrow> (string \<times> string) list \<Rightarrow> bool fsp \<Rightarrow> bool fsp \<Rightarrow> bool fsp" where
  "write_files stage [] failed k = k"
| "write_files stage ((n, c) # fs) failed k =
     (if c = [] then failed
      else must (WriteTo stage n c (file_mode n)) failed
        (must (ChangeFileMode stage n (file_mode n)) failed (write_files stage fs failed k)))"

fun copy_files :: "string \<Rightarrow> string \<Rightarrow> string list \<Rightarrow> 'a fsp \<Rightarrow> 'a fsp \<Rightarrow> 'a fsp" where
  "copy_files src b [] failed k = must (CopyMark src b) failed k"
| "copy_files src b (n # ns) failed k = must (CopyTo src b n (file_mode n)) failed (copy_files src b ns failed k)"

definition copyManagedDirectory :: "string \<Rightarrow> string \<Rightarrow> string list \<Rightarrow> 'a fsp \<Rightarrow> 'a fsp \<Rightarrow> 'a fsp" where
  "copyManagedDirectory src b ns failed k =
     must (MakeBackup b) failed (copy_files src b ns (Call (RemoveBackup b) (\<lambda>_. failed)) k)"

definition swap_in :: "string \<Rightarrow> string \<Rightarrow> string \<Rightarrow> bool fsp \<Rightarrow> bool fsp" where
  "swap_in target stage previous failed =
     must (MakeDir previous) failed
       (must (RemoveDir previous) failed
         (must (Move target previous) failed
           (must (Move stage target) (Call (Move previous target) (\<lambda>_. failed))
             (Call (RemoveTree previous) (\<lambda>_. Return True)))))"

definition publish_files :: "string \<Rightarrow> drawn_names \<Rightarrow> (string \<times> string) list \<Rightarrow> string option \<Rightarrow> bool fsp" where
  "publish_files safeName nm files marker =
     (let stage = stage_name safeName (nm_stage nm); previous = previous_name safeName (nm_previous nm);
          failed = Call (RemoveTree stage) (\<lambda>_. Return False)
      in if \<not> validateSafeDirectory safeName then Return False
         else must CheckRoot (Return False)
           (must MakeBackupDir (Return False)
             (must (MakeDir stage) (Return False)
               (must (ChangeMode stage) (Call (RemoveDir stage) (\<lambda>_. Return False))
                 (write_files stage files failed
                   ((case marker of None \<Rightarrow> (\<lambda>k. k) | Some c \<Rightarrow> must (WriteTo stage marker_name c shared_mode) failed)
                     (Call (Stat safeName) (\<lambda>t. if t \<noteq> Good \<and> t \<noteq> Absent then failed
                       else Call (Stat safeName) (\<lambda>u.
                         if u = Good then
                           copyManagedDirectory safeName (nm_backup nm) (nm_order nm) failed
                             (swap_in safeName stage previous failed)
                         else if u = Absent then must (Move stage safeName) failed (Return True)
                         else failed)))))))))"

section \<open>Backing up and removing\<close>

text \<open>The outcomes of \<open>Backup\<close>: an error, and whether the directory existed and was copied.\<close>

definition backup_files :: "string \<Rightarrow> string \<Rightarrow> string list \<Rightarrow> (bool \<times> bool \<times> bool) fsp" where
  "backup_files safeName b order =
     (let bad = Return (False, False, False); late = Return (False, True, False) in
      if \<not> validateSafeDirectory safeName then bad
      else must CheckRoot bad
        (Call (Stat safeName) (\<lambda>t. if t \<noteq> Good \<and> t \<noteq> Absent then bad
          else Call (Stat safeName) (\<lambda>u.
            if u = Absent then Return (True, False, False)
            else if u \<noteq> Good then bad
            else must MakeBackupDir late
              (copyManagedDirectory safeName b order late (Return (True, True, True)))))))"

definition remove_files :: "string \<Rightarrow> bool fsp" where
  "remove_files safeName =
     (if \<not> validateSafeDirectory safeName then Return False
      else Call (Stat safeName) (\<lambda>t. if t \<noteq> Good \<and> t \<noteq> Absent then Return False
        else Call (Stat safeName) (\<lambda>u.
          if u = Absent then Return True
          else if u \<noteq> Good then Return False
          else Call (RemoveTree safeName) (\<lambda>r. Return (r = Good)))))"

section \<open>Reading\<close>

text \<open>\<open>Read\<close> and \<open>Available\<close> of a disk on which no call fails.\<close>

definition publisher_Read :: "disk \<Rightarrow> string \<Rightarrow> string \<Rightarrow> (string \<times> nat) option" where
  "publisher_Read s safeName fileName =
     (if \<not> validateSafeDirectory safeName \<or> fileName \<notin> set allowedFiles \<or> dk_root s safeName = Some OtherEntry then None
      else case folder_of (dk_root s) safeName fileName of
        Some (Regular c _) \<Rightarrow> Some (c, file_mode fileName)
      | _ \<Rightarrow> None)"

fun available_names :: "(string \<rightharpoonup> node) \<Rightarrow> string list \<Rightarrow> string list option" where
  "available_names f [] = Some []"
| "available_names f (n # ns) = (case f n of
       None \<Rightarrow> available_names f ns
     | Some Irregular \<Rightarrow> None
     | Some (Regular _ _) \<Rightarrow> map_option ((#) n) (available_names f ns))"

definition publisher_Available :: "disk \<Rightarrow> string \<Rightarrow> string list option" where
  "publisher_Available s safeName =
     (if \<not> validateSafeDirectory safeName then None
      else case dk_root s safeName of
        None \<Rightarrow> Some []
      | Some OtherEntry \<Rightarrow> None
      | Some (Folder f) \<Rightarrow> available_names f allowedFiles)"

section \<open>What holds at every moment of a run\<close>

primrec always :: "(disk \<Rightarrow> bool) \<Rightarrow> ('a \<Rightarrow> disk \<Rightarrow> bool) \<Rightarrow> 'a fsp \<Rightarrow> disk \<Rightarrow> bool" where
  "always I Q (Return v) s = (I s \<and> Q v s)"
| "always I Q (Call c k) s = (I s \<and> (\<forall>l. always I Q (k (fst (perform_disk l c s))) (snd (perform_disk l c s))))"

lemma always_now: "always I Q p s \<Longrightarrow> I s"
  by (cases p) auto

lemma always_run:
  "always I Q p s \<Longrightarrow> run_disk ls p s = (res, s') \<Longrightarrow> I s' \<and> (\<forall>v. res = Some v \<longrightarrow> Q v s')"
proof (induction p arbitrary: s ls)
  case (Call c k)
  then show ?case
  proof (cases ls)
    case (Cons l ls')
    then have "run_disk ls' (k (fst (perform_disk l c s))) (snd (perform_disk l c s)) = (res, s')"
      using Call.prems(2) by (simp add: split_beta)
    from Call.IH [OF rangeI _ this] Call.prems(1) show ?thesis by simp
  qed (use Call.prems in auto)
qed auto

lemma always_must:
  assumes "I s" and "\<And>l s'. perform_disk l c s = (Good, s') \<Longrightarrow> always I Q k s'"
    and "\<And>l r s'. perform_disk l c s = (r, s') \<Longrightarrow> r \<noteq> Good \<Longrightarrow> always I Q failed s'"
  shows "always I Q (must c failed k) s"
  unfolding must_def always.simps
proof (intro conjI allI)
  fix l
  obtain r s' where "perform_disk l c s = (r, s')" by fastforce
  with assms(2,3) show "always I Q (if fst (perform_disk l c s) = Good then k else failed) (snd (perform_disk l c s))"
    by auto
qed (rule assms(1))

lemma always_Call:
  assumes "I s" and "\<And>l r s'. perform_disk l c s = (r, s') \<Longrightarrow> always I Q (k r) s'"
  shows "always I Q (Call c k) s"
  using assms by (auto simp: prod_eq_iff)

section \<open>The moments of a publication\<close>

text \<open>
  The data of a publication: the disk before it, the three names in the root directory, the name and
  order of the backup, whether no file is empty, and the directory to be published.
\<close>

record publication =
  pb_before :: disk
  pb_target :: string
  pb_stage :: string
  pb_previous :: string
  pb_backup :: string
  pb_order :: "string list"
  pb_complete :: bool
  pb_new :: "string \<rightharpoonup> node"

definition names_apart :: "publication \<Rightarrow> bool" where
  "names_apart P \<longleftrightarrow> pb_target P \<noteq> pb_stage P \<and> pb_target P \<noteq> pb_previous P \<and> pb_stage P \<noteq> pb_previous P"

definition rest_same :: "publication \<Rightarrow> disk \<Rightarrow> bool" where
  "rest_same P s \<longleftrightarrow>
     (\<forall>n. n \<notin> {pb_target P, pb_stage P, pb_previous P} \<longrightarrow> dk_root s n = dk_root (pb_before P) n)
     \<and> (\<forall>n. n \<noteq> pb_backup P \<longrightarrow> dk_backups s n = dk_backups (pb_before P) n)"

definition copied :: "string set \<Rightarrow> (string \<rightharpoonup> node) \<Rightarrow> (string \<rightharpoonup> node) \<Rightarrow> bool" where
  "copied N f g \<longleftrightarrow> (\<forall>n \<in> N. \<exists>c m m'. f n = Some (Regular c m) \<and> g n = Some (Regular c m'))"

definition backed_up :: "publication \<Rightarrow> disk \<Rightarrow> bool" where
  "backed_up P s \<longleftrightarrow> (\<exists>f g. dk_root (pb_before P) (pb_target P) = Some (Folder f)
     \<and> dk_backups s (pb_backup P) = Some (Folder g) \<and> copied (set (pb_order P)) f g)"

text \<open>The old state of the target, and the target moved away with its backup made.\<close>

definition untouched :: "publication \<Rightarrow> disk \<Rightarrow> bool" where
  "untouched P s \<longleftrightarrow> rest_same P s \<and> dk_root s (pb_target P) = dk_root (pb_before P) (pb_target P)"

definition moved_away :: "publication \<Rightarrow> disk \<Rightarrow> bool" where
  "moved_away P s \<longleftrightarrow> pb_complete P \<and> rest_same P s \<and> dk_root s (pb_target P) = None
     \<and> dk_root s (pb_previous P) = dk_root (pb_before P) (pb_target P) \<and> backed_up P s"

definition put_in_place :: "publication \<Rightarrow> disk \<Rightarrow> bool" where
  "put_in_place P s \<longleftrightarrow> pb_complete P \<and> rest_same P s \<and> dk_root s (pb_target P) = Some (Folder (pb_new P))
     \<and> (dk_root (pb_before P) (pb_target P) = None \<or> backed_up P s)"

definition moment :: "publication \<Rightarrow> disk \<Rightarrow> bool" where
  "moment P s \<longleftrightarrow> untouched P s \<or> moved_away P s \<or> put_in_place P s"

definition final :: "publication \<Rightarrow> bool \<Rightarrow> disk \<Rightarrow> bool" where
  "final P ok s \<longleftrightarrow> (if ok then put_in_place P s else untouched P s \<or> moved_away P s)"

definition staged :: "publication \<Rightarrow> (string \<rightharpoonup> node) \<Rightarrow> disk \<Rightarrow> bool" where
  "staged P f s \<longleftrightarrow> untouched P s \<and> dk_root s (pb_stage P) = Some (Folder f)"

abbreviation stays :: "publication \<Rightarrow> bool fsp \<Rightarrow> disk \<Rightarrow> bool" where
  "stays P \<equiv> always (moment P) (final P)"

lemma in_folder_other: "d' \<noteq> d \<Longrightarrow> in_folder m d n x d' = m d'"
  by (simp add: in_folder_def split: option.split entry.split)

lemma in_folder_same: "m d = Some (Folder f) \<Longrightarrow> in_folder m d n x d = Some (Folder (f(n \<mapsto> x)))"
  by (simp add: in_folder_def)

text \<open>Giving up: the stage is removed, as far as that works.\<close>

lemma keeps_failed:
  assumes "names_apart P" and "untouched P s \<or> moved_away P s"
  shows "stays P (Call (RemoveTree (pb_stage P)) (\<lambda>_. Return False)) s"
proof (rule always_Call)
  show "moment P s" using assms(2) by (auto simp: moment_def)
  fix l r s' assume "perform_disk l (RemoveTree (pb_stage P)) s = (r, s')"
  then have "\<exists>x. s' = s\<lparr>dk_root := (dk_root s)(pb_stage P := x)\<rparr>" by (cases l) auto
  then have "untouched P s' \<or> moved_away P s'"
    using assms by (auto simp: names_apart_def untouched_def moved_away_def rest_same_def backed_up_def)
  then show "stays P (Return False) s'" by (auto simp: moment_def final_def)
qed

lemma in_folder_upd: "\<exists>x. in_folder m d n y = m(d := x)"
  by (intro exI [of _ "in_folder m d n y d"]) (auto simp: in_folder_def fun_eq_iff split: option.split entry.split)

lemma left_part_upd: "\<exists>x. left_part m d n part mode = m(d := x)"
proof (cases part)
  case None
  then show ?thesis by (intro exI [of _ "m d"]) (simp add: left_part_def)
qed (simp add: left_part_def in_folder_upd)

lemma staged_write:
  assumes "names_apart P" "staged P f s" "perform_disk l (WriteTo (pb_stage P) n c m) s = (r, s')"
  shows "untouched P s'" and "r = Good \<Longrightarrow> staged P (f(n \<mapsto> Regular c m)) s'"
proof -
  have "\<exists>x. s' = s\<lparr>dk_root := (dk_root s)(pb_stage P := x)\<rparr>"
  proof (cases l)
    case Fine
    then show ?thesis
      using assms(3) in_folder_upd [of "dk_root s" "pb_stage P" n "Regular c m"] by auto
  next
    case (Fails part names)
    then show ?thesis
      using assms(3) left_part_upd [of "dk_root s" "pb_stage P" n part m] by auto
  qed
  then show u: "untouched P s'"
    using assms(1,2) by (auto simp: staged_def untouched_def rest_same_def names_apart_def)
  show "staged P (f(n \<mapsto> Regular c m)) s'" if "r = Good"
    using assms(2,3) that u by (cases l) (auto simp: staged_def in_folder_same)
qed

lemma staged_mode:
  assumes "names_apart P" "staged P f s" "f n = Some (Regular c m0)"
    and "perform_disk l (ChangeFileMode (pb_stage P) n m) s = (r, s')"
  shows "untouched P s'" and "r = Good \<Longrightarrow> staged P (f(n \<mapsto> Regular c m)) s'"
proof -
  have "folder_of (dk_root s) (pb_stage P) n = Some (Regular c m0)"
    using assms(2,3) by (simp add: staged_def folder_of_def)
  then have "s' = s \<and> r \<noteq> Good \<or> s' = s\<lparr>dk_root := in_folder (dk_root s) (pb_stage P) n (Regular c m)\<rparr>"
    using assms(4) by (cases l) auto
  then show "untouched P s'" "r = Good \<Longrightarrow> staged P (f(n \<mapsto> Regular c m)) s'"
    using assms(1,2)
    by (auto simp: staged_def untouched_def rest_same_def names_apart_def in_folder_other in_folder_same)
qed

definition add_file :: "string \<times> string \<Rightarrow> (string \<rightharpoonup> node) \<Rightarrow> (string \<rightharpoonup> node)" where
  "add_file nc f = f(fst nc \<mapsto> Regular (snd nc) (file_mode (fst nc)))"

lemma keeps_write_files:
  assumes "names_apart P" and "staged P f s"
    and "\<And>s'. (\<forall>nc \<in> set fs. snd nc \<noteq> []) \<Longrightarrow> staged P (fold add_file fs f) s' \<Longrightarrow> stays P k s'"
    and "\<And>s'. untouched P s' \<Longrightarrow> stays P failed s'"
  shows "stays P (write_files (pb_stage P) fs failed k) s"
  using assms(2,3)
proof (induction fs arbitrary: f s)
  case (Cons nc fs)
  obtain n c where nc: "nc = (n, c)" by fastforce
  have af: "add_file nc f = f(n \<mapsto> Regular c (file_mode n))" by (simp add: nc add_file_def)
  have st: "untouched P s" "moment P s" using Cons.prems(1) by (auto simp: staged_def moment_def)
  have rest: "stays P (write_files (pb_stage P) fs failed k) s'"
    if "c \<noteq> []" "staged P (f(n \<mapsto> Regular c (file_mode n))) s'" for s'
  proof (rule Cons.IH [OF that(2)])
    fix s1 assume 1: "\<forall>nc \<in> set fs. snd nc \<noteq> []" and 2: "staged P (fold add_file fs (f(n \<mapsto> Regular c (file_mode n)))) s1"
    from 2 have "staged P (fold add_file (nc # fs) f) s1" unfolding fold.simps comp_apply af .
    with 1 that(1) Cons.prems(2) show "stays P k s1" by (simp add: nc)
  qed
  have mode: "stays P (must (ChangeFileMode (pb_stage P) n (file_mode n)) failed (write_files (pb_stage P) fs failed k)) s1"
    if c: "c \<noteq> []" and s1: "staged P (f(n \<mapsto> Regular c (file_mode n))) s1" for s1
  proof (rule always_must)
    show "moment P s1" using s1 by (auto simp: staged_def moment_def)
    have same: "f(n \<mapsto> Regular c (file_mode n), n \<mapsto> Regular c (file_mode n)) = f(n \<mapsto> Regular c (file_mode n))" by simp
    note m = staged_mode [OF assms(1) s1, of n c "file_mode n" _ "file_mode n"]
    show "stays P (write_files (pb_stage P) fs failed k) s'"
      if "perform_disk l (ChangeFileMode (pb_stage P) n (file_mode n)) s1 = (Good, s')" for l s'
      using m(2) [OF _ that] rest [OF c] by simp
    show "stays P failed s'"
      if "perform_disk l (ChangeFileMode (pb_stage P) n (file_mode n)) s1 = (r, s')" "r \<noteq> Good" for l r s'
      using m(1) [OF _ that(1)] assms(4) by simp
  qed
  have "stays P (must (WriteTo (pb_stage P) n c (file_mode n)) failed
      (must (ChangeFileMode (pb_stage P) n (file_mode n)) failed (write_files (pb_stage P) fs failed k))) s" if "c \<noteq> []"
    by (rule always_must) (use st mode [OF that] staged_write [OF assms(1) Cons.prems(1)] assms(4) in blast)+
  with assms(4) st(1) show ?case by (simp add: nc)
qed simp

text \<open>Copying the old directory to the backups leaves the root directory alone.\<close>

definition copying :: "publication \<Rightarrow> (string \<rightharpoonup> node) \<Rightarrow> (string \<rightharpoonup> node) \<Rightarrow> string set \<Rightarrow> disk \<Rightarrow> bool" where
  "copying P f0 f N s \<longleftrightarrow> staged P f s \<and> dk_root (pb_before P) (pb_target P) = Some (Folder f0)
     \<and> (\<exists>g. dk_backups s (pb_backup P) = Some (Folder g) \<and> copied N f0 g)"

lemma backups_only:
  assumes "\<exists>x. s' = s\<lparr>dk_backups := (dk_backups s)(pb_backup P := x)\<rparr>"
  shows "untouched P s \<Longrightarrow> untouched P s'" and "staged P f s \<Longrightarrow> staged P f s'"
  using assms by (auto simp: untouched_def staged_def rest_same_def)

lemma backup_part:
  assumes "s' = s \<or> (\<exists>y. s' = s\<lparr>dk_backups := in_folder (dk_backups s) b n y\<rparr>)
      \<or> (\<exists>part m. s' = s\<lparr>dk_backups := left_part (dk_backups s) b n part m\<rparr>)"
  shows "\<exists>x. s' = s\<lparr>dk_backups := (dk_backups s)(b := x)\<rparr>"
  using assms
proof (elim disjE exE)
  assume "s' = s"
  then show ?thesis by (intro exI [of _ "dk_backups s b"]) simp
next
  fix y assume "s' = s\<lparr>dk_backups := in_folder (dk_backups s) b n y\<rparr>"
  then show ?thesis using in_folder_upd [of "dk_backups s" b n y] by auto
next
  fix part m assume "s' = s\<lparr>dk_backups := left_part (dk_backups s) b n part m\<rparr>"
  then show ?thesis using left_part_upd [of "dk_backups s" b n part m] by auto
qed

lemma copy_call:
  assumes "copying P f0 f N s" and "perform_disk l (CopyTo (pb_target P) (pb_backup P) n m) s = (r, s')"
  shows "untouched P s'" and "r = Good \<Longrightarrow> copying P f0 f (insert n N) s'"
proof -
  have t: "dk_root s (pb_target P) = Some (Folder f0)" and st: "staged P f s" "untouched P s"
    using assms(1) by (auto simp: copying_def staged_def untouched_def)
  have chg: "\<exists>x. s' = s\<lparr>dk_backups := (dk_backups s)(pb_backup P := x)\<rparr>"
    by (rule backup_part [where n = n]) (use assms(2) in \<open>cases l; auto split: option.splits node.splits\<close>)
  from backups_only(1) [OF chg st(2)] show "untouched P s'" .
  show "copying P f0 f (insert n N) s'" if good: "r = Good"
  proof -
    obtain c m0 where "f0 n = Some (Regular c m0)"
        "s' = s\<lparr>dk_backups := in_folder (dk_backups s) (pb_backup P) n (Regular c m)\<rparr>"
      using assms(2) good t by (cases l) (auto simp: folder_of_def split: option.splits node.splits)
    then show ?thesis
      using assms(1) backups_only(2) [OF chg st(1)]
      by (auto simp: copying_def in_folder_same copied_def)
  qed
qed

lemma mark_call:
  assumes "copying P f0 f N s" and "perform_disk l (CopyMark (pb_target P) (pb_backup P)) s = (r, s')"
  shows "untouched P s'" and "r = Good \<Longrightarrow> copying P f0 f N s'"
proof -
  have t: "dk_root s (pb_target P) = Some (Folder f0)" and st: "staged P f s" "untouched P s"
    using assms(1) by (auto simp: copying_def staged_def untouched_def)
  have chg: "\<exists>x. s' = s\<lparr>dk_backups := (dk_backups s)(pb_backup P := x)\<rparr>"
    by (rule backup_part [where n = marker_name]) (use assms(2) in \<open>cases l; auto split: option.splits node.splits\<close>)
  from backups_only(1) [OF chg st(2)] show "untouched P s'" .
  show "copying P f0 f N s'" if good: "r = Good"
  proof -
    have "s' = s \<or> (\<exists>c m0 m. f0 marker_name = Some (Regular c m0)
        \<and> s' = s\<lparr>dk_backups := in_folder (dk_backups s) (pb_backup P) marker_name (Regular c m)\<rparr>)"
      using assms(2) t good by (cases l) (auto simp: folder_of_def split: option.splits node.splits)
    then show ?thesis
      using assms(1) backups_only(2) [OF chg st(1)] by (auto simp: copying_def in_folder_same copied_def)
  qed
qed

lemma keeps_copy_files:
  assumes "copying P f0 f N s"
    and "\<And>s'. copying P f0 f (N \<union> set ns) s' \<Longrightarrow> stays P k s'"
    and "\<And>s'. untouched P s' \<Longrightarrow> stays P failed s'"
  shows "stays P (copy_files (pb_target P) (pb_backup P) ns failed k) s"
  using assms(1,2)
proof (induction ns arbitrary: N s)
  case Nil
  have "moment P s" using Nil(1) by (auto simp: copying_def staged_def moment_def)
  then show ?case
    unfolding copy_files.simps
    by (rule always_must) (use Nil mark_call [OF Nil(1)] assms(3) in \<open>(simp, blast)+\<close>)
next
  case (Cons n ns)
  have "moment P s" using Cons.prems(1) by (auto simp: copying_def staged_def moment_def)
  moreover have "stays P (copy_files (pb_target P) (pb_backup P) ns failed k) s'"
    if "copying P f0 f (insert n N) s'" for s'
    using Cons.IH [OF that] Cons.prems(2) by (simp add: Un_commute)
  ultimately show ?case
    unfolding copy_files.simps
    by (intro always_must) (use copy_call [OF Cons.prems(1)] assms(3) in blast)+
qed

text \<open>The two renames.\<close>

lemma moment_intros:
  "untouched P s \<Longrightarrow> moment P s" "moved_away P s \<Longrightarrow> moment P s" "put_in_place P s \<Longrightarrow> moment P s"
  "staged P f s \<Longrightarrow> moment P s" "copying P f0 f N s \<Longrightarrow> moment P s"
  by (auto simp: moment_def staged_def copying_def)

lemma previous_only:
  assumes "names_apart P" and "\<exists>x. s' = s\<lparr>dk_root := (dk_root s)(pb_previous P := x)\<rparr>"
  shows "untouched P s \<Longrightarrow> untouched P s'" and "copying P f0 f N s \<Longrightarrow> copying P f0 f N s'"
    and "put_in_place P s \<Longrightarrow> put_in_place P s'"
  using assms
  by (auto simp: untouched_def staged_def rest_same_def copying_def put_in_place_def names_apart_def backed_up_def)

definition away :: "publication \<Rightarrow> disk \<Rightarrow> bool" where
  "away P s \<longleftrightarrow> moved_away P s \<and> dk_root s (pb_stage P) = Some (Folder (pb_new P))"

lemma move_target_away:
  assumes "names_apart P" "copying P f0 (pb_new P) (set (pb_order P)) s \<and> pb_complete P" "dk_root s (pb_previous P) = None"
    and "perform_disk l (Move (pb_target P) (pb_previous P)) s = (r, s')"
  shows "if r = Good then away P s' else untouched P s'"
proof -
  have t: "dk_root s (pb_target P) = Some (Folder f0)" "dk_root (pb_before P) (pb_target P) = Some (Folder f0)"
    using assms(2) by (auto simp: copying_def staged_def untouched_def)
  then have "s' = (if r = Good then s\<lparr>dk_root := (dk_root s)(pb_previous P := Some (Folder f0), pb_target P := None)\<rparr> else s)"
    using assms(3,4) by (cases l) auto
  then show ?thesis
    using assms(1,2) t
    by (auto simp: away_def moved_away_def backed_up_def copying_def staged_def untouched_def rest_same_def names_apart_def)
qed

lemma move_stage_in:
  assumes "names_apart P" "away P s" and "perform_disk l (Move (pb_stage P) (pb_target P)) s = (r, s')"
  shows "if r = Good then put_in_place P s' else s' = s"
proof -
  have "s' = (if r = Good then s\<lparr>dk_root := (dk_root s)(pb_target P := Some (Folder (pb_new P)), pb_stage P := None)\<rparr> else s)"
    using assms(2,3) by (cases l) (auto simp: away_def moved_away_def)
  then show ?thesis
    using assms(1,2) by (auto simp: away_def moved_away_def put_in_place_def backed_up_def rest_same_def names_apart_def)
qed

lemma move_back:
  assumes "names_apart P" "moved_away P s" and "perform_disk l (Move (pb_previous P) (pb_target P)) s = (r, s')"
  shows "untouched P s' \<or> moved_away P s'"
proof -
  obtain f where "dk_root s (pb_previous P) = Some (Folder f)" "dk_root (pb_before P) (pb_target P) = Some (Folder f)"
    "dk_root s (pb_target P) = None"
    using assms(2) by (auto simp: moved_away_def backed_up_def)
  then have "s' = s \<or> s' = s\<lparr>dk_root := (dk_root s)(pb_target P := dk_root (pb_before P) (pb_target P), pb_previous P := None)\<rparr>"
    using assms(3) by (cases l) auto
  then show ?thesis
    using assms(1,2) by (auto simp: moved_away_def untouched_def rest_same_def names_apart_def)
qed

lemma keeps_swap_in:
  assumes "names_apart P" "copying P f0 (pb_new P) (set (pb_order P)) s" "pb_complete P"
    and failed: "\<And>s'. untouched P s' \<or> moved_away P s' \<Longrightarrow> stays P failed s'"
  shows "stays P (swap_in (pb_target P) (pb_stage P) (pb_previous P) failed) s"
proof -
  let ?prev = "pb_previous P"
  have fin: "stays P (Call (RemoveTree ?prev) (\<lambda>_. Return True)) s5" if s5: "put_in_place P s5" for s5
  proof (rule always_Call)
    show "moment P s5" by (rule moment_intros(3) [OF s5])
    fix l r s' assume "perform_disk l (RemoveTree ?prev) s5 = (r, s')"
    then have "\<exists>x. s' = s5\<lparr>dk_root := (dk_root s5)(?prev := x)\<rparr>" by (cases l) auto
    from previous_only(3) [OF assms(1) this s5] show "stays P (Return True) s'" by (simp add: final_def moment_def)
  qed
  have undo: "stays P (Call (Move ?prev (pb_target P)) (\<lambda>_. failed)) s4" if "moved_away P s4" for s4
    by (rule always_Call) (use that move_back [OF assms(1) that] failed in \<open>blast intro: moment_intros\<close>)+
  have second: "stays P (must (Move (pb_stage P) (pb_target P)) (Call (Move ?prev (pb_target P)) (\<lambda>_. failed))
      (Call (RemoveTree ?prev) (\<lambda>_. Return True))) s3" if s3: "away P s3" for s3
  proof (rule always_must)
    show "moment P s3" using s3 by (simp add: away_def moment_intros)
    show "stays P (Call (RemoveTree ?prev) (\<lambda>_. Return True)) s'"
      if "perform_disk l (Move (pb_stage P) (pb_target P)) s3 = (Good, s')" for l s'
      using move_stage_in [OF assms(1) s3 that] fin by simp
    show "stays P (Call (Move ?prev (pb_target P)) (\<lambda>_. failed)) s'"
      if "perform_disk l (Move (pb_stage P) (pb_target P)) s3 = (r, s')" "r \<noteq> Good" for l r s'
      using move_stage_in [OF assms(1) s3 that(1)] that(2) undo s3 by (simp add: away_def)
  qed
  have first: "stays P (must (Move (pb_target P) ?prev) failed (must (Move (pb_stage P) (pb_target P))
      (Call (Move ?prev (pb_target P)) (\<lambda>_. failed)) (Call (RemoveTree ?prev) (\<lambda>_. Return True)))) s2"
    if s2: "copying P f0 (pb_new P) (set (pb_order P)) s2" "dk_root s2 ?prev = None" for s2
  proof (rule always_must)
    show "moment P s2" by (rule moment_intros(5) [OF s2(1)])
    show "stays P (must (Move (pb_stage P) (pb_target P)) (Call (Move ?prev (pb_target P)) (\<lambda>_. failed))
        (Call (RemoveTree ?prev) (\<lambda>_. Return True))) s'"
      if "perform_disk l (Move (pb_target P) ?prev) s2 = (Good, s')" for l s'
      using move_target_away [OF assms(1) conjI [OF s2(1) assms(3)] s2(2) that] second by simp
    show "stays P failed s'" if "perform_disk l (Move (pb_target P) ?prev) s2 = (r, s')" "r \<noteq> Good" for l r s'
      using move_target_away [OF assms(1) conjI [OF s2(1) assms(3)] s2(2) that(1)] that(2) failed by simp
  qed
  have still: "untouched P s'" if "copying P f0 (pb_new P) (set (pb_order P)) s'" for s'
    using that by (simp add: copying_def staged_def)
  have remove: "stays P (must (RemoveDir ?prev) failed (must (Move (pb_target P) ?prev) failed (must (Move (pb_stage P) (pb_target P))
      (Call (Move ?prev (pb_target P)) (\<lambda>_. failed)) (Call (RemoveTree ?prev) (\<lambda>_. Return True))))) s1"
    if s1: "copying P f0 (pb_new P) (set (pb_order P)) s1" for s1
  proof (rule always_must)
    show "moment P s1" by (rule moment_intros(5) [OF s1])
    have step: "copying P f0 (pb_new P) (set (pb_order P)) s' \<and> (r = Good \<longrightarrow> dk_root s' ?prev = None)"
      if "perform_disk l (RemoveDir ?prev) s1 = (r, s')" for l r s'
      using that previous_only(2) [OF assms(1) _ s1, of s'] s1 by (cases l) auto
    show "stays P (must (Move (pb_target P) ?prev) failed (must (Move (pb_stage P) (pb_target P))
        (Call (Move ?prev (pb_target P)) (\<lambda>_. failed)) (Call (RemoveTree ?prev) (\<lambda>_. Return True)))) s'"
      if "perform_disk l (RemoveDir ?prev) s1 = (Good, s')" for l s'
      using step [OF that] first by blast
    show "stays P failed s'" if "perform_disk l (RemoveDir ?prev) s1 = (r, s')" "r \<noteq> Good" for l r s'
      using step [OF that(1)] still failed by blast
  qed
  show ?thesis
    unfolding swap_in_def
  proof (rule always_must)
    show "moment P s" by (rule moment_intros(5) [OF assms(2)])
    have step: "copying P f0 (pb_new P) (set (pb_order P)) s'" if "perform_disk l (MakeDir ?prev) s = (r, s')" for l r s'
      using that previous_only(2) [OF assms(1) _ assms(2), of s'] assms(2) by (cases l) (auto split: if_splits)
    show "stays P (must (RemoveDir ?prev) failed (must (Move (pb_target P) ?prev) failed (must (Move (pb_stage P) (pb_target P))
        (Call (Move ?prev (pb_target P)) (\<lambda>_. failed)) (Call (RemoveTree ?prev) (\<lambda>_. Return True))))) s'"
      if "perform_disk l (MakeDir ?prev) s = (Good, s')" for l s'
      using step [OF that] remove by blast
    show "stays P failed s'" if "perform_disk l (MakeDir ?prev) s = (r, s')" "r \<noteq> Good" for l r s'
      using step [OF that(1)] still failed by blast
  qed
qed

lemma keeps_copyManagedDirectory:
  assumes "staged P f s" and f0: "dk_root (pb_before P) (pb_target P) = Some (Folder f0)"
    and k: "\<And>s'. copying P f0 f (set ns) s' \<Longrightarrow> stays P k s'"
    and failed: "\<And>s'. untouched P s' \<Longrightarrow> stays P failed s'"
  shows "stays P (copyManagedDirectory (pb_target P) (pb_backup P) ns failed k) s"
proof -
  let ?cleanup = "Call (RemoveBackup (pb_backup P)) (\<lambda>_. failed)"
  have cleanup: "stays P ?cleanup s1" if s1: "untouched P s1" for s1
  proof (rule always_Call)
    show "moment P s1" by (rule moment_intros(1) [OF s1])
    fix l r s' assume "perform_disk l (RemoveBackup (pb_backup P)) s1 = (r, s')"
    then have "\<exists>x. s' = s1\<lparr>dk_backups := (dk_backups s1)(pb_backup P := x)\<rparr>" by (cases l) auto
    from failed [OF backups_only(1) [OF this s1]] show "stays P failed s'" .
  qed
  have u: "untouched P s" using assms(1) by (simp add: staged_def)
  show ?thesis
    unfolding copyManagedDirectory_def
  proof (rule always_must)
    show "moment P s" by (rule moment_intros(1) [OF u])
    show "stays P (copy_files (pb_target P) (pb_backup P) ns ?cleanup k) s'"
      if "perform_disk l (MakeBackup (pb_backup P)) s = (Good, s')" for l s'
    proof (rule keeps_copy_files [where N = "{}"])
      have s': "s' = s\<lparr>dk_backups := (dk_backups s)(pb_backup P \<mapsto> Folder Map.empty)\<rparr>"
        using that by (cases l) (auto split: if_splits)
      then have "staged P f s'" using backups_only(2) [OF _ assms(1)] by blast
      then show "copying P f0 f {} s'" by (simp add: copying_def f0 s' copied_def)
    qed (use cleanup k in auto)
    show "stays P failed s'" if "perform_disk l (MakeBackup (pb_backup P)) s = (r, s')" "r \<noteq> Good" for l r s'
      using that failed u by (cases l) (auto split: if_splits)
  qed
qed

section \<open>A publication as a whole\<close>

definition with_marker :: "string option \<Rightarrow> (string \<rightharpoonup> node) \<Rightarrow> (string \<rightharpoonup> node)" where
  "with_marker marker f = (case marker of None \<Rightarrow> f | Some c \<Rightarrow> f(marker_name \<mapsto> Regular c shared_mode))"

definition publication_of ::
  "string \<Rightarrow> drawn_names \<Rightarrow> (string \<times> string) list \<Rightarrow> string option \<Rightarrow> disk \<Rightarrow> publication" where
  "publication_of safeName nm files marker s =
     \<lparr>pb_before = s, pb_target = safeName, pb_stage = stage_name safeName (nm_stage nm),
      pb_previous = previous_name safeName (nm_previous nm), pb_backup = nm_backup nm, pb_order = nm_order nm,
      pb_complete = (\<forall>nc \<in> set files. snd nc \<noteq> []), pb_new = with_marker marker (fold add_file files Map.empty)\<rparr>"

lemma safe_directory_no_dot: "validateSafeDirectory d \<Longrightarrow> d \<noteq> CHR ''.'' # x"
  by (auto simp: validateSafeDirectory_def is_lower_ascii_def is_digit_def code_def)

lemma drawn_names_apart:
  "validateSafeDirectory safeName \<Longrightarrow> names_apart (publication_of safeName nm files marker s)"
  using safe_directory_no_dot [of safeName]
  by (auto simp: names_apart_def publication_of_def stage_name_def previous_name_def)

lemma marker_staged:
  assumes "names_apart P" "staged P f s"
    and "\<And>s'. staged P (with_marker marker f) s' \<Longrightarrow> stays P k s'" and "\<And>s'. untouched P s' \<Longrightarrow> stays P failed s'"
  shows "stays P ((case marker of None \<Rightarrow> (\<lambda>k. k)
      | Some c \<Rightarrow> must (WriteTo (pb_stage P) marker_name c shared_mode) failed) k) s"
proof (cases marker)
  case None
  with assms(2,3) show ?thesis by (simp add: with_marker_def)
next
  case (Some c)
  have "stays P (must (WriteTo (pb_stage P) marker_name c shared_mode) failed k) s"
    by (rule always_must)
      (use moment_intros(4) [OF assms(2)] staged_write [OF assms(1,2)] assms(3,4) Some in \<open>auto simp: with_marker_def fun_upd_def\<close>)
  with Some show ?thesis by simp
qed

lemma stat_call:
  assumes "perform_disk l (Stat d) s = (r, s')"
  shows "s' = s" and "r = Good \<Longrightarrow> \<exists>f. dk_root s d = Some (Folder f)" and "r = Absent \<Longrightarrow> dk_root s d = None"
  using assms by (cases l; auto split: option.splits entry.splits)+

lemma keeps_look:
  assumes "names_apart P" "staged P (pb_new P) s" "pb_complete P"
    and failed: "\<And>s'. untouched P s' \<or> moved_away P s' \<Longrightarrow> stays P failed s'"
  shows "stays P (Call (Stat (pb_target P)) (\<lambda>t. if t \<noteq> Good \<and> t \<noteq> Absent then failed
     else Call (Stat (pb_target P)) (\<lambda>u.
       if u = Good then copyManagedDirectory (pb_target P) (pb_backup P) (pb_order P) failed
           (swap_in (pb_target P) (pb_stage P) (pb_previous P) failed)
       else if u = Absent then must (Move (pb_stage P) (pb_target P)) failed (Return True) else failed))) s"
proof -
  have u: "untouched P s" and mom: "moment P s" using assms(2) by (auto simp: staged_def moment_def)
  then have t: "dk_root (pb_before P) (pb_target P) = dk_root s (pb_target P)" by (simp add: untouched_def)
  have swap: "stays P (copyManagedDirectory (pb_target P) (pb_backup P) (pb_order P) failed
      (swap_in (pb_target P) (pb_stage P) (pb_previous P) failed)) s" if "\<exists>f. dk_root s (pb_target P) = Some (Folder f)"
    using that keeps_copyManagedDirectory [OF assms(2)] keeps_swap_in [OF assms(1) _ assms(3)] failed t
    by (metis (no_types, lifting))
  have new: "stays P (must (Move (pb_stage P) (pb_target P)) failed (Return True)) s" if "dk_root s (pb_target P) = None"
  proof (rule always_must)
    show "moment P s" by (rule mom)
    show "stays P (Return True) s'" if "perform_disk l (Move (pb_stage P) (pb_target P)) s = (Good, s')" for l s'
    proof -
      have "s' = s\<lparr>dk_root := (dk_root s)(pb_target P := Some (Folder (pb_new P)), pb_stage P := None)\<rparr>"
        using that assms(2) \<open>dk_root s (pb_target P) = None\<close> by (cases l) (auto simp: staged_def)
      then have "put_in_place P s'"
        using u assms(1,3) t \<open>dk_root s (pb_target P) = None\<close>
        by (auto simp: put_in_place_def untouched_def rest_same_def names_apart_def)
      then show ?thesis by (simp add: final_def moment_def)
    qed
    show "stays P failed s'" if "perform_disk l (Move (pb_stage P) (pb_target P)) s = (r, s')" "r \<noteq> Good" for l r s'
      using that failed u by (cases l) (auto split: if_splits)
  qed
  have bad: "stays P failed s" using failed u by blast
  have second: "stays P (Call (Stat (pb_target P)) (\<lambda>u.
       if u = Good then copyManagedDirectory (pb_target P) (pb_backup P) (pb_order P) failed
           (swap_in (pb_target P) (pb_stage P) (pb_previous P) failed)
       else if u = Absent then must (Move (pb_stage P) (pb_target P)) failed (Return True) else failed)) s"
    (is "stays P (Call _ ?look) s")
  proof (rule always_Call)
    show "moment P s" by (rule mom)
    fix l r s' assume "perform_disk l (Stat (pb_target P)) s = (r, s')"
    from stat_call [OF this] show "stays P (?look r) s'" using swap new bad by (auto simp del: always.simps)
  qed
  show ?thesis
  proof (rule always_Call)
    show "moment P s" by (rule mom)
    fix l r s' assume "perform_disk l (Stat (pb_target P)) s = (r, s')"
    from stat_call(1) [OF this]
    show "stays P (if r \<noteq> Good \<and> r \<noteq> Absent then failed else Call (Stat (pb_target P)) ?look) s'"
      using second bad by (simp del: always.simps)
  qed
qed

lemma stage_only:
  assumes "names_apart P" "untouched P s" and "\<exists>x. s' = s\<lparr>dk_root := (dk_root s)(pb_stage P := x)\<rparr>"
  shows "untouched P s'"
  using assms by (auto simp: untouched_def rest_same_def names_apart_def)

lemma keeps_stop: "untouched P s \<Longrightarrow> stays P (Return False) s"
  by (simp add: final_def moment_def)

lemma keeps_make_stage:
  assumes "names_apart P" "untouched P s" and k: "\<And>s'. staged P Map.empty s' \<Longrightarrow> stays P k s'"
  shows "stays P (must (MakeDir (pb_stage P)) (Return False)
      (must (ChangeMode (pb_stage P)) (Call (RemoveDir (pb_stage P)) (\<lambda>_. Return False)) k)) s"
proof (rule always_must)
  show "moment P s" by (rule moment_intros(1) [OF assms(2)])
  show "stays P (Return False) s'" if "perform_disk l (MakeDir (pb_stage P)) s = (r, s')" "r \<noteq> Good" for l r s'
    using that keeps_stop [OF assms(2)] by (cases l) (auto split: if_splits)
  show "stays P (must (ChangeMode (pb_stage P)) (Call (RemoveDir (pb_stage P)) (\<lambda>_. Return False)) k) s'"
    if "perform_disk l (MakeDir (pb_stage P)) s = (Good, s')" for l s'
  proof -
    have "s' = s\<lparr>dk_root := (dk_root s)(pb_stage P \<mapsto> Folder Map.empty)\<rparr>"
      using that by (cases l) (auto split: if_splits)
    with stage_only [OF assms(1,2), of s'] have st: "staged P Map.empty s'" and u: "untouched P s'"
      by (auto simp: staged_def)
    have drop: "stays P (Call (RemoveDir (pb_stage P)) (\<lambda>_. Return False)) s'"
    proof (rule always_Call)
      show "moment P s'" by (rule moment_intros(1) [OF u])
      fix l r s2 assume "perform_disk l (RemoveDir (pb_stage P)) s' = (r, s2)"
      then have "s2 = s' \<or> (\<exists>x. s2 = s'\<lparr>dk_root := (dk_root s')(pb_stage P := x)\<rparr>)" by (cases l) auto
      then show "stays P (Return False) s2" using stage_only [OF assms(1) u] u keeps_stop by blast
    qed
    have same: "perform_disk l (ChangeMode (pb_stage P)) s' = (r, s1) \<Longrightarrow> s1 = s'" for l r s1
      by (cases l) auto
    show ?thesis by (rule always_must) (use same k [OF st] drop moment_intros(1) [OF u] in blast)+
  qed
qed

lemma keeps_idle:
  assumes "c = CheckRoot \<or> c = MakeBackupDir" "untouched P s" "stays P k s"
  shows "stays P (must c (Return False) k) s"
proof -
  have "perform_disk l c s = (r, s') \<Longrightarrow> s' = s" for l r s' using assms(1) by (cases l) auto
  then show ?thesis
    by (intro always_must) (use assms(3) keeps_stop [OF assms(2)] moment_intros(1) [OF assms(2)] in blast)+
qed

lemma keeps_publish:
  assumes "validateSafeDirectory safeName"
  shows "stays (publication_of safeName nm files marker s) (publish_files safeName nm files marker) s"
proof -
  define P where "P = publication_of safeName nm files marker s"
  have apart: "names_apart P" unfolding P_def by (rule drawn_names_apart [OF assms])
  have P: "pb_target P = safeName" "pb_stage P = stage_name safeName (nm_stage nm)"
    "pb_previous P = previous_name safeName (nm_previous nm)" "pb_backup P = nm_backup nm" "pb_order P = nm_order nm"
    and new: "pb_new P = with_marker marker (fold add_file files Map.empty)"
    and complete: "pb_complete P \<longleftrightarrow> (\<forall>nc \<in> set files. snd nc \<noteq> [])" and "pb_before P = s"
    by (simp_all add: P_def publication_of_def)
  then have start: "untouched P s" by (simp add: untouched_def rest_same_def)
  note failed = keeps_failed [OF apart]
  have look: "stays P (Call (Stat (pb_target P)) (\<lambda>t. if t \<noteq> Good \<and> t \<noteq> Absent then Call (RemoveTree (pb_stage P)) (\<lambda>_. Return False)
     else Call (Stat (pb_target P)) (\<lambda>u.
       if u = Good then copyManagedDirectory (pb_target P) (pb_backup P) (pb_order P) (Call (RemoveTree (pb_stage P)) (\<lambda>_. Return False))
           (swap_in (pb_target P) (pb_stage P) (pb_previous P) (Call (RemoveTree (pb_stage P)) (\<lambda>_. Return False)))
       else if u = Absent then must (Move (pb_stage P) (pb_target P)) (Call (RemoveTree (pb_stage P)) (\<lambda>_. Return False)) (Return True)
       else Call (RemoveTree (pb_stage P)) (\<lambda>_. Return False)))) s'" (is "stays P ?look s'")
    if "\<forall>nc \<in> set files. snd nc \<noteq> []" "staged P (pb_new P) s'" for s'
    by (rule keeps_look [OF apart that(2) _ failed]) (use complete that(1) in auto)
  have rest: "stays P (write_files (pb_stage P) files (Call (RemoveTree (pb_stage P)) (\<lambda>_. Return False))
      ((case marker of None \<Rightarrow> (\<lambda>k. k)
        | Some c \<Rightarrow> must (WriteTo (pb_stage P) marker_name c shared_mode) (Call (RemoveTree (pb_stage P)) (\<lambda>_. Return False))) ?look)) s'"
    if "staged P Map.empty s'" for s'
    using that by (rule keeps_write_files [OF apart _ marker_staged [OF apart _ look [unfolded new] failed] failed]) auto
  note all = keeps_idle [OF disjI1 [OF refl] start keeps_idle [OF disjI2 [OF refl] start keeps_make_stage [OF apart start rest]]]
  show ?thesis
    using all unfolding publish_files_def Let_def P P_def [symmetric] by (simp only: assms not_True_eq_False if_False)
qed

end
