(* ===== verification/Publisher_Properties.thy ===== *)
theory Publisher_Properties
  imports Publisher_Files "HOL-Library.Multiset"
begin

text \<open>
  What a publication does to the disk: at every moment, when it has ended, and for the clients of
  \<open>Service_World\<close>, where it is one action. The encoder of the metadata document
  (\<open>json.MarshalIndent\<close>) is a parameter; it delivers some text.
\<close>

section \<open>Payloads and directories\<close>

definition payload_files :: "(metadata_document \<Rightarrow> string) \<Rightarrow> payload \<Rightarrow> (string \<times> string) list" where
  "payload_files enc p = [(''cert.pem'', pl_CertPEM p), (''chain.pem'', pl_ChainPEM p),
     (''fullchain.pem'', pl_FullchainPEM p), (''privkey.pem'', pl_PrivateKeyPEM p), (''metadata.json'', enc (pl_Metadata p))]"

definition shows_payload :: "(metadata_document \<Rightarrow> string) \<Rightarrow> payload \<Rightarrow> (string \<rightharpoonup> node) \<Rightarrow> bool" where
  "shows_payload enc p f \<longleftrightarrow> (\<forall>nc \<in> set (payload_files enc p). f (fst nc) = Some (Regular (snd nc) (file_mode (fst nc))))"

definition entry_shows :: "(metadata_document \<Rightarrow> string) \<Rightarrow> payload option \<Rightarrow> entry option \<Rightarrow> bool" where
  "entry_shows enc v e = (case v of None \<Rightarrow> e = None | Some p \<Rightarrow> \<exists>f. e = Some (Folder f) \<and> shows_payload enc p f)"

definition on_disk :: "(metadata_document \<Rightarrow> string) \<Rightarrow> (string \<rightharpoonup> payload) \<Rightarrow> disk \<Rightarrow> bool" where
  "on_disk enc fs s \<longleftrightarrow> (\<forall>d. validateSafeDirectory d \<longrightarrow> entry_shows enc (fs d) (dk_root s d))"

definition complete_copy :: "string list \<Rightarrow> entry option \<Rightarrow> entry option \<Rightarrow> bool" where
  "complete_copy names e e' \<longleftrightarrow> (\<exists>f g. e = Some (Folder f) \<and> e' = Some (Folder g) \<and> copied (set names) f g)"

lemma fold_add_file:
  "distinct (map fst fs) \<Longrightarrow> (n, c) \<in> set fs \<Longrightarrow> fold add_file fs f n = Some (Regular c (file_mode n))"
proof (induction fs arbitrary: f)
  case (Cons nc fs)
  have other: "n \<notin> fst ` set fs \<Longrightarrow> fold add_file fs g n = g n" for g
    by (induction fs arbitrary: g) (auto simp: add_file_def)
  show ?case
  proof (cases "nc = (n, c)")
    case True
    with Cons.prems(1) have "n \<notin> fst ` set fs" by auto
    moreover have "add_file nc f n = Some (Regular c (file_mode n))" by (simp add: True add_file_def)
    ultimately show ?thesis by (simp add: other)
  next
    case False
    with Cons show ?thesis by simp
  qed
qed simp

lemma new_directory_shows:
  assumes "mset fs = mset (payload_files enc p)"
  shows "shows_payload enc p (with_marker marker (fold add_file fs Map.empty))"
proof -
  have s: "set fs = set (payload_files enc p)" by (rule mset_eq_setD [OF assms])
  have "distinct (map fst (payload_files enc p))" by (simp add: payload_files_def)
  moreover have "mset (map fst fs) = mset (map fst (payload_files enc p))" by (simp only: mset_map assms)
  ultimately have d: "distinct (map fst fs)" using mset_eq_imp_distinct_iff by blast
  have "n \<noteq> marker_name" if "(n, c) \<in> set fs" for n c
    using that unfolding s by (auto simp: payload_files_def marker_name_def)
  with fold_add_file [OF d, of _ _ Map.empty] show ?thesis
    unfolding shows_payload_def s [symmetric] by (auto simp: with_marker_def split: option.split)
qed

lemma payload_complete_files:
  assumes "\<forall>m. enc m \<noteq> []"
  shows "(\<forall>nc \<in> set (payload_files enc p). snd nc \<noteq> []) \<longleftrightarrow> payload_complete p"
  using assms by (auto simp: payload_files_def payload_complete_def)

lemma drawn_not_safe:
  assumes "validateSafeDirectory d"
  shows "d \<noteq> stage_name n x" "d \<noteq> previous_name n x"
  using safe_directory_no_dot [OF assms] by (simp_all add: stage_name_def previous_name_def)

text \<open>Reading a file and listing the files give what the actions of the service model give.\<close>

definition content_text :: "(metadata_document \<Rightarrow> string) \<Rightarrow> file_content \<Rightarrow> string" where
  "content_text enc c = (case c of Pem t \<Rightarrow> t | Metadata m \<Rightarrow> enc m)"

lemma shows_payload_file:
  "shows_payload enc p f \<Longrightarrow> n \<in> set allowedFiles
    \<Longrightarrow> \<exists>c. published_file p n = Some c \<and> f n = Some (Regular (content_text enc c) (file_mode n))"
  by (auto simp: shows_payload_def payload_files_def allowedFiles_def published_file_def content_text_def)

lemma read_is_one_action:
  assumes "on_disk enc (wd_files w) s" "en_fault env (wd_tick w) = NoFault" "validateSafeDirectory d" "n \<in> set allowedFiles"
  shows "map_option fst (publisher_Read s d n)
    = (case re_content (fst (perform env (ReadFile d n) w)) of Inl _ \<Rightarrow> None | Inr c \<Rightarrow> Some (content_text enc c))"
proof (cases "wd_files w d")
  case None
  then have "dk_root s d = None" using assms(1,3) by (auto simp: on_disk_def entry_shows_def)
  with None assms(2-4) show ?thesis by (simp add: perform_def publisher_Read_def folder_of_def)
next
  case (Some p)
  then obtain f where "dk_root s d = Some (Folder f)" "shows_payload enc p f"
    using assms(1,3) by (auto simp: on_disk_def entry_shows_def dest!: spec [of _ d])
  with Some assms(2-4) shows_payload_file [OF this(2) assms(4)] show ?thesis
    by (auto simp: perform_def publisher_Read_def folder_of_def)
qed

lemma available_is_one_action:
  assumes "on_disk enc (wd_files w) s" "en_fault env (wd_tick w) = NoFault" "validateSafeDirectory d"
  shows "re_names (fst (perform env (ListFiles d) w))
    = (case publisher_Available s d of None \<Rightarrow> Inl ErrFile | Some ns \<Rightarrow> Inr ns)"
proof (cases "wd_files w d")
  case None
  then have "dk_root s d = None" using assms(1,3) by (auto simp: on_disk_def entry_shows_def)
  with None assms(2,3) show ?thesis by (simp add: perform_def publisher_Available_def)
next
  case (Some p)
  then obtain f where f: "dk_root s d = Some (Folder f)" "shows_payload enc p f"
    using assms(1,3) by (auto simp: on_disk_def entry_shows_def dest!: spec [of _ d])
  have "set ns \<subseteq> set allowedFiles \<Longrightarrow> available_names f ns = Some ns" for ns
    using shows_payload_file [OF f(2)] by (induction ns) fastforce+
  with Some f(1) assms(2,3) show ?thesis by (simp add: perform_def publisher_Available_def)
qed

text \<open>The three situations of a publication, read off a disk.\<close>

lemma publish_run:
  assumes "run_disk ls (publish_files d nm files marker) s = (res, s')"
  defines "P \<equiv> publication_of d nm files marker s"
  shows "(untouched P s' \<and> res \<noteq> Some True) \<or> (validateSafeDirectory d \<and> moved_away P s' \<and> res \<noteq> Some True)
    \<or> (validateSafeDirectory d \<and> put_in_place P s' \<and> res \<noteq> Some False)"
proof (cases "validateSafeDirectory d")
  case True
  from always_run [OF keeps_publish [OF True] assms(1)]
  have "moment P s'" "\<forall>v. res = Some v \<longrightarrow> final P v s'" unfolding P_def by auto
  with True show ?thesis by (cases res) (auto simp: moment_def final_def split: if_splits)
next
  case False
  then have "res = Some False" "s' = s" using assms(1) by (auto simp: publish_files_def)
  then show ?thesis by (simp add: P_def publication_of_def untouched_def rest_same_def)
qed

section \<open>Sample runs\<close>

definition sample_names :: drawn_names where
  "sample_names = \<lparr>nm_stage = ''1'', nm_previous = ''2'', nm_backup = ''d-3'', nm_order = allowedFiles\<rparr>"

definition sample_payload :: "string \<Rightarrow> payload" where
  "sample_payload c = \<lparr>pl_CertPEM = c, pl_ChainPEM = ''ca'', pl_FullchainPEM = c @ ''ca'', pl_PrivateKeyPEM = ''k'',
     pl_Metadata = \<lparr>md_certificate_id = ''i'', md_name = ''n'', md_mode = ''self_signed'', md_primary_domain = ''a'',
       md_domains = [''a''], md_issuer = ''ca'', md_serial_number = c, md_not_before = 0, md_not_after = 1,
       md_fingerprint_sha256 = c, md_key_algorithm = ''RSA-2048'', md_updated_at = 0\<rparr>,
     pl_CreateMarker = False\<rparr>"

definition sample_files :: "string \<Rightarrow> (string \<times> string) list" where
  "sample_files c = payload_files (\<lambda>m. ''{}'') (sample_payload c)"

definition sample_disk :: disk where
  "sample_disk = \<lparr>dk_root = [''d'' \<mapsto> Folder (fold add_file (sample_files ''old'') Map.empty)], dk_backups = Map.empty\<rparr>"

definition sample_run :: "luck list \<Rightarrow> bool option \<times> disk" where
  "sample_run ls = run_disk ls (publish_files ''d'' sample_names (sample_files ''new'') None) sample_disk"

definition shown_cert :: "disk \<Rightarrow> string \<Rightarrow> string option" where
  "shown_cert s d = (case folder_of (dk_root s) d ''cert.pem'' of Some (Regular c _) \<Rightarrow> Some c | _ \<Rightarrow> None)"

lemma sample_ends: "fst (sample_run (replicate 28 Fine)) = Some True"
  by code_simp

lemma sample_stopped:
  "fst (sample_run (replicate 26 Fine)) = None" "dk_root (snd (sample_run (replicate 26 Fine))) ''d'' = None"
  by code_simp+

lemma sample_loses:
  "fst (sample_run (replicate 26 Fine @ [Fails None [], Fails None [], Fine])) = Some False"
  "dk_root (snd (sample_run (replicate 26 Fine @ [Fails None [], Fails None [], Fine]))) ''d'' = None"
  by code_simp+

lemma sample_on_disk:
  "on_disk (\<lambda>m. ''{}'') [''d'' \<mapsto> sample_payload ''old''] sample_disk"
proof -
  have "shows_payload (\<lambda>m. ''{}'') (sample_payload ''old'') (fold add_file (sample_files ''old'') Map.empty)"
    using new_directory_shows [of "sample_files ''old''" "\<lambda>m. ''{}''" "sample_payload ''old''" None]
    by (simp add: sample_files_def with_marker_def)
  then show ?thesis by (simp add: on_disk_def entry_shows_def sample_disk_def)
qed

section \<open>Properties\<close>

text \<open>C6. However the calls of a publication go, and wherever it is stopped, the directory of the
  certificate is the old one, or the complete new one with no empty file, and then a replaced directory
  has been copied to the backups, or, between the two renames, it is missing and stands untouched
  under the drawn name with its copy in the backups. A publication that reports success has left the
  new directory, one that reports an error has not, and no other directory and no other backup has changed.\<close>

theorem publication_keeps_a_directory:
  assumes "run_disk ls (publish_files d nm files marker) s = (res, s')"
  shows "(dk_root s' d = dk_root s d \<and> res \<noteq> Some True
       \<or> dk_root s' d = Some (Folder (with_marker marker (fold add_file files Map.empty)))
         \<and> (\<forall>nc \<in> set files. snd nc \<noteq> [])
         \<and> (dk_root s d = None \<or> complete_copy (nm_order nm) (dk_root s d) (dk_backups s' (nm_backup nm)))
         \<and> res \<noteq> Some False
       \<or> dk_root s' d = None \<and> dk_root s' (previous_name d (nm_previous nm)) = dk_root s d
         \<and> complete_copy (nm_order nm) (dk_root s d) (dk_backups s' (nm_backup nm)) \<and> res \<noteq> Some True)
     \<and> (\<forall>n. n \<noteq> d \<and> n \<noteq> stage_name d (nm_stage nm) \<and> n \<noteq> previous_name d (nm_previous nm)
          \<longrightarrow> dk_root s' n = dk_root s n)
     \<and> (\<forall>b. b \<noteq> nm_backup nm \<longrightarrow> dk_backups s' b = dk_backups s b)"
  using publish_run [OF assms]
  unfolding untouched_def moved_away_def put_in_place_def rest_same_def backed_up_def complete_copy_def
  by (elim disjE conjE) (auto simp: publication_of_def)

theorem publication_keeps_a_directory_witness:
  "\<exists>res s'. sample_run (replicate 26 Fine) = (res, s') \<and> res = None \<and> dk_root s' ''d'' = None
     \<and> dk_root s' ''.d.previous-2'' = dk_root sample_disk ''d''"
proof -
  obtain res s' where run: "sample_run (replicate 26 Fine) = (res, s')" by fastforce
  have "dk_root sample_disk ''d'' \<noteq> None" by (simp add: sample_disk_def)
  with run sample_stopped publication_keeps_a_directory
    [OF run [unfolded sample_run_def]] show ?thesis
    by (auto simp: previous_name_def sample_names_def)
qed

text \<open>C9. A publication that has ended does to the directories what the single action of the service
  model does, with one of its three kinds of fault: the directory shows the new payload after a
  success; after an error every directory shows what it showed, or the one to be replaced is gone.
  The files may be written in any order.\<close>

theorem publication_is_one_action:
  assumes "run_disk ls (publish_files d nm files marker) s = (Some ok, s')"
    and "mset files = mset (payload_files enc p)" and "\<forall>m. enc m \<noteq> []"
    and "on_disk enc (wd_files w) s"
  shows "\<exists>ft. \<forall>env. en_fault env (wd_tick w) = ft \<longrightarrow>
    (case perform env (Publish d p) w of (r, w') \<Rightarrow> (re_err r = None) = ok \<and> on_disk enc (wd_files w') s')"
proof -
  let ?P = "publication_of d nm files marker s"
  have complete: "pb_complete ?P \<longleftrightarrow> payload_complete p"
    using payload_complete_files [OF assms(3), of p] mset_eq_setD [OF assms(2)] by (simp add: publication_of_def)
  have fields: "pb_target ?P = d" "pb_before ?P = s" "pb_new ?P = with_marker marker (fold add_file files Map.empty)"
    by (simp_all add: publication_of_def)
  have rest: "dk_root s' x = dk_root s x" if "rest_same ?P s'" "x \<noteq> d" "validateSafeDirectory x" for x
    using that drawn_not_safe [OF that(3)] by (simp add: rest_same_def publication_of_def)
  have disk: "on_disk enc ((wd_files w)(d := v)) s'" if "rest_same ?P s'" "entry_shows enc v (dk_root s' d)" for v
    using assms(4) rest [OF that(1)] that(2) by (simp add: on_disk_def)
  from publish_run [OF assms(1)] consider
      (old) "untouched ?P s'" "\<not> ok"
    | (lost) "validateSafeDirectory d" "moved_away ?P s'" "\<not> ok"
    | (new) "validateSafeDirectory d" "put_in_place ?P s'" "ok" by auto
  then show ?thesis
  proof cases
    case old
    then have "dk_root s' x = dk_root s x" if "validateSafeDirectory x" for x
      using rest [OF _ _ that] by (cases "x = d") (simp_all add: untouched_def fields)
    then have "on_disk enc (wd_files w) s'" using assms(4) by (simp add: on_disk_def)
    with old(2) show ?thesis by (intro exI [of _ Fault]) (auto simp: perform_def err_reply_def)
  next
    case lost
    with disk [of None] complete show ?thesis
      by (intro exI [of _ FaultLosing]) (auto simp: perform_def err_reply_def moved_away_def fields entry_shows_def)
  next
    case new
    with disk [of "Some p"] complete new_directory_shows [OF assms(2)] show ?thesis
      by (intro exI [of _ NoFault]) (auto simp: perform_def ok_reply_def put_in_place_def fields entry_shows_def)
  qed
qed

theorem publication_is_one_action_witness:
  "\<exists>s' ft. sample_run (replicate 28 Fine) = (Some True, s')
     \<and> (\<forall>env. en_fault env 0 = ft \<longrightarrow> (case perform env (Publish ''d'' (sample_payload ''new''))
          (empty_world\<lparr>wd_files := [''d'' \<mapsto> sample_payload ''old'']\<rparr>) of
        (r, w') \<Rightarrow> (re_err r = None) = True \<and> on_disk (\<lambda>m. ''{}'') (wd_files w') s'))"
proof -
  obtain s' where run: "sample_run (replicate 28 Fine) = (Some True, s')"
    using sample_ends by (metis prod.collapse)
  have "\<exists>ft. \<forall>env. en_fault env (wd_tick (empty_world\<lparr>wd_files := [''d'' \<mapsto> sample_payload ''old'']\<rparr>)) = ft \<longrightarrow>
      (case perform env (Publish ''d'' (sample_payload ''new'')) (empty_world\<lparr>wd_files := [''d'' \<mapsto> sample_payload ''old'']\<rparr>) of
        (r, w') \<Rightarrow> (re_err r = None) = True \<and> on_disk (\<lambda>m. ''{}'') (wd_files w') s')"
    by (rule publication_is_one_action [OF run [unfolded sample_run_def]])
      (simp_all add: sample_files_def sample_on_disk)
  with run show ?thesis by (simp add: empty_world_def)
qed

text \<open>A published directory in which one of the managed files is missing or is not a regular file
  blocks its certificate: no publication into it succeeds, however the calls go, because the copy to
  the backups requires every file of the old directory.\<close>

theorem damaged_directory_blocks_publication:
  assumes "dk_root s d = Some (Folder f)" and "n \<in> set (nm_order nm)" and "\<forall>c m. f n \<noteq> Some (Regular c m)"
  shows "fst (run_disk ls (publish_files d nm files marker) s) \<noteq> Some True"
proof
  obtain res s' where run: "run_disk ls (publish_files d nm files marker) s = (res, s')" by fastforce
  assume "fst (run_disk ls (publish_files d nm files marker) s) = Some True"
  with publish_run [OF run] run have "put_in_place (publication_of d nm files marker s) s'" by auto
  with assms show False by (auto simp: put_in_place_def backed_up_def copied_def publication_of_def)
qed

theorem damaged_directory_blocks_publication_witness:
  "fst (run_disk (replicate 28 Fine) (publish_files ''d'' sample_names (sample_files ''new'') None)
     \<lparr>dk_root = [''d'' \<mapsto> Folder (fold add_file (tl (sample_files ''old'')) Map.empty)], dk_backups = Map.empty\<rparr>) \<noteq> Some True"
proof (rule damaged_directory_blocks_publication [where n = "''cert.pem''"])
  have "fold add_file (tl (sample_files ''old'')) Map.empty ''cert.pem'' = None" by code_simp
  then show "\<forall>c m. fold add_file (tl (sample_files ''old'')) Map.empty ''cert.pem'' \<noteq> Some (Regular c m)" by simp
qed (simp_all add: sample_names_def allowedFiles_def)

text \<open>Replacing a directory is not atomic: there is a run in which every call succeeds and which,
  stopped between the two renames, leaves no directory under the name of the certificate. When the
  second rename and the one that undoes the first fail, the publication ends with an error and the
  directory stays away.\<close>

theorem replacement_is_not_atomic:
  "\<exists>s d nm files ls ls'. dk_root s d \<noteq> None \<and> set ls = {Fine}
     \<and> fst (run_disk ls (publish_files d nm files None) s) = None
     \<and> dk_root (snd (run_disk ls (publish_files d nm files None) s)) d = None
     \<and> fst (run_disk (ls @ ls') (publish_files d nm files None) s) = Some False
     \<and> dk_root (snd (run_disk (ls @ ls') (publish_files d nm files None) s)) d = None"
proof -
  have "dk_root sample_disk ''d'' \<noteq> None" by (simp add: sample_disk_def)
  with sample_stopped sample_loses show ?thesis
    unfolding sample_run_def
    by (intro exI [of _ sample_disk] exI [of _ "''d''"] exI [of _ sample_names] exI [of _ "sample_files ''new''"]
        exI [of _ "replicate 26 Fine"] exI [of _ "[Fails None [], Fails None [], Fine]"]) simp
qed

end
