(* ===== verification/Service_Status.thy ===== *)
theory Service_Status
  imports Engine_Wiring
begin

text \<open>
  Which statuses the service stores. \<open>model.go\<close> declares the statuses \<open>expiring\<close> and \<open>expired\<close>; no
  operation writes them.
\<close>

definition lasting :: "status \<Rightarrow> bool" where
  "lasting st \<longleftrightarrow> st \<noteq> StatusExpiring \<and> st \<noteq> StatusExpired"

definition rows_lasting :: "world \<Rightarrow> bool" where
  "rows_lasting w \<longleftrightarrow> list_all (\<lambda>r. lasting (nc_Status r)) (wd_certs w)"

fun writes_lasting :: "action \<Rightarrow> bool" where
  "writes_lasting (SetStatus i st) \<longleftrightarrow> lasting st"
| "writes_lasting (CreateRow c) \<longleftrightarrow> lasting (nc_Status c)"
| "writes_lasting a \<longleftrightarrow> True"

abbreviation writes_only_lasting :: "'a svc \<Rightarrow> bool" where
  "writes_only_lasting \<equiv> follows writes_lasting (\<lambda>_ _. True)"

lemma lasting_simps [simp]:
  "lasting StatusActive" "lasting StatusFailed" "lasting StatusIssuing" "lasting StatusRenewing" "lasting StatusRevoked" "lasting StatusPending"
  by (simp_all add: lasting_def)

lemma rows_lasting_upd:
  "rows_lasting w \<Longrightarrow> (\<And>r. lasting (nc_Status r) \<Longrightarrow> lasting (nc_Status (f r))) \<Longrightarrow> rows_lasting (upd_cert i f w)"
  by (auto simp: rows_lasting_def upd_cert_def update_rows_def list_all_iff)

lemmas row_marks = marked_failed_def marked_issued_def marked_renewed_def with_status_def with_settings_def

lemma rows_lasting_subset:
  "rows_lasting w \<Longrightarrow> set (wd_certs w') \<subseteq> set (wd_certs w) \<Longrightarrow> rows_lasting w'"
  by (auto simp: rows_lasting_def list_all_iff)

lemma rows_lasting_new:
  "rows_lasting w \<Longrightarrow> lasting (nc_Status c) \<Longrightarrow> rows_lasting (w\<lparr>wd_certs := wd_certs w @ [new_row i t c]\<rparr>)"
  by (simp add: rows_lasting_def new_row_def)

lemma rows_lasting_kept:
  assumes "rows_lasting w" "writes_lasting a" "perform_action env a w = (r, w')"
  shows "rows_lasting w'"
proof -
  have "set (wd_certs w') \<subseteq> set (wd_certs w) \<or> rows_lasting w'"
    using assms
    by (cases a) (auto simp: store_CreateCertificate_def store_CreateJob_def store_FinishJob_def
        store_UpdateSettings_def store_CreateAuditEvent_def store_DeleteCertificateWithAudit_def Let_def
        rows_lasting_upd rows_lasting_new row_marks
        split: if_splits prod.splits option.splits fault.splits)
  with assms(1) show ?thesis using rows_lasting_subset by blast
qed

interpretation statuses: kept_property "\<lambda>_. True" rows_lasting writes_lasting "\<lambda>_ _. True"
proof
  show "rows_lasting w' \<and> True" if "rows_lasting w" "writes_lasting a" "perform_action env a w = (r, w')" for env w a r w'
    using rows_lasting_kept [OF that] by simp
qed (simp_all add: rows_lasting_def restarted_def)

section \<open>Every operation writes lasting statuses\<close>

lemma lasting_audit [simp]: "writes_lasting (audit_action i ev actor ip res det)"
  by (simp add: audit_action_def)

lemma lasting_return_row [simp]: "writes_only_lasting (return_row i)"
  by (simp add: return_row_def)

lemma lasting_get_row: "(\<And>v. writes_only_lasting (k v)) \<Longrightarrow> writes_only_lasting (get_row i k)"
  by (simp add: get_row_def split: sum.splits)

lemma lasting_with_lock: "writes_only_lasting m \<Longrightarrow> writes_only_lasting (with_lock i m)"
  by (auto simp: with_lock_def unlocking_def intro!: follows_bind)

lemma lasting_failRenewal [simp]: "writes_only_lasting (failRenewal cfg v jid n out e ev actor ip)"
  by (simp add: failRenewal_def)

lemma lasting_engine_result:
  "(\<And>v. writes_lasting (mark v)) \<Longrightarrow> writes_only_lasting (engine_result cfg mark v jid call f g files ev actor ip)"
  by (auto simp: engine_result_def publish_result_def split: sum.splits option.splits)

lemma lasting_acme_values:
  "(\<And>pv. writes_only_lasting (k pv)) \<Longrightarrow> writes_only_lasting (acme_values cfg strict v jid ev actor ip k)"
  by (simp add: acme_values_def split: sum.splits)

lemma lasting_with_engine [simp]:
  "writes_only_lasting (renew_with_engine cfg force v jid ev actor ip)"
  "writes_only_lasting (issue_with_engine cfg v jid actor ip)"
  unfolding renew_with_engine_def issue_with_engine_def Let_def
  by (auto intro!: lasting_acme_values lasting_engine_result)

lemma lasting_existing [simp]: "writes_only_lasting (issueExisting cfg i force jt ev actor ip)"
  unfolding issueExisting_def issueExistingCertificate_def renewExistingCertificate_def
  by (auto intro!: lasting_get_row lasting_with_lock split: option.splits)

lemma lasting_create_and_issue:
  "lasting (nc_Status c) \<Longrightarrow> writes_only_lasting (create_and_issue cfg c jt call f g files det actor ip)"
  by (auto simp: create_and_issue_def Let_def split: sum.splits option.splits)

lemma lasting_values:
  "createSelfSigned_value q = Inr c \<Longrightarrow> lasting (nc_Status c)" "createACME_value e f q = Inr c \<Longrightarrow> lasting (nc_Status c)"
  by (auto simp: createSelfSigned_value_def createACME_value_def Let_def split: if_splits sum.splits option.splits prod.splits)

lemma lasting_operations:
  "writes_only_lasting (service_Renew cfg i force actor ip)"
  "writes_only_lasting (service_Issue cfg i actor ip)"
  "writes_only_lasting (service_Update i n b d m actor ip)"
  "writes_only_lasting (service_Revoke cfg i actor ip)"
  "writes_only_lasting (service_Delete i del actor ip)"
  "writes_only_lasting (service_CreateSelfSigned cfg q actor ip)"
  "writes_only_lasting (service_CreateACME cfg q actor ip)"
  subgoal by (simp add: service_Renew_def)
  subgoal by (auto simp: service_Issue_def intro!: lasting_get_row)
  subgoal by (auto simp: service_Update_def intro!: lasting_get_row split: option.splits)
  subgoal by (auto simp: service_Revoke_def intro!: lasting_get_row lasting_with_lock split: option.splits sum.splits)
  subgoal by (auto simp: service_Delete_def delete_row_and_files_def intro!: lasting_get_row lasting_with_lock split: option.splits)
  subgoal by (auto simp: service_CreateSelfSigned_def intro!: lasting_create_and_issue dest: lasting_values split: sum.splits)
  subgoal by (auto simp: service_CreateACME_def Let_def intro!: lasting_create_and_issue dest: lasting_values split: sum.splits)
  done

lemma lasting_scan: "writes_only_lasting (scan_attempts cfg i interval n)"
  by (induction cfg i interval n rule: scan_attempts.induct)
    (auto simp: scan_attempts.simps intro!: follows_bind lasting_operations)

lemma lasting_forget: "writes_only_lasting m \<Longrightarrow> writes_only_lasting (forget m)"
  by (auto simp: forget_def intro: follows_bind)

lemma lasting_ops: "all_ops cfg m \<Longrightarrow> writes_only_lasting m"
proof -
  have "writes_only_lasting (call_program cfg actor ip c)" for actor ip c
    by (cases c) (auto intro!: lasting_forget lasting_operations lasting_scan simp: scan_goroutine_def)
  then show "all_ops cfg m \<Longrightarrow> writes_only_lasting m"
    by (auto simp: all_ops_def service_ops_def intro!: lasting_forget lasting_operations(5))
qed

lemma reachable_lasting:
  assumes "svc_reach env (all_ops cfg) fresh_pool p"
  shows "rows_lasting (sp_world p)"
proof -
  have "statuses.holding fresh_pool"
    by (simp add: statuses.holding_def fresh_pool_def rows_lasting_def empty_world_def)
  from statuses.kept_reach [OF assms TrueI lasting_ops this] show ?thesis by (simp add: statuses.holding_def)
qed

end
