(* ===== verification/Certificate_List.thy ===== *)
theory Certificate_List
  imports Ui "HOL-Library.Multiset"
begin

text \<open>
  \<open>CertificateListPage\<close>, \<open>remainingDays\<close>, \<open>StatusChip\<close>, \<open>Overview\<close> and the dashboard of
  \<open>web/src/CertificatePages.tsx\<close>: which certificates are listed and in which order, and what is
  shown of them. \<open>Date.parse\<close> on the server's time stamps is the parameter \<open>parseDate\<close>, with
  milliseconds as result; a date's local text is the parameter \<open>localText\<close>.
\<close>

section \<open>Filtering and sorting\<close>

datatype order = Asc | Desc

record listView =
  lv_search :: string
  lv_status :: string
  lv_modeFilter :: string
  lv_expiryOrder :: order

definition list_init :: listView where
  "list_init = \<lparr>lv_search = [], lv_status = [], lv_modeFilter = [], lv_expiryOrder = Asc\<rparr>"

definition search_text :: "certificate \<Rightarrow> string" where
  "search_text item = ct_name item @ '' '' @ ct_primary_domain item @ '' '' @ join '' '' (ct_domains item)"

definition matches :: "listView \<Rightarrow> certificate \<Rightarrow> bool" where
  "matches v item \<longleftrightarrow>
     (lv_search v = [] \<or> js_includes (toLowerCase (search_text item)) (toLowerCase (lv_search v)))
     \<and> (lv_status v = [] \<or> ct_status item = lv_status v)
     \<and> (lv_modeFilter v = [] \<or> mode_text (ct_mode item) = lv_modeFilter v)"

definition truthy_text :: "string option \<Rightarrow> string option" where
  "truthy_text t = (case t of Some [] \<Rightarrow> None | _ \<Rightarrow> t)"

definition expiry_time :: "(string \<Rightarrow> rat) \<Rightarrow> certificate \<Rightarrow> rat" where
  "expiry_time parseDate item =
     (case truthy_text (ct_not_after item) of
        Some t \<Rightarrow> parseDate t
      | None \<Rightarrow> 9007199254740991)"

definition listed :: "(string \<Rightarrow> rat) \<Rightarrow> listView \<Rightarrow> certificate list \<Rightarrow> certificate list" where
  "listed parseDate v data =
     sort_key (\<lambda>item. (case lv_expiryOrder v of
         Asc \<Rightarrow> expiry_time parseDate item | Desc \<Rightarrow> - expiry_time parseDate item))
       (filter (matches v) data)"

section \<open>Cells\<close>

datatype day_text = Dash | Days int

definition remainingDays :: "(string \<Rightarrow> rat) \<Rightarrow> string option \<Rightarrow> rat \<Rightarrow> day_text" where
  "remainingDays parseDate notAfter now =
     (case truthy_text notAfter of
        None \<Rightarrow> Dash
      | Some t \<Rightarrow> Days \<lceil>(parseDate t - now) / 86400000\<rceil>)"

definition san_count :: "certificate \<Rightarrow> nat" where
  "san_count item = length (ct_domains item) - 1"

datatype chip_color = SuccessColor | ErrorColor | DefaultColor

definition statusChip :: "string \<Rightarrow> chip_color" where
  "statusChip status =
     (if status = ''active'' then SuccessColor
      else if status = ''failed'' then ErrorColor else DefaultColor)"

datatype overview_label =
    Subject | PrimaryDomainRow | San | Issuer | SerialNumber | NotBefore | NotAfter | RemainingDays
  | Fingerprint | KeyType | ContainerDirectory | LastJob

datatype cell = Plain string | DashCell | LocalDate string | DayCell day_text | NoJob

definition or_dash :: "string \<Rightarrow> cell" where
  "or_dash s = (if s = [] then DashCell else Plain s)"

definition date_cell :: "string option \<Rightarrow> cell" where
  "date_cell t = (case truthy_text t of Some s \<Rightarrow> LocalDate s | None \<Rightarrow> DashCell)"

definition overview_rows ::
  "(string \<Rightarrow> rat) \<Rightarrow> rat \<Rightarrow> jobRun list \<Rightarrow> certificate \<Rightarrow> (overview_label \<times> cell) list" where
  "overview_rows parseDate now jobs c =
     [(Subject, Plain (''CN='' @ ct_primary_domain c)), (PrimaryDomainRow, Plain (ct_primary_domain c)),
      (San, Plain (join '', '' (ct_domains c))), (Issuer, or_dash (ct_issuer c)),
      (SerialNumber, or_dash (ct_serial_number c)), (NotBefore, date_cell (ct_not_before c)),
      (NotAfter, date_cell (ct_not_after c)),
      (RemainingDays, DayCell (remainingDays parseDate (ct_not_after c) now)),
      (Fingerprint, or_dash (ct_fingerprint_sha256 c)), (KeyType, Plain (ct_key_type c)),
      (ContainerDirectory, Plain (''/certs/'' @ ct_output_directory c)),
      (LastJob, (case jobs of
          [] \<Rightarrow> NoJob
        | j # _ \<Rightarrow> Plain (jr_job_type j @ '' '' @ [CHR 0xB7] @ '' '' @ jr_status j)))]"

datatype tile = TotalTile | ActiveTile | ExpiringTile | ExpiredTile | FailedTile

definition dashboard_tiles :: "dashboard \<Rightarrow> (tile \<times> js_number) list" where
  "dashboard_tiles d =
     (let n = db_counts d
      in [(TotalTile, dn_total n), (ActiveTile, dn_active n), (ExpiringTile, dn_expiring n),
          (ExpiredTile, dn_expired n), (FailedTile, dn_failed n)])"

definition certificate_link :: "string \<Rightarrow> string" where
  "certificate_link i = ''/certificates/'' @ i"

definition dashboard_links :: "dashboard \<Rightarrow> (string \<times> string \<times> cell) list" where
  "dashboard_links d =
     map (\<lambda>item. (certificate_link (ct_id item), ct_name item, date_cell (ct_not_after item)))
       (db_expiring_certificates d)"

section \<open>Properties\<close>

lemma sort_key_stable_filter:
  "filter (\<lambda>x. f x = k) (sort_key f xs) = filter (\<lambda>x. f x = k) xs"
  by (rule sort_key_stable)

text \<open>
  The list shows exactly the certificates that pass the search text, the status and the mode
  filter, each as often as the server sent it, by expiry in the chosen order; certificates that
  expire at the same time keep the order in which the server sent them, in both directions.
\<close>

theorem listed_certificates:
  "mset (listed parseDate v data) = filter_mset (matches v) (mset data)
   \<and> sorted_wrt (\<lambda>a b. case lv_expiryOrder v of
        Asc \<Rightarrow> expiry_time parseDate a \<le> expiry_time parseDate b
      | Desc \<Rightarrow> expiry_time parseDate b \<le> expiry_time parseDate a) (listed parseDate v data)
   \<and> filter (\<lambda>c. expiry_time parseDate c = t) (listed parseDate v data)
       = filter (\<lambda>c. expiry_time parseDate c = t) (filter (matches v) data)"
proof (cases "lv_expiryOrder v")
  case Asc
  let ?f = "expiry_time parseDate"
  have eq: "listed parseDate v data = sort_key ?f (filter (matches v) data)"
    by (simp add: listed_def Asc)
  have "sorted (map ?f (listed parseDate v data))" unfolding eq by (rule sorted_sort_key)
  then have "sorted_wrt (\<lambda>a b. ?f a \<le> ?f b) (listed parseDate v data)"
    by (simp add: sorted_map)
  then show ?thesis
    unfolding eq using Asc sort_key_stable_filter [of ?f t] by simp
next
  case Desc
  let ?f = "\<lambda>c. - expiry_time parseDate c"
  have eq: "listed parseDate v data = sort_key ?f (filter (matches v) data)"
    by (simp add: listed_def Desc)
  have "sorted (map ?f (listed parseDate v data))" unfolding eq by (rule sorted_sort_key)
  then have "sorted_wrt (\<lambda>a b. expiry_time parseDate b \<le> expiry_time parseDate a) (listed parseDate v data)"
    by (simp add: sorted_map)
  then show ?thesis
    unfolding eq using Desc sort_key_stable_filter [of ?f "- t"] by simp
qed

text \<open>
  The remaining days round up: a certificate is shown with d days exactly when its expiry lies
  more than d - 1 and at most d days ahead, so the number is positive as long as the certificate is
  valid and zero or negative from the moment it expires.
\<close>

theorem remainingDays_rounds_up:
  "(remainingDays parseDate (Some t) now = Days d \<longleftrightarrow>
      t \<noteq> [] \<and> of_int (d - 1) * 86400000 < parseDate t - now \<and> parseDate t - now \<le> of_int d * 86400000)
   \<and> (t \<noteq> [] \<longrightarrow> (\<exists>d. remainingDays parseDate (Some t) now = Days d \<and> (0 < d \<longleftrightarrow> now < parseDate t)))"
proof -
  let ?q = "(parseDate t - now) / 86400000"
  have "\<lceil>?q\<rceil> = d \<longleftrightarrow> of_int (d - 1) * 86400000 < parseDate t - now \<and> parseDate t - now \<le> of_int d * 86400000"
    unfolding ceiling_eq_iff by (simp add: less_divide_eq divide_le_eq)
  moreover have "0 < \<lceil>?q\<rceil> \<longleftrightarrow> now < parseDate t" by simp
  ultimately show ?thesis
    by (cases t) (auto simp: remainingDays_def truthy_text_def)
qed

theorem remainingDays_rounds_up_witness:
  "\<exists>d. remainingDays (\<lambda>_. 86400001) (Some ''2030-01-01'') 0 = Days d \<and> 0 < d"
  using remainingDays_rounds_up [of "\<lambda>_. 86400001" "''2030-01-01''" 0 2] by auto

end
