(* ===== verification/Operations_Pages.thy ===== *)
theory Operations_Pages
  imports Certificate_List
begin

text \<open>
  \<open>web/src/OperationsPages.tsx\<close>: the job log with its filters, the audit log, the system page and
  the two tables; and the reading side of the job filter in \<open>internal/httpapi/records.go\<close>. The
  clock and \<open>toISOString\<close> on the client and \<open>time.Parse\<close> on the server are parameters.
\<close>

section \<open>The job log\<close>

record jobsPage =
  jp_status :: string
  jp_jobType :: string
  jp_certificateId :: string
  jp_timeRange :: string

definition jobs_init :: jobsPage where
  "jobs_init = \<lparr>jp_status = [], jp_jobType = [], jp_certificateId = [], jp_timeRange = []\<rparr>"

definition status_menu :: "string list" where
  "status_menu = [[], ''pending'', ''running'', ''succeeded'', ''failed'', ''interrupted'', ''cancelled'']"

definition job_type_menu :: "string list" where
  "job_type_menu = [[], ''issue'', ''renew'', ''force_renew'', ''self_signed_generate'', ''revoke'']"

definition time_range_menu :: "string list" where
  "time_range_menu = [[], ''1'', ''7'', ''30'']"

definition job_filters :: "(rat \<Rightarrow> string) \<Rightarrow> rat \<Rightarrow> jobsPage \<Rightarrow> jobFilters" where
  "job_filters toISOString now s =
     \<lparr>jf_certificateId = Some (jp_certificateId s), jf_status = Some (jp_status s),
      jf_jobType = Some (jp_jobType s),
      jf_since = Some (if jp_timeRange s \<noteq> []
        then (case js_Number (jp_timeRange s) of
            Fin days \<Rightarrow> toISOString (now - days * 86400000) | NaN \<Rightarrow> []) else [])\<rparr>"

datatype jobs_event =
    SetStatus string | SetJobType string | SetCertificate string | SetTimeRange string

text \<open>A changed filter is part of the query's key, so it starts a new request.\<close>

fun jobs_update :: "certificate list \<Rightarrow> jobs_event \<Rightarrow> jobsPage \<Rightarrow> jobsPage" where
  "jobs_update certs (SetStatus v) s = (if v \<in> set status_menu then s\<lparr>jp_status := v\<rparr> else s)"
| "jobs_update certs (SetJobType v) s = (if v \<in> set job_type_menu then s\<lparr>jp_jobType := v\<rparr> else s)"
| "jobs_update certs (SetCertificate v) s =
     (if v \<in> set ([] # map ct_id certs) then s\<lparr>jp_certificateId := v\<rparr> else s)"
| "jobs_update certs (SetTimeRange v) s =
     (if v \<in> set time_range_menu then s\<lparr>jp_timeRange := v\<rparr> else s)"

definition jobs_step ::
  "certificate list \<Rightarrow> (rat \<Rightarrow> string) \<Rightarrow> rat \<Rightarrow> jobs_event \<Rightarrow> jobsPage \<Rightarrow> jobsPage \<times> effect list" where
  "jobs_step certs toISOString now e s =
     (let t = jobs_update certs e s
      in (t, if t = s then [] else [CallApi (ListJobs (job_filters toISOString now t))]))"

definition auditPage_call :: api_call where
  "auditPage_call = ListAuditEvents None"

definition certificateJobs_call :: "string \<Rightarrow> api_call" where
  "certificateJobs_call certificateId =
     ListJobs \<lparr>jf_certificateId = Some certificateId, jf_status = None, jf_jobType = None, jf_since = None\<rparr>"

definition certificateAudits_call :: "string \<Rightarrow> api_call" where
  "certificateAudits_call certificateId = ListAuditEvents (Some certificateId)"

section \<open>Tables\<close>

record jobRow =
  jw_started :: cell
  jw_type :: string
  jw_status :: string
  jw_color :: chip_color
  jw_attempt :: js_number
  jw_output :: cell

definition first_text :: "string option list \<Rightarrow> cell" where
  "first_text ts =
     (case List.find (\<lambda>t. truthy_text t \<noteq> None) ts of Some (Some s) \<Rightarrow> Plain s | _ \<Rightarrow> DashCell)"

definition job_row :: "jobRun \<Rightarrow> jobRow" where
  "job_row v = \<lparr>jw_started = LocalDate (jr_started_at v), jw_type = jr_job_type v, jw_status = jr_status v,
     jw_color = (if jr_status v = ''succeeded'' then SuccessColor
       else if jr_status v = ''failed'' then ErrorColor else DefaultColor),
     jw_attempt = jr_attempt v, jw_output = first_text [jr_error_message v, jr_sanitized_output v]\<rparr>"

definition jobTable :: "jobRun list \<Rightarrow> bool \<Rightarrow> jobRow list \<times> bool" where
  "jobTable values loading = (map job_row values, \<not> loading \<and> length values = 0)"

record auditRow =
  aw_time :: cell
  aw_event :: string
  aw_actor :: string
  aw_ip :: cell
  aw_result :: string

definition audit_row :: "auditEvent \<Rightarrow> auditRow" where
  "audit_row v = \<lparr>aw_time = LocalDate (ae_created_at v), aw_event = ae_event_type v,
     aw_actor = ae_actor v, aw_ip = first_text [ae_client_ip v], aw_result = ae_result v\<rparr>"

definition auditTable :: "auditEvent list \<Rightarrow> bool \<Rightarrow> auditRow list \<times> bool" where
  "auditTable values loading = (map audit_row values, \<not> loading \<and> length values = 0)"

datatype info_label =
    AppVersion | GoVersion | AcmeVersion | OpensslVersion | SqliteStatus | DataDirectory
  | CertificateDirectory | Timezone | SchedulerState | LastRun | NextRun

datatype info_cell = InfoText string | RunningText bool | InfoDate string | NeverRun | NotScheduled

definition systemInfo_rows :: "systemInfo \<Rightarrow> (info_label \<times> info_cell) list" where
  "systemInfo_rows v =
     [(AppVersion, InfoText (si_application_version v)), (GoVersion, InfoText (si_go_version v)),
      (AcmeVersion, InfoText (si_acme_sh_version v)), (OpensslVersion, InfoText (si_openssl_version v)),
      (SqliteStatus, InfoText (si_sqlite_status v)), (DataDirectory, InfoText (si_data_directory v)),
      (CertificateDirectory, InfoText (si_certificate_directory v)), (Timezone, InfoText (si_timezone v)),
      (SchedulerState, RunningText (ss_running (si_scheduler v))),
      (LastRun, (case truthy_text (ss_last_run_at (si_scheduler v)) of
          Some t \<Rightarrow> InfoDate t | None \<Rightarrow> NeverRun)),
      (NextRun, (case truthy_text (ss_next_run_at (si_scheduler v)) of
          Some t \<Rightarrow> InfoDate t | None \<Rightarrow> NotScheduled))]"

section \<open>The server's reading of the filter\<close>

definition form_decode :: "string \<Rightarrow> string" where
  "form_decode s = utf8_decode (pct_decode (map (\<lambda>c. if c = CHR ''+'' then CHR '' '' else c) s))"

definition query_values :: "string \<Rightarrow> (string \<times> string) list" where
  "query_values q =
     map (\<lambda>p. (form_decode (takeWhile (\<lambda>c. c \<noteq> CHR ''='') p),
               form_decode (drop 1 (dropWhile (\<lambda>c. c \<noteq> CHR ''='') p))))
       (filter (\<lambda>p. p \<noteq> []) (split_on (\<lambda>c. c = CHR ''&'') q))"

definition query_get :: "(string \<times> string) list \<Rightarrow> string \<Rightarrow> string" where
  "query_get kvs k = (case map_of kvs k of Some v \<Rightarrow> v | None \<Rightarrow> [])"

definition allowedJobStatuses :: "string list" where
  "allowedJobStatuses =
     [''pending'', ''running'', ''succeeded'', ''failed'', ''interrupted'', ''cancelled'']"

definition allowedJobTypes :: "string list" where
  "allowedJobTypes = [''issue'', ''renew'', ''force_renew'', ''revoke'', ''self_signed_generate'']"

datatype filter_error = StatusFilterInvalid | TypeFilterInvalid | SinceFilterInvalid

record 'time jobsQuery =
  jq_CertificateID :: string
  jq_Status :: string
  jq_JobType :: string
  jq_Since :: "'time option"

definition parseSince :: "(string \<Rightarrow> 'time option) \<Rightarrow> string \<Rightarrow> 'time option option" where
  "parseSince parse raw =
     (if go_TrimSpace raw = [] then Some None
      else case parse raw of None \<Rightarrow> None | Some t \<Rightarrow> Some (Some t))"

definition listJobs_query ::
  "(string \<Rightarrow> 'time option) \<Rightarrow> string \<Rightarrow> filter_error + 'time jobsQuery" where
  "listJobs_query parse rawQuery =
     (let kvs = query_values rawQuery;
          st = go_TrimSpace (query_get kvs ''status'');
          ty = go_TrimSpace (query_get kvs ''job_type'')
      in if st \<noteq> [] \<and> st \<notin> set allowedJobStatuses then Inl StatusFilterInvalid
         else if ty \<noteq> [] \<and> ty \<notin> set allowedJobTypes then Inl TypeFilterInvalid
         else case parseSince parse (query_get kvs ''since'') of
             None \<Rightarrow> Inl SinceFilterInvalid
           | Some since \<Rightarrow>
               Inr \<lparr>jq_CertificateID = go_TrimSpace (query_get kvs ''certificate_id''),
                 jq_Status = st, jq_JobType = ty, jq_Since = since\<rparr>)"

text \<open>The job types that creating a certificate and the later operations record.\<close>

definition created_job_types :: "string list" where
  "created_job_types = [''acme_issue'', ''self_signed_issue'']"

definition later_job_types :: "string list" where
  "later_job_types = [''issue'', ''renew'', ''force_renew'', ''revoke'']"

section \<open>Query strings\<close>

abbreviation plus_space :: "char \<Rightarrow> char" where
  "plus_space c \<equiv> (if c = CHR ''+'' then CHR '' '' else c)"

definition form_safe :: "char \<Rightarrow> bool" where
  "form_safe c \<longleftrightarrow> is_alnum c \<or> code c \<in> {42, 45, 46, 95}"

lemma form_safe_other:
  "form_safe c \<Longrightarrow> c \<noteq> CHR ''+'' \<and> c \<noteq> CHR ''%'' \<and> c \<noteq> CHR ''&'' \<and> c \<noteq> CHR ''='' \<and> code c < 128"
  by (auto simp: form_safe_def is_alnum_def is_digit_def is_lower_ascii_def is_upper_ascii_def code_def)

lemma hex_digit_safe: "n < 16 \<Longrightarrow> form_safe (hex_digit n)"
  by (auto simp: hex_digit_def form_safe_def is_alnum_def is_digit_def is_upper_ascii_def code_char_of)

lemma pct_chars: "d \<in> set (pct b) \<Longrightarrow> d = CHR ''%'' \<or> form_safe d"
proof -
  have "code b div 16 < 16" using code_bound [of b] by linarith
  then show "d \<in> set (pct b) \<Longrightarrow> ?thesis" by (auto simp: pct_def hex_digit_safe)
qed

lemma form_char_cases:
  obtains "c = CHR '' ''" "form_char c = ''+''"
  | "form_safe c" "form_char c = [c]"
  | "form_char c = concat (map pct (utf8_char c))"
proof -
  consider "c = CHR '' ''" | "c \<noteq> CHR '' ''" "form_safe c" | "c \<noteq> CHR '' ''" "\<not> form_safe c" by blast
  then show thesis by cases (simp_all add: that form_char_def form_safe_def)
qed

lemma form_char_chars:
  "d \<in> set (form_char c) \<Longrightarrow> d = CHR ''+'' \<or> d = CHR ''%'' \<or> form_safe d"
  using pct_chars by (cases c rule: form_char_cases) auto

lemma form_encode_no_delimiter:
  "CHR ''&'' \<notin> set (form_encode s) \<and> CHR ''='' \<notin> set (form_encode s)"
  using form_char_chars form_safe_other unfolding form_encode_def by fastforce

lemma pct_decode_form_char:
  "pct_decode (map plus_space (form_char c) @ r) = utf8_char c @ pct_decode r"
proof (cases c rule: form_char_cases)
  case 1
  then show ?thesis by (simp add: utf8_char_def code_def)
next
  case 2
  then show ?thesis
    using form_safe_other [of c] by (simp add: pct_decode_other utf8_char_def)
next
  case 3
  have "plus_space d = d" if "d \<in> set (concat (map pct (utf8_char c)))" for d
    using that pct_chars form_safe_other by fastforce
  then have "map plus_space (form_char c) = concat (map pct (utf8_char c))"
    unfolding 3 by (intro map_idI) auto
  then show ?thesis by (simp add: pct_decode_concat)
qed

lemma form_decode_encode [simp]: "form_decode (form_encode s) = s"
proof -
  have "pct_decode (map plus_space (form_encode s)) = utf8 s"
    by (induction s) (simp_all add: form_encode_def utf8_def pct_decode_form_char)
  then show ?thesis by (simp add: form_decode_def)
qed

lemma pair_parts:
  "takeWhile (\<lambda>c. c \<noteq> CHR ''='') (form_encode k @ ''='' @ form_encode v) = form_encode k"
  "drop 1 (dropWhile (\<lambda>c. c \<noteq> CHR ''='') (form_encode k @ ''='' @ form_encode v)) = form_encode v"
proof -
  have k: "\<forall>c \<in> set (form_encode k). c \<noteq> CHR ''=''" using form_encode_no_delimiter [of k] by auto
  show "takeWhile (\<lambda>c. c \<noteq> CHR ''='') (form_encode k @ ''='' @ form_encode v) = form_encode k"
    using k by (subst takeWhile_append2) auto
  show "drop 1 (dropWhile (\<lambda>c. c \<noteq> CHR ''='') (form_encode k @ ''='' @ form_encode v)) = form_encode v"
    using k by (subst dropWhile_append2) auto
qed

lemma query_values_urlSearchParams: "query_values (urlSearchParams kvs) = kvs"
proof (cases "kvs = []")
  case True
  then show ?thesis by (simp add: query_values_def urlSearchParams_def)
next
  case False
  let ?parts = "map (\<lambda>(k, v). form_encode k @ ''='' @ form_encode v) kvs"
  have "split_on (\<lambda>c. c = CHR ''&'') (urlSearchParams kvs) = ?parts"
    unfolding urlSearchParams_def
    by (rule split_on_join) (use False form_encode_no_delimiter in auto)
  moreover have "filter (\<lambda>p. p \<noteq> []) ?parts = ?parts" by (auto simp: filter_id_conv)
  ultimately show ?thesis
    unfolding query_values_def by (simp add: comp_def case_prod_beta pair_parts [simplified])
qed

lemma query_get_jobs:
  "query_get (jobs_query f) ''status'' = (case jf_status f of Some v \<Rightarrow> v | None \<Rightarrow> [])"
  "query_get (jobs_query f) ''job_type'' = (case jf_jobType f of Some v \<Rightarrow> v | None \<Rightarrow> [])"
  "query_get (jobs_query f) ''certificate_id'' = (case jf_certificateId f of Some v \<Rightarrow> v | None \<Rightarrow> [])"
  "query_get (jobs_query f) ''since'' = (case jf_since f of Some v \<Rightarrow> v | None \<Rightarrow> [])"
  by (auto simp: query_get_def jobs_query_def query_param_def map_add_def split: option.splits)

section \<open>The page\<close>

definition jobs_inv :: "jobsPage \<Rightarrow> bool" where
  "jobs_inv s \<longleftrightarrow> jp_status s \<in> set status_menu \<and> jp_jobType s \<in> set job_type_menu
     \<and> jp_timeRange s \<in> set time_range_menu"

definition menu_filter :: "(rat \<Rightarrow> string) \<Rightarrow> rat \<Rightarrow> effect \<Rightarrow> bool" where
  "menu_filter toISOString now f \<longleftrightarrow>
     (\<exists>s. jobs_inv s \<and> f = CallApi (ListJobs (job_filters toISOString now s)))"

interpretation jobs_page: page_effects "jobs_step certs toISOString now" "\<lambda>s. s = jobs_init" jobs_inv
  "menu_filter toISOString now" for certs toISOString now
proof
  show "s = jobs_init \<Longrightarrow> jobs_inv s" for s
    by (simp add: jobs_inv_def jobs_init_def status_menu_def job_type_menu_def time_range_menu_def)
  have keep: "jobs_inv s \<Longrightarrow> jobs_inv (jobs_update certs e s)" for s e
    by (cases e) (auto simp: jobs_inv_def)
  then show "jobs_inv s \<Longrightarrow> jobs_inv (fst (jobs_step certs toISOString now e s))" for s e
    by (simp add: jobs_step_def Let_def)
  show "jobs_inv s \<Longrightarrow> f \<in> set (snd (jobs_step certs toISOString now e s)) \<Longrightarrow>
      menu_filter toISOString now f" for s f e
    using keep [of s e] by (auto simp: jobs_step_def Let_def menu_filter_def split: if_splits)
qed

lemma menu_texts:
  "t \<in> set status_menu \<Longrightarrow> go_TrimSpace t = t \<and> (t = [] \<or> t \<in> set allowedJobStatuses)"
  "t \<in> set job_type_menu \<Longrightarrow> go_TrimSpace t = t \<and> (t = [] \<or> t \<in> set allowedJobTypes)"
  "t \<in> set time_range_menu \<Longrightarrow> t = [] \<or> (\<exists>d. js_Number t = Fin d)"
proof -
  have "list_all (\<lambda>t. go_TrimSpace t = t \<and> (t = [] \<or> t \<in> set allowedJobStatuses)) status_menu"
    "list_all (\<lambda>t. go_TrimSpace t = t \<and> (t = [] \<or> t \<in> set allowedJobTypes)) job_type_menu"
    "list_all (\<lambda>t. t = [] \<or> js_Number t \<noteq> NaN) time_range_menu"
    by code_simp+
  then show "t \<in> set status_menu \<Longrightarrow> go_TrimSpace t = t \<and> (t = [] \<or> t \<in> set allowedJobStatuses)"
    "t \<in> set job_type_menu \<Longrightarrow> go_TrimSpace t = t \<and> (t = [] \<or> t \<in> set allowedJobTypes)"
    "t \<in> set time_range_menu \<Longrightarrow> t = [] \<or> (\<exists>d. js_Number t = Fin d)"
    by (auto simp: list_all_iff) (metis js_number.exhaust)
qed

section \<open>Properties\<close>

text \<open>
  The query strings of the client are read back by the server unchanged: any list of names and
  values, with whatever characters, comes out of the server's query parser as it went in.
\<close>

theorem query_string_round_trip: "query_values (urlSearchParams kvs) = kvs"
  by (rule query_values_urlSearchParams)

text \<open>
  Every filter the job log can send is accepted by the server and means there what was chosen:
  the status, the type, the certificate and whether the time is limited. The client's time text
  must be one the server's parser accepts.
\<close>

theorem job_filters_are_understood:
  assumes "CallApi (ListJobs f) \<in> set (snd (run_events (jobs_step certs toISOString now) es jobs_init))"
    and iso: "\<forall>t. parse (toISOString t) \<noteq> None \<and> go_TrimSpace (toISOString t) \<noteq> []"
  shows "\<exists>q. listJobs_query parse (urlSearchParams (jobs_query f)) = Inr q
    \<and> jf_status f = Some (jq_Status q) \<and> jf_jobType f = Some (jq_JobType q)
    \<and> map_option go_TrimSpace (jf_certificateId f) = Some (jq_CertificateID q)
    \<and> (jf_since f = Some [] \<longleftrightarrow> jq_Since q = None)"
proof -
  from jobs_page.run_ok [OF refl assms(1)] obtain s where inv: "jobs_inv s"
    and f: "f = job_filters toISOString now s"
    by (auto simp: menu_filter_def)
  let ?since = "case jf_since f of Some v \<Rightarrow> v | None \<Rightarrow> []"
  have texts: "go_TrimSpace (jp_status s) = jp_status s" "jp_status s = [] \<or> jp_status s \<in> set allowedJobStatuses"
    "go_TrimSpace (jp_jobType s) = jp_jobType s" "jp_jobType s = [] \<or> jp_jobType s \<in> set allowedJobTypes"
    "jp_timeRange s = [] \<or> (\<exists>d. js_Number (jp_timeRange s) = Fin d)"
    using inv menu_texts by (auto simp: jobs_inv_def)
  have empty: "go_TrimSpace [] = []" by code_simp
  have since: "\<exists>r. parseSince parse ?since = Some r \<and> (jf_since f = Some [] \<longleftrightarrow> r = None)"
    using texts(5)
  proof
    assume "jp_timeRange s = []"
    then show ?thesis using empty by (simp add: f job_filters_def parseSince_def)
  next
    assume "\<exists>d. js_Number (jp_timeRange s) = Fin d"
    then obtain d where d: "js_Number (jp_timeRange s) = Fin d" by blast
    obtain y where "parse (toISOString (now - d * 86400000)) = Some y" using iso by blast
    moreover have "toISOString (now - d * 86400000) \<noteq> []" using iso empty by metis
    ultimately show ?thesis using d iso
      by (cases "jp_timeRange s = []") (auto simp: f job_filters_def parseSince_def empty)
  qed
  then obtain r where r: "parseSince parse ?since = Some r" "jf_since f = Some [] \<longleftrightarrow> r = None" by blast
  then show ?thesis
    using texts
    by (simp add: listJobs_query_def query_values_urlSearchParams query_get_jobs Let_def)
      (auto simp: f job_filters_def)
qed

definition fixed_iso :: "rat \<Rightarrow> string" where
  "fixed_iso t = ''2026-01-01T00:00:00.000Z''"

theorem job_filters_are_understood_witness:
  "\<exists>q. listJobs_query (\<lambda>_. Some ()) ''status=failed&since=2026-01-01T00%3A00%3A00.000Z'' = Inr q
     \<and> jq_Status q = ''failed'' \<and> jq_Since q \<noteq> None"
proof -
  let ?f = "\<lparr>jf_certificateId = Some [], jf_status = Some ''failed'', jf_jobType = Some [],
    jf_since = Some ''2026-01-01T00:00:00.000Z''\<rparr>"
  have sent: "CallApi (ListJobs ?f) \<in> set (snd (run_events (jobs_step [] fixed_iso 0)
      [SetStatus ''failed'', SetTimeRange ''7''] jobs_init))"
    by code_simp
  have url: "urlSearchParams (jobs_query ?f) = ''status=failed&since=2026-01-01T00%3A00%3A00.000Z''"
    by code_simp
  have "go_TrimSpace ''2026-01-01T00:00:00.000Z'' \<noteq> []" by code_simp
  then have iso: "\<forall>t. (\<lambda>_. Some ()) (fixed_iso t) \<noteq> None \<and> go_TrimSpace (fixed_iso t) \<noteq> []"
    by (simp add: fixed_iso_def)
  from job_filters_are_understood [OF sent iso] show ?thesis unfolding url by auto
qed

text \<open>
  The jobs that creating a certificate records cannot be filtered for: their types are neither
  in the menu of the job log nor accepted by the server, while the menu offers a type that no
  operation records.
\<close>

theorem creation_jobs_cannot_be_filtered:
  "list_all (\<lambda>t. t \<notin> set job_type_menu \<and> t \<notin> set allowedJobTypes) created_job_types
   \<and> ''self_signed_generate'' \<in> set job_type_menu
   \<and> ''self_signed_generate'' \<notin> set (created_job_types @ later_job_types)
   \<and> listJobs_query (\<lambda>_. Some ()) ''job_type=acme_issue'' = Inl TypeFilterInvalid"
  by code_simp

end
