(* ===== verification/Record_Queries.thy ===== *)
theory Record_Queries
  imports Service_Status Operations_Pages
begin

text \<open>
  The lists of jobs and events and the dashboard: \<open>Jobs\<close>, \<open>Job\<close> and \<open>AuditEvents\<close> of
  \<open>internal/store/sqlite/store.go\<close>, \<open>parseLimit\<close> and \<open>dashboard\<close> of \<open>internal/httpapi/records.go\<close>. Rows
  whose time columns are equal come in the order of the table.
\<close>

section \<open>Limits\<close>

text \<open>\<open>strconv.Atoi\<close>: a sign, digits, and a value of 64 bits.\<close>

fun decimal_value :: "int \<Rightarrow> string \<Rightarrow> int option" where
  "decimal_value acc [] = Some acc"
| "decimal_value acc (c # cs) = (if is_digit c then decimal_value (acc * 10 + (int (code c) - 48)) cs else None)"

definition go_Atoi :: "string \<Rightarrow> int option" where
  "go_Atoi s = (case s of
       [] \<Rightarrow> None
     | c # cs \<Rightarrow> (let body = (if c = CHR ''-'' \<or> c = CHR ''+'' then cs else s) in
         if body = [] then None
         else case decimal_value 0 body of
           None \<Rightarrow> None
         | Some v \<Rightarrow> (let n = (if c = CHR ''-'' then - v else v)
                    in if - (2 ^ 63) \<le> n \<and> n < 2 ^ 63 then Some n else None)))"

definition parseLimit :: "string \<Rightarrow> int" where
  "parseLimit raw = (case go_Atoi raw of None \<Rightarrow> 100 | Some v \<Rightarrow> if v < 1 \<or> v > 200 then 100 else v)"

definition store_limit :: "int \<Rightarrow> int" where
  "store_limit limit = (if limit < 1 \<or> limit > 200 then 100 else limit)"

section \<open>The lists\<close>

definition since_ok :: "int option \<Rightarrow> int \<Rightarrow> bool" where
  "since_ok since t = (case since of None \<Rightarrow> True | Some s \<Rightarrow> column_rank s \<le> column_rank t)"

definition job_matches :: "int jobsQuery \<Rightarrow> stored_job \<Rightarrow> bool" where
  "job_matches q j \<longleftrightarrow> (jq_CertificateID q = [] \<or> jb_CertificateID j = jq_CertificateID q)
     \<and> (jq_Status q = [] \<or> jb_Status j = jq_Status q) \<and> (jq_JobType q = [] \<or> jb_JobType j = jq_JobType q)
     \<and> since_ok (jq_Since q) (jb_StartedAt j)"

definition newest :: "('a \<Rightarrow> int) \<Rightarrow> int \<Rightarrow> 'a list \<Rightarrow> 'a list" where
  "newest time limit rows = take (nat (store_limit limit)) (sort_key (\<lambda>r. - column_rank (time r)) rows)"

definition store_Jobs :: "int jobsQuery \<Rightarrow> int \<Rightarrow> world \<Rightarrow> stored_job list" where
  "store_Jobs q limit w = newest jb_StartedAt limit (filter (job_matches q) (wd_jobs w))"

definition store_Job :: "string \<Rightarrow> world \<Rightarrow> stored_job option" where
  "store_Job i w = List.find (\<lambda>j. jb_ID j = i) (wd_jobs w)"

record auditQuery =
  aq_CertificateID :: string
  aq_EventType :: string
  aq_Since :: "int option"

definition event_matches :: "auditQuery \<Rightarrow> stored_event \<Rightarrow> bool" where
  "event_matches q e \<longleftrightarrow> (aq_CertificateID q = [] \<or> au_CertificateID e = aq_CertificateID q)
     \<and> (aq_EventType q = [] \<or> au_EventType e = aq_EventType q) \<and> since_ok (aq_Since q) (au_CreatedAt e)"

definition store_AuditEvents :: "auditQuery \<Rightarrow> int \<Rightarrow> world \<Rightarrow> stored_event list" where
  "store_AuditEvents q limit w = newest au_CreatedAt limit (filter (event_matches q) (wd_audit w))"

definition listAuditEvents_query :: "(string \<Rightarrow> int option) \<Rightarrow> string \<Rightarrow> (auditQuery \<times> int) option" where
  "listAuditEvents_query parse rawQuery =
     (let kvs = query_values rawQuery in
      case parseSince parse (query_get kvs ''since'') of
        None \<Rightarrow> None
      | Some since \<Rightarrow> Some (\<lparr>aq_CertificateID = go_TrimSpace (query_get kvs ''certificate_id''),
          aq_EventType = go_TrimSpace (query_get kvs ''event_type''), aq_Since = since\<rparr>, parseLimit (query_get kvs ''limit'')))"

section \<open>The dashboard\<close>

record dashboard_view =
  dv_total :: int
  dv_active :: int
  dv_expiring :: int
  dv_expired :: int
  dv_failed :: int
  dv_expiring_certificates :: "cert_row list"
  dv_recent_jobs :: "stored_job list"

definition thirty_days :: int where
  "thirty_days = 30 * 24 * 3600 * nanos"

definition past_expiry :: "int \<Rightarrow> cert_row \<Rightarrow> bool" where
  "past_expiry now r = (case cr_NotAfter r of None \<Rightarrow> False | Some t \<Rightarrow> t \<le> now)"

definition near_expiry :: "int \<Rightarrow> cert_row \<Rightarrow> bool" where
  "near_expiry now r = (case cr_NotAfter r of None \<Rightarrow> False | Some t \<Rightarrow> t < now + thirty_days)"

definition count_row :: "int \<Rightarrow> cert_row \<Rightarrow> dashboard_view \<Rightarrow> dashboard_view" where
  "count_row now r d =
     (if nc_Status r = StatusFailed then d\<lparr>dv_failed := dv_failed d + 1\<rparr>
      else if past_expiry now r then d\<lparr>dv_expired := dv_expired d + 1\<rparr>
      else if near_expiry now r then
        d\<lparr>dv_expiring := dv_expiring d + 1,
          dv_expiring_certificates := (if length (dv_expiring_certificates d) < 5
            then dv_expiring_certificates d @ [r] else dv_expiring_certificates d)\<rparr>
      else if nc_Status r = StatusActive then d\<lparr>dv_active := dv_active d + 1\<rparr>
      else d)"

definition dashboard_of :: "int \<Rightarrow> world \<Rightarrow> dashboard_view" where
  "dashboard_of now w =
     (let rows = listed_rows (wd_certs w) in
      fold (count_row now) rows
        \<lparr>dv_total = int (length rows), dv_active = 0, dv_expiring = 0, dv_expired = 0, dv_failed = 0,
         dv_expiring_certificates = [],
         dv_recent_jobs = store_Jobs \<lparr>jq_CertificateID = [], jq_Status = [], jq_JobType = [], jq_Since = None\<rparr> 5 w\<rparr>)"

section \<open>What the lists contain\<close>

definition dated :: "int \<Rightarrow> bool" where
  "dated t \<longleftrightarrow> 0 \<le> t \<and> utc_year t \<le> 9999"

lemma column_rank_seconds: "dated a \<Longrightarrow> dated b \<Longrightarrow> column_rank a \<le> column_rank b \<Longrightarrow> a div nanos \<le> b div nanos"
  using column_rank_less [of b a] by (fastforce simp: dated_def)

lemma seconds_column_rank: "dated a \<Longrightarrow> dated b \<Longrightarrow> a div nanos < b div nanos \<Longrightarrow> column_rank a < column_rank b"
  using column_rank_less [of a b] by (simp add: dated_def)

lemma dated_small: "0 \<le> t \<Longrightarrow> t < 365 * 86400 * nanos \<Longrightarrow> dated t"
proof -
  assume t: "0 \<le> t" "t < 365 * 86400 * nanos"
  then have "t div nanos < 365 * 86400" by (simp add: nanos_def)
  then have "t div nanos div 86400 < 365" by simp
  then have "utc_year t = 1970" by (simp add: utc_year_def count_off_stop year_length_def leap_year_def)
  with t show ?thesis by (simp add: dated_def)
qed

lemma store_limit_bounds: "1 \<le> store_limit n \<and> store_limit n \<le> 200"
  by (simp add: store_limit_def)

lemma newest_sorted:
  assumes "\<forall>r \<in> set rows. dated (time r)"
  shows "sorted_wrt (\<lambda>a b. time b div nanos \<le> time a div nanos) (newest time limit rows)"
proof -
  have "sorted (map (\<lambda>r. - column_rank (time r)) (newest time limit rows))"
    unfolding newest_def take_map [symmetric] by (intro sorted_wrt_take sorted_sort_key)
  then have "sorted_wrt (\<lambda>a b. column_rank (time b) \<le> column_rank (time a)) (newest time limit rows)"
    by (simp add: sorted_map)
  then show ?thesis
  proof (rule sorted_wrt_mono_rel [rotated])
    fix a b assume "a \<in> set (newest time limit rows)" "b \<in> set (newest time limit rows)"
    then have "a \<in> set rows" "b \<in> set rows" by (auto simp: newest_def dest: in_set_takeD)
    moreover assume "column_rank (time b) \<le> column_rank (time a)"
    ultimately show "time b div nanos \<le> time a div nanos" using assms column_rank_seconds by blast
  qed
qed

lemma sorted_take_drop:
  assumes "sorted (map f xs)" "s \<in> set (take n xs)" "r \<in> set (drop n xs)"
  shows "f s \<le> f r"
proof -
  have "sorted (map f (take n xs) @ map f (drop n xs))" using assms(1) by (simp add: flip: map_append)
  then show ?thesis using assms(2,3) by (auto simp: sorted_append)
qed

lemma not_taken:
  assumes "r \<in> set xs" "r \<notin> set (take n xs)"
  shows "r \<in> set (drop n xs)" and "length (take n xs) = n"
proof -
  have "set xs = set (take n xs) \<union> set (drop n xs)" by (simp flip: set_append)
  then show d: "r \<in> set (drop n xs)" using assms by blast
  then show "length (take n xs) = n" by (cases "length xs \<le> n") auto
qed

lemma newest_omits:
  assumes "\<forall>r \<in> set rows. dated (time r)" and "r \<in> set rows" "r \<notin> set (newest time limit rows)"
  shows "int (length (newest time limit rows)) = store_limit limit"
    and "s \<in> set (newest time limit rows) \<Longrightarrow> time r div nanos \<le> time s div nanos"
proof -
  let ?all = "sort_key (\<lambda>r. - column_rank (time r)) rows" and ?n = "nat (store_limit limit)"
  have r: "r \<in> set ?all" "r \<notin> set (take ?n ?all)" using assms(2,3) by (simp_all add: newest_def)
  show "int (length (newest time limit rows)) = store_limit limit"
    using not_taken(2) [OF r] store_limit_bounds [of limit] by (simp add: newest_def)
  assume s: "s \<in> set (newest time limit rows)"
  then have "column_rank (time r) \<le> column_rank (time s)"
    using sorted_take_drop [OF sorted_sort_key _ not_taken(1) [OF r], of s] by (simp add: newest_def)
  moreover have "s \<in> set rows" using s by (auto simp: newest_def dest: in_set_takeD)
  ultimately show "time r div nanos \<le> time s div nanos" using assms(1,2) column_rank_seconds by blast
qed

section \<open>What the dashboard shows\<close>

definition counts_expiring :: "int \<Rightarrow> cert_row \<Rightarrow> bool" where
  "counts_expiring now r \<longleftrightarrow> nc_Status r \<noteq> StatusFailed \<and> \<not> past_expiry now r \<and> near_expiry now r"

lemma fold_count_expiring:
  "dv_expiring_certificates (fold (count_row now) rows d)
     = (if length (dv_expiring_certificates d) < 5
        then take 5 (dv_expiring_certificates d @ filter (counts_expiring now) rows) else dv_expiring_certificates d)"
proof (induction rows arbitrary: d)
  case (Cons r rows)
  have step: "dv_expiring_certificates (count_row now r d) = (if counts_expiring now r \<and> length (dv_expiring_certificates d) < 5
      then dv_expiring_certificates d @ [r] else dv_expiring_certificates d)"
    by (simp add: count_row_def counts_expiring_def)
  show ?case
    unfolding fold_simps(2) Cons.IH step by (auto simp: not_less take_Cons')
qed simp

lemma fold_counts:
  "dv_failed (fold (count_row now) rows d) = dv_failed d + int (length (filter (\<lambda>r. nc_Status r = StatusFailed) rows))"
  "dv_expired (fold (count_row now) rows d)
     = dv_expired d + int (length (filter (\<lambda>r. nc_Status r \<noteq> StatusFailed \<and> past_expiry now r) rows))"
  "dv_expiring (fold (count_row now) rows d) = dv_expiring d + int (length (filter (counts_expiring now) rows))"
  "dv_active (fold (count_row now) rows d) = dv_active d + int (length (filter
     (\<lambda>r. nc_Status r = StatusActive \<and> \<not> past_expiry now r \<and> \<not> near_expiry now r) rows))"
  "dv_total (fold (count_row now) rows d) = dv_total d"
  "dv_recent_jobs (fold (count_row now) rows d) = dv_recent_jobs d"
  by (induction rows arbitrary: d) (auto simp: count_row_def counts_expiring_def)

lemma four_classes:
  assumes "\<And>x. P x \<Longrightarrow> \<not> Q x \<and> \<not> R x \<and> \<not> S x" "\<And>x. Q x \<Longrightarrow> \<not> R x \<and> \<not> S x" "\<And>x. R x \<Longrightarrow> \<not> S x"
  shows "length (filter P xs) + length (filter Q xs) + length (filter R xs) + length (filter S xs) \<le> length xs"
  using assms by (induction xs) auto

lemma set_listed_rows [simp]: "set (listed_rows rows) = set rows" and length_listed_rows [simp]: "length (listed_rows rows) = length rows"
  by (simp_all add: listed_rows_def)

text \<open>Among rows with an expiry the list is ordered by it: sorting is stable.\<close>

lemma sort_key_filter_sorted: "sorted (map g (filter P xs)) \<Longrightarrow> (\<And>x. P x \<Longrightarrow> f x = c) \<Longrightarrow> sorted (map g (filter P (sort_key f xs)))"
proof -
  assume s: "sorted (map g (filter P xs))" and c: "\<And>x. P x \<Longrightarrow> f x = c"
  have "filter P (sort_key f xs) = sort_key f (filter P xs)" by (simp add: filter_sort)
  also have "\<dots> = filter P xs"
  proof (rule sort_key_id_if_sorted)
    have "map f (filter P xs) = map (\<lambda>_. c) (filter P xs)" by (simp add: c)
    then show "sorted (map f (filter P xs))" by (simp add: map_replicate_const)
  qed
  finally show ?thesis using s by simp
qed

lemma listed_by_expiry:
  "sorted (map (\<lambda>r. case cr_NotAfter r of Some t \<Rightarrow> column_rank t | None \<Rightarrow> 0) (filter (counts_expiring now) (listed_rows rows)))"
  unfolding listed_rows_def
proof (rule sort_key_filter_sorted [where c = 0])
  show "sorted (map (\<lambda>r. case cr_NotAfter r of Some t \<Rightarrow> column_rank t | None \<Rightarrow> 0) (filter (counts_expiring now)
      (sort_key (\<lambda>r. case cr_NotAfter r of Some t \<Rightarrow> column_rank t | None \<Rightarrow> 0) (sort_key (\<lambda>r. - column_rank (cr_CreatedAt r)) rows))))"
    by (simp add: filter_sort)
qed (auto simp: counts_expiring_def near_expiry_def split: option.splits)

section \<open>Properties\<close>

text \<open>The job log lists the latest jobs: the entries satisfy the filter, they are ordered by the second
  in which they were started, latest first, there are at most 200 of them, and a job that satisfies
  the filter is missing only when the list is full and every entry is from the same second or later.\<close>

theorem job_log_lists_the_latest:
  assumes "\<forall>j \<in> set (wd_jobs w). dated (jb_StartedAt j)"
  shows "sorted_wrt (\<lambda>a b. jb_StartedAt b div nanos \<le> jb_StartedAt a div nanos) (store_Jobs q limit w)
    \<and> length (store_Jobs q limit w) \<le> 200
    \<and> (\<forall>j \<in> set (store_Jobs q limit w). j \<in> set (wd_jobs w) \<and> job_matches q j)
    \<and> (\<forall>j \<in> set (wd_jobs w). job_matches q j \<and> j \<notin> set (store_Jobs q limit w)
        \<longrightarrow> int (length (store_Jobs q limit w)) = store_limit limit
          \<and> (\<forall>k \<in> set (store_Jobs q limit w). jb_StartedAt j div nanos \<le> jb_StartedAt k div nanos))"
proof -
  let ?rows = "filter (job_matches q) (wd_jobs w)"
  have d: "\<forall>j \<in> set ?rows. dated (jb_StartedAt j)" using assms by simp
  have "length (newest jb_StartedAt limit ?rows) \<le> 200"
    using store_limit_bounds [of limit] by (simp add: newest_def nat_le_iff min_le_iff_disj)
  moreover have "set (newest jb_StartedAt limit ?rows) \<subseteq> set ?rows"
    by (auto simp: newest_def dest: in_set_takeD)
  ultimately show ?thesis
    unfolding store_Jobs_def using newest_sorted [OF d] newest_omits [OF d] by auto
qed

definition two_jobs :: "int \<Rightarrow> int \<Rightarrow> world" where
  "two_jobs a b = empty_world\<lparr>wd_jobs := map (\<lambda>(i, t). \<lparr>jb_ID = i, jb_CertificateID = [], jb_JobType = ''renew'',
     jb_Status = ''failed'', jb_StartedAt = t, jb_FinishedAt = None, jb_ExitCode = None, jb_SanitizedOutput = [],
     jb_ErrorMessage = [], jb_Attempt = 1\<rparr>) [(''a'', a), (''b'', b)]\<rparr>"

definition every_job :: "int jobsQuery" where
  "every_job = \<lparr>jq_CertificateID = [], jq_Status = [], jq_JobType = [], jq_Since = None\<rparr>"

lemmas two_jobs_listed = store_Jobs_def newest_def two_jobs_def every_job_def job_matches_def since_ok_def

theorem job_log_lists_the_latest_witness:
  "map jb_ID (store_Jobs every_job 1 (two_jobs 0 2000000000)) = [''b'']
   \<and> (\<forall>j \<in> set (wd_jobs (two_jobs 0 2000000000)). job_matches every_job j \<and> j \<notin> set (store_Jobs every_job 1 (two_jobs 0 2000000000))
        \<longrightarrow> int (length (store_Jobs every_job 1 (two_jobs 0 2000000000))) = 1)"
proof -
  have d: "dated 0" "dated 2000000000" by (simp_all add: dated_small nanos_def)
  then have "\<forall>j \<in> set (wd_jobs (two_jobs 0 2000000000)). dated (jb_StartedAt j)" by (simp add: two_jobs_def)
  from job_log_lists_the_latest [OF this, of every_job 1]
  have "\<forall>j \<in> set (wd_jobs (two_jobs 0 2000000000)). job_matches every_job j \<and> j \<notin> set (store_Jobs every_job 1 (two_jobs 0 2000000000))
      \<longrightarrow> int (length (store_Jobs every_job 1 (two_jobs 0 2000000000))) = store_limit 1" by blast
  moreover have "store_limit 1 = 1" by (simp add: store_limit_def)
  moreover have "map jb_ID (store_Jobs every_job 1 (two_jobs 0 2000000000)) = [''b'']"
    using seconds_column_rank [OF d] by (simp add: two_jobs_listed store_limit_def nanos_def)
  ultimately show ?thesis by simp
qed

text \<open>C40. Within a second the order of the lists is not the order in time: the time columns are compared
  as texts and the zeros at the end of a fraction are left out, so a job started on the full second
  is listed before one started half a second later, and a filter for jobs since that full second
  leaves the later one out.\<close>

theorem same_second_is_misordered:
  "\<exists>a b. dated a \<and> dated b \<and> a < b
     \<and> map jb_ID (store_Jobs every_job 5 (two_jobs a b)) = [''a'', ''b'']
     \<and> map jb_ID (store_Jobs (every_job\<lparr>jq_Since := Some a\<rparr>) 5 (two_jobs a b)) = [''a'']"
proof -
  have "timestamp_text 0 = ''1970-01-01T00:00:00Z'' @ []" "timestamp_text 500000000 = ''1970-01-01T00:00:00.'' @ ''5Z''"
    by code_simp+
  moreover have "lex_less ''1970-01-01T00:00:00.'' ''1970-01-01T00:00:00Z''" by code_simp
  ultimately have less: "column_rank 500000000 < column_rank 0"
    unfolding column_rank_def using text_rank_less [of "''1970-01-01T00:00:00.''" "''1970-01-01T00:00:00Z''" 30 "''5Z''" "[]"] by simp
  have "dated 0" "dated 500000000" by (simp_all add: dated_small nanos_def)
  moreover have "map jb_ID (store_Jobs every_job 5 (two_jobs 0 500000000)) = [''a'', ''b'']"
    "map jb_ID (store_Jobs (every_job\<lparr>jq_Since := Some 0\<rparr>) 5 (two_jobs 0 500000000)) = [''a'']"
    using less by (simp_all add: two_jobs_listed store_limit_def)
  ultimately show ?thesis by (intro exI [of _ 0] exI [of _ 500000000]) simp
qed

text \<open>The dashboard counts every certificate at most once, and the certificates it names as expiring
  are the ones that expire first: one that is left out expires in the same second as every named one
  or later, and then five are named.\<close>

theorem dashboard_names_the_soonest:
  assumes "\<forall>r \<in> set (wd_certs w). \<forall>t. cr_NotAfter r = Some t \<longrightarrow> dated t"
  shows "let d = dashboard_of now w in
    dv_active d + dv_expiring d + dv_expired d + dv_failed d \<le> dv_total d
    \<and> (\<forall>r \<in> set (dv_expiring_certificates d). r \<in> set (wd_certs w) \<and> counts_expiring now r)
    \<and> (\<forall>r \<in> set (wd_certs w). counts_expiring now r \<and> r \<notin> set (dv_expiring_certificates d)
        \<longrightarrow> length (dv_expiring_certificates d) = 5
          \<and> (\<forall>s \<in> set (dv_expiring_certificates d). the (cr_NotAfter s) div nanos \<le> the (cr_NotAfter r) div nanos))"
proof -
  let ?rows = "listed_rows (wd_certs w)" and ?key = "\<lambda>r. case cr_NotAfter r of Some t \<Rightarrow> column_rank t | None \<Rightarrow> 0"
  let ?near = "filter (counts_expiring now) ?rows"
  have shown: "dv_expiring_certificates (dashboard_of now w) = take 5 ?near"
    by (simp add: dashboard_of_def Let_def fold_count_expiring)
  have soon: "the (cr_NotAfter s) div nanos \<le> the (cr_NotAfter r) div nanos"
    if "s \<in> set (take 5 ?near)" "r \<in> set (drop 5 ?near)" for s r
  proof -
    have "s \<in> set ?near" "r \<in> set ?near" using in_set_takeD [OF that(1)] in_set_dropD [OF that(2)] by blast+
    then have "s \<in> set (wd_certs w)" "counts_expiring now s" "r \<in> set (wd_certs w)" "counts_expiring now r" by simp_all
    moreover from this obtain t u where "cr_NotAfter s = Some t" "cr_NotAfter r = Some u"
      by (auto simp: counts_expiring_def near_expiry_def split: option.splits)
    ultimately show ?thesis
      using sorted_take_drop [OF listed_by_expiry that] assms column_rank_seconds by simp
  qed
  have total: "dv_active (dashboard_of now w) + dv_expiring (dashboard_of now w) + dv_expired (dashboard_of now w)
      + dv_failed (dashboard_of now w) \<le> dv_total (dashboard_of now w)"
    unfolding dashboard_of_def Let_def fold_counts
    using four_classes [of "\<lambda>r. nc_Status r = StatusActive \<and> \<not> past_expiry now r \<and> \<not> near_expiry now r"
      "counts_expiring now" "\<lambda>r. nc_Status r \<noteq> StatusFailed \<and> past_expiry now r" "\<lambda>r. nc_Status r = StatusFailed" ?rows]
    by (simp add: counts_expiring_def)
  have "length (take 5 ?near) = 5 \<and> (\<forall>s \<in> set (take 5 ?near). the (cr_NotAfter s) div nanos \<le> the (cr_NotAfter r) div nanos)"
    if "r \<in> set (wd_certs w)" "counts_expiring now r" "r \<notin> set (take 5 ?near)" for r
    using not_taken [OF _ that(3)] that(1,2) soon by simp
  then show ?thesis
    unfolding Let_def shown using total by (auto dest: in_set_takeD)
qed

text \<open>A certificate that expires soon and one that has failed.\<close>

definition sample_row :: "string \<Rightarrow> status \<Rightarrow> int \<Rightarrow> cert_row" where
  "sample_row i st t = (new_row i 0 \<lparr>nc_Name = i, nc_Mode = ''self_signed'', nc_PrimaryDomain = ''a'', nc_Domains = [''a''],
     nc_KeyType = ''rsa-2048'', nc_Status = st, nc_OutputDirectory = i, nc_AutoRenewEnabled = True, nc_RenewBeforeDays = 1,
     nc_SelfSignedValidDays = 9, nc_ChallengeType = [], nc_DNSProvider = [], nc_DNSCredentialID = [], nc_CADirectoryURL = [],
     nc_ACMEEmail = [], nc_CreateRenewedMarker = False\<rparr>)\<lparr>cr_NotAfter := Some (t * nanos)\<rparr>"

definition sample_rows :: world where
  "sample_rows = empty_world\<lparr>wd_certs := [sample_row ''x'' StatusFailed 1, sample_row ''z'' StatusActive 9]\<rparr>"

lemma sample_rows_dated: "\<forall>r \<in> set (wd_certs sample_rows). \<forall>t. cr_NotAfter r = Some t \<longrightarrow> dated t"
  by (simp add: sample_rows_def sample_row_def empty_world_def dated_small nanos_def)

theorem dashboard_names_the_soonest_witness:
  "map cr_ID (dv_expiring_certificates (dashboard_of 0 sample_rows)) = [''z'']
   \<and> dv_active (dashboard_of 0 sample_rows) + dv_expiring (dashboard_of 0 sample_rows)
     + dv_expired (dashboard_of 0 sample_rows) + dv_failed (dashboard_of 0 sample_rows) \<le> dv_total (dashboard_of 0 sample_rows)
   \<and> (\<forall>r \<in> set (dv_expiring_certificates (dashboard_of 0 sample_rows)). counts_expiring 0 r)"
proof -
  have "map cr_ID (dv_expiring_certificates (dashboard_of 0 sample_rows)) = [''z'']"
    by (simp add: dashboard_of_def Let_def fold_count_expiring listed_rows_def filter_sort)
      (simp add: sample_rows_def sample_row_def new_row_def counts_expiring_def past_expiry_def near_expiry_def thirty_days_def nanos_def)
  with dashboard_names_the_soonest [OF sample_rows_dated, of 0] show ?thesis unfolding Let_def by blast
qed

text \<open>C39. The statuses \<open>expiring\<close> and \<open>expired\<close> are never stored: whatever operations run, fail or are
  interrupted, no certificate of the list has one of them, although certificates expire and the
  dashboard counts them. The filter of the list for these statuses finds nothing.\<close>

theorem expired_status_is_never_stored:
  assumes "svc_reach env (all_ops cfg) fresh_pool p"
  shows "filter (\<lambda>r. nc_Status r = StatusExpired \<or> nc_Status r = StatusExpiring) (listed_rows (wd_certs (sp_world p))) = []"
proof -
  have "lasting (nc_Status r)" if "r \<in> set (wd_certs (sp_world p))" for r
    using reachable_lasting [OF assms] that by (simp add: rows_lasting_def list_all_iff)
  then show ?thesis by (fastforce simp: filter_empty_conv lasting_def)
qed

theorem expired_status_is_never_stored_witness:
  "dv_expired (dashboard_of (400 * thirty_days) (sp_world (played steady active_play))) = 1
   \<and> filter (\<lambda>r. nc_Status r = StatusExpired \<or> nc_Status r = StatusExpiring)
       (listed_rows (wd_certs (sp_world (played steady active_play)))) = []"
proof
  have "svc_reach steady (all_ops plain_config) fresh_pool (played steady active_play)"
    by (rule active_play_reach) (simp add: all_ops_def)
  then show "filter (\<lambda>r. nc_Status r = StatusExpired \<or> nc_Status r = StatusExpiring)
      (listed_rows (wd_certs (sp_world (played steady active_play)))) = []"
    by (rule expired_status_is_never_stored)
  obtain r t where "wd_certs (sp_world (played steady active_play)) = [r]" "nc_Status r = StatusActive"
    "cr_NotAfter r = Some t" "t \<le> 400 * 24 * 3600 * 1000000000" by (rule active_play_row)
  then show "dv_expired (dashboard_of (400 * thirty_days) (sp_world (played steady active_play))) = 1"
    by (simp add: dashboard_of_def Let_def listed_rows_def count_row_def past_expiry_def thirty_days_def nanos_def)
qed

end
