(* ===== verification/Files_View.thy ===== *)
theory Files_View
  imports Ui
begin

text \<open>
  \<open>CertificateFiles\<close> of \<open>web/src/CertificatePages.tsx\<close>: the file viewer, the two password dialogs
  and the archive download, with the effect that clears a shown private key after two minutes. The
  effect runs again exactly when the content or the selected file changes; \<open>fs_timer\<close> is the time
  in milliseconds the running timeout has left. Any number of file loads can be under way.
\<close>

section \<open>State\<close>

record filesView =
  fs_id :: string
  fs_files :: "certificateFile list query"
  fs_selected :: "certificateFile option"
  fs_content :: string
  fs_passwordOpen :: bool
  fs_password :: string
  fs_archivePasswordOpen :: bool
  fs_error :: shown
  fs_loading :: "certificateFile list"
  fs_reveal :: mutation
  fs_archive :: mutation
  fs_timer :: "nat option"

definition files_init :: "string \<Rightarrow> filesView" where
  "files_init i = \<lparr>fs_id = i, fs_files = QPending, fs_selected = None, fs_content = [],
     fs_passwordOpen = False, fs_password = [], fs_archivePasswordOpen = False, fs_error = NoError,
     fs_loading = [], fs_reveal = MIdle, fs_archive = MIdle, fs_timer = None\<rparr>"

definition file_list :: "filesView \<Rightarrow> certificateFile list" where
  "file_list s = (case fs_files s of QData files \<Rightarrow> files | _ \<Rightarrow> [])"

definition hasPublicBundle :: "filesView \<Rightarrow> bool" where
  "hasPublicBundle s =
     list_all (\<lambda>type. list_ex (\<lambda>file. cf_type file = type) (file_list s)) [FCert, FChain, FFullchain]"

definition hasPrivateKey :: "filesView \<Rightarrow> bool" where
  "hasPrivateKey s = list_ex cf_private (file_list s)"

definition private_shown :: "filesView \<Rightarrow> bool" where
  "private_shown s =
     (case fs_selected s of None \<Rightarrow> False | Some file \<Rightarrow> cf_private file \<and> fs_content s \<noteq> [])"

definition viewer_open :: "filesView \<Rightarrow> bool" where
  "viewer_open s \<longleftrightarrow> fs_selected s \<noteq> None \<and> fs_content s \<noteq> []"

definition clear_after :: nat where
  "clear_after = 120000"

text \<open>After a state change the effect is run again when its dependencies changed.\<close>

definition effects_after :: "filesView \<Rightarrow> filesView \<Rightarrow> filesView" where
  "effects_after old new =
     (if fs_content new = fs_content old \<and> fs_selected new = fs_selected old then new
      else new\<lparr>fs_timer := (if private_shown new then Some clear_after else None)\<rparr>)"

definition download_disabled :: "filesView \<Rightarrow> certificateFile \<Rightarrow> bool" where
  "download_disabled s file \<longleftrightarrow>
     cf_private file \<and> map_option cf_type (fs_selected s) \<noteq> Some FPrivateKey"

datatype clipboard = Clipboard bool | NoClipboard

fun copyText :: "clipboard \<Rightarrow> string \<Rightarrow> effect list \<times> bool" where
  "copyText (Clipboard written) v = ([ClipboardWrite v], written)"
| "copyText NoClipboard v = ([ExecCopy v], True)"

section \<open>Events\<close>

datatype files_event =
    FilesLoaded "certificateFile list query" | ClickView certificateFile
  | LoadSettled certificateFile "js_error + string" | TypePassword string | ClosePassword
  | ConfirmReveal | RevealSettled "js_error + string" | ClickArchive | OpenArchive
  | CloseArchive | ConfirmArchive | ArchiveSettled "js_error option" | CloseViewer
  | ClickCopy clipboard | TimePasses nat

definition closeViewer :: "filesView \<Rightarrow> filesView" where
  "closeViewer s = s\<lparr>fs_content := [], fs_selected := None\<rparr>"

definition pass_time :: "nat \<Rightarrow> filesView \<Rightarrow> filesView" where
  "pass_time ms s =
     (case fs_timer s of
        None \<Rightarrow> s
      | Some n \<Rightarrow> if ms < n then s\<lparr>fs_timer := Some (n - ms)\<rparr> else (closeViewer s)\<lparr>fs_timer := None\<rparr>)"

fun handle :: "files_event \<Rightarrow> filesView \<Rightarrow> filesView \<times> effect list" where
  "handle (FilesLoaded q) s = (s\<lparr>fs_files := q\<rparr>, [])"
| "handle (ClickView file) s =
     (if file \<notin> set (file_list s) then (s, [])
      else if cf_private file then (s\<lparr>fs_passwordOpen := True\<rparr>, [])
      else (s\<lparr>fs_loading := file # fs_loading s\<rparr>, [CallApi (GetCertificateFile (fs_id s) (cf_type file))]))"
| "handle (LoadSettled file r) s =
     (if file \<notin> set (fs_loading s) then (s, [])
      else (let s1 = s\<lparr>fs_loading := remove1 file (fs_loading s)\<rparr> in
        case r of
          Inr text \<Rightarrow> (s1\<lparr>fs_selected := Some file, fs_content := text, fs_error := NoError\<rparr>, [])
        | Inl e \<Rightarrow> (s1\<lparr>fs_error := apiErrorMessage e\<rparr>, [])))"
| "handle (TypePassword t) s =
     (if fs_passwordOpen s \<or> fs_archivePasswordOpen s then s\<lparr>fs_password := t\<rparr> else s, [])"
| "handle ClosePassword s = (s\<lparr>fs_password := [], fs_passwordOpen := False\<rparr>, [])"
| "handle ConfirmReveal s =
     (if fs_passwordOpen s \<and> fs_password s \<noteq> [] \<and> \<not> pending (fs_reveal s)
      then (s\<lparr>fs_reveal := MPending\<rparr>, [CallApi (RevealPrivateKey (fs_id s) (fs_password s))])
      else (s, []))"
| "handle (RevealSettled r) s =
     (if \<not> pending (fs_reveal s) then (s, [])
      else case r of
        Inr text \<Rightarrow> (s\<lparr>fs_reveal := MSuccess, fs_selected := List.find cf_private (file_list s),
          fs_content := text, fs_password := [], fs_passwordOpen := False, fs_error := NoError\<rparr>, [])
      | Inl e \<Rightarrow> (s\<lparr>fs_reveal := MFailed e, fs_error := apiErrorMessage e\<rparr>, []))"
| "handle ClickArchive s =
     (if file_list s \<noteq> [] \<and> hasPublicBundle s \<and> \<not> pending (fs_archive s)
      then (s\<lparr>fs_archive := MPending\<rparr>, [CallApi (DownloadCertificateArchive (fs_id s) False [])])
      else (s, []))"
| "handle OpenArchive s =
     (if file_list s \<noteq> [] \<and> hasPublicBundle s \<and> hasPrivateKey s
      then s\<lparr>fs_archivePasswordOpen := True\<rparr> else s, [])"
| "handle CloseArchive s = (s\<lparr>fs_password := [], fs_archivePasswordOpen := False\<rparr>, [])"
| "handle ConfirmArchive s =
     (if fs_archivePasswordOpen s \<and> fs_password s \<noteq> [] \<and> \<not> pending (fs_archive s)
      then (s\<lparr>fs_archive := MPending\<rparr>,
            [CallApi (DownloadCertificateArchive (fs_id s) True (fs_password s))])
      else (s, []))"
| "handle (ArchiveSettled r) s =
     (if \<not> pending (fs_archive s) then (s, [])
      else case r of
        None \<Rightarrow> (s\<lparr>fs_archive := MSuccess, fs_password := [], fs_archivePasswordOpen := False,
          fs_error := NoError\<rparr>, [])
      | Some e \<Rightarrow> (s\<lparr>fs_archive := MFailed e, fs_error := apiErrorMessage e\<rparr>, []))"
| "handle CloseViewer s = (closeViewer s, [])"
| "handle (ClickCopy clip) s =
     (if \<not> viewer_open s then (s, [])
      else (let (fs, copied) = copyText clip (fs_content s) in
        (s, fs @ (if copied \<and> private_shown s then [CallApi (AuditPrivateKeyCopy (fs_id s))] else []))))"
| "handle (TimePasses ms) s = (pass_time ms s, [])"

definition files_step :: "files_event \<Rightarrow> filesView \<Rightarrow> filesView \<times> effect list" where
  "files_step e s = (effects_after s (fst (handle e s)), snd (handle e s))"

section \<open>Invariant and effects\<close>

definition files_inv :: "string \<Rightarrow> filesView \<Rightarrow> bool" where
  "files_inv i s \<longleftrightarrow> fs_id s = i
     \<and> (if private_shown s then \<exists>n. fs_timer s = Some n \<and> 0 < n \<and> n \<le> clear_after
        else fs_timer s = None)
     \<and> (\<not> fs_passwordOpen s \<and> \<not> fs_archivePasswordOpen s \<longrightarrow> fs_password s = [])
     \<and> (\<forall>file \<in> set (fs_loading s). \<not> cf_private file)"

fun files_effect_ok :: "string \<Rightarrow> effect \<Rightarrow> bool" where
  "files_effect_ok i (CallApi (GetCertificateFile j _)) = (j = i)"
| "files_effect_ok i (CallApi (RevealPrivateKey j password)) = (j = i \<and> password \<noteq> [])"
| "files_effect_ok i (CallApi (DownloadCertificateArchive j withKey password)) =
     (j = i \<and> (withKey \<longleftrightarrow> password \<noteq> []))"
| "files_effect_ok i (CallApi (AuditPrivateKeyCopy j)) = (j = i)"
| "files_effect_ok i (CallApi _) = False"
| "files_effect_ok i (ClipboardWrite _) = True"
| "files_effect_ok i (ExecCopy _) = True"
| "files_effect_ok i _ = False"

definition keeps_rest :: "filesView \<Rightarrow> filesView \<Rightarrow> bool" where
  "keeps_rest s t \<longleftrightarrow> fs_id t = fs_id s
     \<and> (\<not> fs_passwordOpen t \<and> \<not> fs_archivePasswordOpen t \<longrightarrow> fs_password t = [])
     \<and> (\<forall>file \<in> set (fs_loading t). \<not> cf_private file)"

lemma handle_keeps_rest: "files_inv i s \<Longrightarrow> keeps_rest s (fst (handle e s))"
  by (cases e)
    (auto simp: files_inv_def keeps_rest_def closeViewer_def pass_time_def Let_def
      dest: notin_set_remove1 split: sum.splits option.splits prod.splits if_splits)

definition timer_ok :: "filesView \<Rightarrow> bool" where
  "timer_ok s \<longleftrightarrow>
     (if private_shown s then \<exists>n. fs_timer s = Some n \<and> 0 < n \<and> n \<le> clear_after else fs_timer s = None)"

lemma effects_after_timer:
  assumes "fs_content t = fs_content s \<Longrightarrow> fs_selected t = fs_selected s \<Longrightarrow> timer_ok t"
  shows "timer_ok (effects_after s t)"
  using assms by (auto simp: effects_after_def timer_ok_def private_shown_def clear_after_def
      split: option.splits)

lemma handle_timer:
  assumes "timer_ok s" "fs_content (fst (handle e s)) = fs_content s"
    "fs_selected (fst (handle e s)) = fs_selected s"
  shows "timer_ok (fst (handle e s))"
proof (cases "\<exists>ms. e = TimePasses ms")
  case True
  then show ?thesis
    using assms by (auto simp: timer_ok_def pass_time_def closeViewer_def private_shown_def
        split: option.splits if_splits)
next
  case False
  then have "fs_timer (fst (handle e s)) = fs_timer s"
    by (cases e) (auto simp: closeViewer_def Let_def split: sum.splits option.splits prod.splits)
  with assms show ?thesis by (auto simp: timer_ok_def private_shown_def split: option.splits if_splits)
qed

interpretation files_view: page_effects files_step "\<lambda>s. s = files_init i" "files_inv i"
  "files_effect_ok i" for i
proof
  show "s = files_init i \<Longrightarrow> files_inv i s" for s
    by (simp add: files_inv_def files_init_def private_shown_def)
next
  fix s e assume inv: "files_inv i s"
  then have t: "timer_ok (effects_after s (fst (handle e s)))"
    by (intro effects_after_timer handle_timer) (auto simp: files_inv_def timer_ok_def)
  have "keeps_rest s (fst (handle e s))" using inv by (rule handle_keeps_rest)
  then have "keeps_rest s (effects_after s (fst (handle e s)))"
    by (auto simp: keeps_rest_def effects_after_def)
  with t inv show "files_inv i (fst (files_step e s))"
    by (simp add: files_step_def files_inv_def keeps_rest_def timer_ok_def)
next
  fix s f e assume "files_inv i s" "f \<in> set (snd (files_step e s))"
  then show "files_effect_ok i f"
    unfolding files_step_def
    by (cases e)
      (auto simp: files_inv_def Let_def split: sum.splits option.splits prod.splits if_splits
        elim!: copyText.elims)
qed

section \<open>Clearing\<close>

definition cleared :: "filesView \<Rightarrow> bool" where
  "cleared s \<longleftrightarrow> fs_content s = [] \<and> fs_selected s = None \<and> fs_timer s = None"

lemma cleared_stays: "cleared s \<Longrightarrow> cleared (fst (run_events files_step (map TimePasses ds) s))"
  by (induction ds arbitrary: s) (auto simp: files_step_def cleared_def pass_time_def effects_after_def)

lemma time_step:
  assumes "fs_timer s = Some n" and "private_shown s"
  shows "fst (files_step (TimePasses d) s) =
    (if d < n then s\<lparr>fs_timer := Some (n - d)\<rparr> else (closeViewer s)\<lparr>fs_timer := None\<rparr>)"
  using assms
  by (auto simp: files_step_def pass_time_def effects_after_def closeViewer_def private_shown_def
      split: option.splits)

lemma time_clears:
  "fs_timer s = Some n \<Longrightarrow> private_shown s \<Longrightarrow> n \<le> sum_list ds \<Longrightarrow> 0 < n \<Longrightarrow>
     cleared (fst (run_events files_step (map TimePasses ds) s))"
proof (induction ds arbitrary: s n)
  case (Cons d ds)
  show ?case
  proof (cases "d < n")
    case True
    let ?s = "s\<lparr>fs_timer := Some (n - d)\<rparr>"
    have "private_shown ?s" using Cons.prems(2) by (simp add: private_shown_def split: option.splits)
    then have "cleared (fst (run_events files_step (map TimePasses ds) ?s))"
      using Cons.IH [of ?s "n - d"] Cons.prems(3) True by simp
    with True time_step [OF Cons.prems(1,2), of d] show ?thesis by simp
  next
    case False
    have "cleared ((closeViewer s)\<lparr>fs_timer := None\<rparr>)" by (simp add: cleared_def closeViewer_def)
    from cleared_stays [OF this, of ds] False time_step [OF Cons.prems(1,2), of d] show ?thesis by simp
  qed
qed simp

section \<open>Properties\<close>


definition key_file :: certificateFile where
  "key_file = \<lparr>cf_type = FPrivateKey, cf_filename = ''privkey.pem'', cf_private = True,
     cf_container_path = ''/certs/site/privkey.pem''\<rparr>"

definition reveal_events :: "files_event list" where
  "reveal_events = [FilesLoaded (QData [key_file]), ClickView key_file, TypePassword ''pw'', ConfirmReveal,
     RevealSettled (Inr ''KEY''), TimePasses 60000]"

lemmas demo_simps =
  reveal_events_def files_init_def key_file_def files_step_def effects_after_def private_shown_def
  file_list_def pass_time_def clear_after_def hasPrivateKey_def


text \<open>
  Every request the file view starts is for its own certificate, a private key or an archive with
  it is requested only with a password, an archive without it never carries one, and a password
  remains in the state only while one of the two dialogs is open.
\<close>

theorem file_view_requests:
  assumes "run_events files_step es (files_init i) = (s, fs)"
  shows "(\<forall>f \<in> set fs. files_effect_ok i f)
    \<and> (fs_password s \<noteq> [] \<longrightarrow> fs_passwordOpen s \<or> fs_archivePasswordOpen s)
    \<and> (\<forall>file \<in> set (fs_loading s). \<not> cf_private file)"
proof -
  have "files_inv i s" using files_view.run_inv [OF refl, of i es] assms by simp
  moreover have "\<forall>f \<in> set fs. files_effect_ok i f"
    using files_view.run_ok [OF refl, of _ es i] assms by auto
  ultimately show ?thesis by (auto simp: files_inv_def)
qed

theorem file_view_requests_witness:
  "files_effect_ok ''c1'' (CallApi (RevealPrivateKey ''c1'' ''pw''))"
proof -
  obtain s fs where r: "run_events files_step reveal_events (files_init ''c1'') = (s, fs)" by fastforce
  have "CallApi (RevealPrivateKey ''c1'' ''pw'') \<in> set (snd (run_events files_step reveal_events (files_init ''c1'')))"
    by (simp add: demo_simps)
  with file_view_requests [OF r] r show ?thesis by auto
qed

text \<open>
  A successful reveal opens the viewer on the private key, starts the two minute timeout, and
  leaves neither the password nor the dialog nor an old error behind, whatever happened before,
  provided the key was not on screen already and the file list has a private file.
\<close>

theorem reveal_shows_key:
  assumes "s = fst (run_events files_step es (files_init i))" and "pending (fs_reveal s)"
    and "hasPrivateKey s" and "key \<noteq> []" and "fs_content s \<noteq> key"
  shows "let t = fst (files_step (RevealSettled (Inr key)) s)
    in private_shown t \<and> fs_content t = key \<and> fs_timer t = Some 120000
       \<and> fs_password t = [] \<and> \<not> fs_passwordOpen t \<and> fs_error t = NoError"
proof -
  obtain kf where "List.find cf_private (file_list s) = Some kf" "cf_private kf"
    using assms(3) unfolding hasPrivateKey_def list_ex_iff
    by (metis find_None_iff' find_SomeD not_None_eq)
  with assms show ?thesis
    by (simp add: files_step_def effects_after_def private_shown_def clear_after_def)
qed

theorem reveal_shows_key_witness:
  "fs_timer (fst (files_step (RevealSettled (Inr ''KEY''))
     (fst (run_events files_step (take 4 reveal_events) (files_init ''c1''))))) = Some 120000"
proof -
  let ?s = "fst (run_events files_step (take 4 reveal_events) (files_init ''c1''))"
  have "pending (fs_reveal ?s)" "hasPrivateKey ?s" "fs_content ?s \<noteq> ''KEY''"
    by (simp_all add: demo_simps)
  with reveal_shows_key [OF refl this(1,2), of "''KEY''"] show ?thesis by (simp add: Let_def)
qed

end
