(* ===== verification/App_Shell.thy ===== *)
theory App_Shell
  imports Certificate_List
begin

text \<open>
  \<open>web/src/App.tsx\<close> and \<open>web/src/LoginPage.tsx\<close>: which page a location shows in which session
  state, the redirects between the login page and the authenticated area, the highlighted
  navigation entry, signing in and signing out. A location's path is matched as the bundled router
  does it: trailing slashes are ignored, the segments are percent-decoded, fixed segments compare
  without case, a parameter is one non-empty segment.
\<close>

section \<open>Routes\<close>

datatype app_page =
    DashboardPage | CertificateListPage | CreateCertificatePage | CertificateDetailPage string
  | DNSCredentialsPage | RenewalSettingsPage | JobsPage | AuditPage | SystemInfoPage | UnknownPage

definition path_segments :: "string \<Rightarrow> string list" where
  "path_segments pathname =
     map decodeURIComponent
       (split_on (\<lambda>c. c = CHR ''/'')
         (rev (dropWhile (\<lambda>c. c = CHR ''/'') (rev (drop 1 pathname)))))"

definition area_page :: "string list \<Rightarrow> app_page" where
  "area_page segs =
     (case segs of
        [s] \<Rightarrow>
          (let p = toLowerCase s in
           if p = [] then DashboardPage
           else if p = ''certificates'' then CertificateListPage
           else if p = ''dns-credentials'' then DNSCredentialsPage
           else if p = ''renewal-settings'' then RenewalSettingsPage
           else if p = ''jobs'' then JobsPage
           else if p = ''audit-events'' then AuditPage
           else if p = ''system-info'' then SystemInfoPage
           else UnknownPage)
      | [s, i] \<Rightarrow>
          if toLowerCase s = ''certificates'' \<and> i \<noteq> [] then
            (if toLowerCase i = ''new'' then CreateCertificatePage else CertificateDetailPage i)
          else UnknownPage
      | _ \<Rightarrow> UnknownPage)"

definition is_login_path :: "string \<Rightarrow> bool" where
  "is_login_path pathname \<longleftrightarrow> map toLowerCase (path_segments pathname) = [''login'']"

section \<open>Views and redirects\<close>

type_synonym session = "currentUser option query"

datatype view =
    FullPageProgress | LoginView | AreaView app_page | RedirectTo string

definition signed_in :: "session \<Rightarrow> bool" where
  "signed_in q = (case q of QData (Some _) \<Rightarrow> True | _ \<Rightarrow> False)"

definition loginRoute :: "session \<Rightarrow> view" where
  "loginRoute q =
     (if q = QPending then FullPageProgress
      else if signed_in q then RedirectTo ''/'' else LoginView)"

definition authenticatedArea :: "session \<Rightarrow> string \<Rightarrow> view" where
  "authenticatedArea q pathname =
     (if q = QPending then FullPageProgress
      else if \<not> signed_in q then RedirectTo ''/login''
      else case area_page (path_segments pathname) of
          UnknownPage \<Rightarrow> RedirectTo ''/''
        | p \<Rightarrow> AreaView p)"

definition app_view :: "session \<Rightarrow> string \<Rightarrow> view" where
  "app_view q pathname =
     (if is_login_path pathname then loginRoute q else authenticatedArea q pathname)"

fun settle_view :: "nat \<Rightarrow> session \<Rightarrow> string \<Rightarrow> string \<times> view" where
  "settle_view 0 q pathname = (pathname, app_view q pathname)"
| "settle_view (Suc n) q pathname =
     (case app_view q pathname of
        RedirectTo p \<Rightarrow> settle_view n q p
      | v \<Rightarrow> (pathname, v))"

section \<open>Navigation\<close>

definition navItems :: "string list" where
  "navItems = [''/'', ''/certificates'', ''/dns-credentials'', ''/renewal-settings'', ''/jobs'',
     ''/audit-events'', ''/system-info'']"

definition nav_selected :: "string \<Rightarrow> string \<Rightarrow> bool" where
  "nav_selected pathname path \<longleftrightarrow>
     pathname = path \<or> (path \<noteq> ''/'' \<and> startsWith pathname path)"

section \<open>Signing in and out\<close>

record loginForm =
  lf_username :: string
  lf_password :: string
  lf_mutation :: mutation

definition login_init :: loginForm where
  "login_init = \<lparr>lf_username = ''admin'', lf_password = [], lf_mutation = MIdle\<rparr>"

definition loginSchema :: "loginForm \<Rightarrow> bool" where
  "loginSchema s \<longleftrightarrow> length (trim (lf_username s)) \<ge> 1 \<and> length (lf_password s) \<ge> 1"

datatype login_event =
    TypeUsername string | TypePassword string | Submit | LoginSettled "js_error + string"

fun login_step :: "login_event \<Rightarrow> loginForm \<Rightarrow> loginForm \<times> effect list" where
  "login_step (TypeUsername t) s = (s\<lparr>lf_username := t\<rparr>, [])"
| "login_step (TypePassword t) s = (s\<lparr>lf_password := t\<rparr>, [])"
| "login_step Submit s =
     (if pending (lf_mutation s) \<or> \<not> loginSchema s then (s, [])
      else (s\<lparr>lf_mutation := MPending\<rparr>, [CallApi (Login (trim (lf_username s)) (lf_password s))]))"
| "login_step (LoginSettled r) s =
     (if \<not> pending (lf_mutation s) then (s, [])
      else case r of
        Inr username \<Rightarrow> (s\<lparr>lf_username := username, lf_password := [], lf_mutation := MSuccess\<rparr>,
          [SetQueryData [''current-user''], Navigate ''/'' True])
      | Inl e \<Rightarrow> (s\<lparr>lf_mutation := MFailed e\<rparr>, []))"

definition login_message :: "loginForm \<Rightarrow> shown" where
  "login_message s = (case lf_mutation s of MFailed e \<Rightarrow> apiErrorMessage e | _ \<Rightarrow> NoError)"

datatype signout_event = ClickSignOut | SignOutSettled "js_error option"

fun signout_step :: "signout_event \<Rightarrow> mutation \<Rightarrow> mutation \<times> effect list" where
  "signout_step ClickSignOut m = (if pending m then (m, []) else (MPending, [CallApi Logout]))"
| "signout_step (SignOutSettled r) m =
     (if \<not> pending m then (m, [])
      else case r of
        None \<Rightarrow> (MSuccess, [SetQueryData [''current-user''], Navigate ''/login'' True])
      | Some e \<Rightarrow> (MFailed e, []))"

section \<open>Facts about paths\<close>

lemma app_view_root:
  "app_view q ''/'' =
     (if q = QPending then FullPageProgress
      else if signed_in q then AreaView DashboardPage else RedirectTo ''/login'')"
proof -
  have "path_segments ''/'' = [[]]" by code_simp
  then show ?thesis
    by (simp add: app_view_def is_login_path_def authenticatedArea_def area_page_def toLowerCase_def)
qed

lemma app_view_login:
  "app_view q ''/login'' =
     (if q = QPending then FullPageProgress else if signed_in q then RedirectTo ''/'' else LoginView)"
proof -
  have "is_login_path ''/login''" by code_simp
  then show ?thesis by (simp add: app_view_def loginRoute_def)
qed

lemma app_view_redirect:
  "app_view q pathname = RedirectTo p \<Longrightarrow>
     q \<noteq> QPending \<and> p = (if signed_in q then ''/'' else ''/login'')"
  by (auto simp: app_view_def loginRoute_def authenticatedArea_def split: if_splits app_page.splits)

lemma segments_of_link:
  assumes "i \<noteq> []" and "CHR ''/'' \<notin> set i"
  shows "path_segments (''/certificates/'' @ i) = [''certificates'', decodeURIComponent i]"
proof -
  have "last i \<noteq> CHR ''/''" using assms last_in_set [of i] by metis
  then have "dropWhile (\<lambda>c. c = CHR ''/'') (rev (''certificates/'' @ i)) = rev (''certificates/'' @ i)"
    using assms(1) by (intro dropWhile_id) (auto simp: hd_rev)
  then have "rev (dropWhile (\<lambda>c. c = CHR ''/'') (rev (drop 1 (''/certificates/'' @ i)))) = ''certificates/'' @ i"
    by simp
  moreover have "split_on (\<lambda>c. c = CHR ''/'') (''certificates/'' @ i) = [''certificates'', i]"
    using split_on_append_sep [of "''certificates''" "\<lambda>c. c = CHR ''/''" "CHR ''/''" i]
      split_on_no_sep [of i "\<lambda>c. c = CHR ''/''"] assms(2) by auto
  moreover have "decodeURIComponent ''certificates'' = ''certificates''" by code_simp
  ultimately show ?thesis unfolding path_segments_def by (simp only: list.map)
qed

lemma detail_page_of_segments:
  "i \<noteq> [] \<Longrightarrow> toLowerCase i \<noteq> ''new'' \<Longrightarrow> area_page [''certificates'', i] = CertificateDetailPage i"
proof -
  have "toLowerCase ''certificates'' = ''certificates''" by code_simp
  then show "i \<noteq> [] \<Longrightarrow> toLowerCase i \<noteq> ''new'' \<Longrightarrow> ?thesis" by (simp add: area_page_def)
qed

lemma nav_paths_apart:
  assumes "a \<in> set navItems" "b \<in> set navItems" "a \<noteq> ''/''" "b \<noteq> ''/''" "prefix a p" "prefix b p"
  shows "a = b"
proof -
  have "\<forall>x \<in> set navItems. \<forall>y \<in> set navItems. x = ''/'' \<or> x = y \<or> \<not> prefix x y"
    by code_simp
  moreover have "prefix a b \<or> prefix b a" using assms(5,6) prefix_same_cases by blast
  ultimately show ?thesis using assms(1-4) by (elim disjE) (metis (no_types), metis (no_types))
qed

section \<open>Properties\<close>

text \<open>
  C29. Redirects never loop: in every session state and at every location at most one redirect is
  followed, and then a page is shown (or the progress indicator while the session is unknown): the
  login page exactly when nobody is signed in, a page of the authenticated area exactly when
  somebody is.
\<close>

theorem redirects_settle:
  "\<exists>p v. settle_view 1 q pathname = (p, v) \<and> settle_view (Suc n) q pathname = (p, v)
     \<and> (case v of
          RedirectTo _ \<Rightarrow> False
        | FullPageProgress \<Rightarrow> q = QPending
        | LoginView \<Rightarrow> q \<noteq> QPending \<and> \<not> signed_in q
        | AreaView pg \<Rightarrow> signed_in q \<and> pg \<noteq> UnknownPage)"
proof (cases "app_view q pathname")
  case (RedirectTo p)
  then have "q \<noteq> QPending" "p = (if signed_in q then ''/'' else ''/login'')"
    using app_view_redirect by auto
  then show ?thesis
    using RedirectTo by (cases n) (auto simp: app_view_root app_view_login)
qed (auto simp: app_view_def loginRoute_def authenticatedArea_def signed_in_def
    split: if_splits app_page.splits)

text \<open>
  At most one navigation entry is highlighted at any location.
\<close>

theorem one_navigation_entry:
  assumes "a \<in> set navItems" and "b \<in> set navItems"
    and "nav_selected pathname a" and "nav_selected pathname b"
  shows "a = b"
proof (cases "a = ''/'' \<or> b = ''/''")
  case True
  have "\<forall>c \<in> set navItems. c = ''/'' \<or> \<not> prefix c ''/''" by code_simp
  with True assms show ?thesis by (auto simp: nav_selected_def startsWith_def)
next
  case False
  with assms show ?thesis
    using nav_paths_apart [of a b pathname] by (auto simp: nav_selected_def startsWith_def)
qed

theorem one_navigation_entry_witness:
  "nav_selected ''/certificates/c1'' ''/certificates'' \<and> \<not> nav_selected ''/certificates/c1'' ''/''"
proof -
  have s: "nav_selected ''/certificates/c1'' ''/certificates''" by code_simp
  with one_navigation_entry [of "''/certificates''" "''/''" "''/certificates/c1''"] show ?thesis
    by (auto simp: navItems_def)
qed

text \<open>
  A link to a certificate opens its detail page when the identifier has no slash or percent sign
  and is not the word new. The links put the identifier in without encoding it; with encoding, any
  identifier but the empty one and new would do, and without it an identifier with a slash does
  not open at all.
\<close>

theorem certificate_links:
  "(i \<noteq> [] \<and> toLowerCase i \<noteq> ''new'' \<and> CHR ''/'' \<notin> set i \<and> decodeURIComponent i = i \<longrightarrow>
      area_page (path_segments (certificate_link i)) = CertificateDetailPage i)
   \<and> (i \<noteq> [] \<and> toLowerCase i \<noteq> ''new'' \<longrightarrow>
      area_page (path_segments (certificate_link (encodeURIComponent i))) = CertificateDetailPage i)
   \<and> area_page (path_segments (certificate_link ''a/b'')) = UnknownPage"
proof (intro conjI impI)
  assume "i \<noteq> [] \<and> toLowerCase i \<noteq> ''new'' \<and> CHR ''/'' \<notin> set i \<and> decodeURIComponent i = i"
  then show "area_page (path_segments (certificate_link i)) = CertificateDetailPage i"
    by (simp add: certificate_link_def segments_of_link detail_page_of_segments
        del: append.simps)
next
  assume "i \<noteq> [] \<and> toLowerCase i \<noteq> ''new''"
  then show "area_page (path_segments (certificate_link (encodeURIComponent i))) = CertificateDetailPage i"
    using encode_no_delimiter [of i]
    by (simp add: certificate_link_def segments_of_link detail_page_of_segments
        del: append.simps)
next
  show "area_page (path_segments (certificate_link ''a/b'')) = UnknownPage" by code_simp
qed

theorem certificate_links_witness:
  "area_page (path_segments (certificate_link ''3f2a-c1'')) = CertificateDetailPage ''3f2a-c1''"
proof -
  have "toLowerCase ''3f2a-c1'' \<noteq> ''new''" "decodeURIComponent ''3f2a-c1'' = ''3f2a-c1''" by code_simp+
  with certificate_links [of "''3f2a-c1''"] show ?thesis by simp
qed

text \<open>
  The login form sends a login only with a user name that is not blank, trimmed, and a password,
  one at a time; a successful login forgets the password and goes to the start page, a failed one
  keeps the form and shows the server's message, if there is one.
\<close>

theorem login_form_behaviour:
  assumes "run_events login_step es login_init = (s, fs)"
  shows "(\<forall>u p. CallApi (Login u p) \<in> set fs \<longrightarrow> u \<noteq> [] \<and> trim u = u \<and> p \<noteq> [])
    \<and> (pending (lf_mutation s) \<longrightarrow> login_step Submit s = (s, [])
        \<and> lf_password (fst (login_step (LoginSettled (Inr u)) s)) = []
        \<and> login_message (fst (login_step (LoginSettled (Inl (ApiError st c msg))) s)) = Shown msg)"
proof
  have "u \<noteq> [] \<and> trim u = u \<and> p \<noteq> []"
    if "CallApi (Login u p) \<in> set (snd (run_events login_step es s0))" for u p s0
    using that
  proof (induction es arbitrary: s0)
    case (Cons e es)
    then show ?case
      by (cases e) (auto simp: loginSchema_def Suc_le_eq split: if_splits sum.splits)
  qed simp
  with assms show "\<forall>u p. CallApi (Login u p) \<in> set fs \<longrightarrow> u \<noteq> [] \<and> trim u = u \<and> p \<noteq> []"
    by (metis snd_conv)
qed (simp add: login_message_def apiErrorMessage_def)

theorem login_form_behaviour_witness:
  "CallApi (Login ''admin'' ''pw'') \<in> set (snd (run_events login_step [TypePassword ''pw'', Submit] login_init))
   \<and> trim ''admin'' = ''admin''"
proof -
  have sent: "CallApi (Login ''admin'' ''pw'')
      \<in> set (snd (run_events login_step [TypePassword ''pw'', Submit] login_init))"
    by code_simp
  obtain s fs where r: "run_events login_step [TypePassword ''pw'', Submit] login_init = (s, fs)" by fastforce
  from login_form_behaviour [OF r] sent r show ?thesis by auto
qed

end
