(* ===== verification/Service_Stuck.thy ===== *)
theory Service_Stuck
  imports Service_Properties
begin

text \<open>
  Certificates left in the middle of an operation. The statuses \<open>issuing\<close> and \<open>renewing\<close> are
  written when an operation starts and replaced when it ends; an operation that does not get so far,
  because the server stopped or because its request was cancelled and the database refused the
  final writes, leaves them behind. The start of the server repairs the jobs (\<open>MarkInterruptedJobs\<close>)
  and not the certificates, and every operation except deletion refuses a certificate in these
  statuses.
\<close>

section \<open>Programs that leave a status alone\<close>

fun changes_status :: "string \<Rightarrow> action \<Rightarrow> bool" where
  "changes_status i (SetStatus j st) \<longleftrightarrow> j = i"
| "changes_status i (MarkFailed j msg) \<longleftrightarrow> j = i"
| "changes_status i (MarkIssued v) \<longleftrightarrow> cr_ID v = i"
| "changes_status i (MarkRenewed v) \<longleftrightarrow> cr_ID v = i"
| "changes_status i (DeleteRow j ev) \<longleftrightarrow> j = i"
| "changes_status i a \<longleftrightarrow> False"

text \<open>The answers possible while the certificate \<open>i\<close> is in status \<open>st\<close>.\<close>

definition stuck_reply :: "string \<Rightarrow> status \<Rightarrow> action \<Rightarrow> reply \<Rightarrow> bool" where
  "stuck_reply i st a r \<longleftrightarrow>
     (case a of
        GetRow j \<Rightarrow> (case re_row r of Inr v \<Rightarrow> cr_ID v = j \<and> (j = i \<longrightarrow> nc_Status v = st) | Inl _ \<Rightarrow> True)
      | CreateRow c \<Rightarrow> (case re_row r of Inr v \<Rightarrow> cr_ID v \<noteq> i | Inl _ \<Rightarrow> True)
      | _ \<Rightarrow> True)"

abbreviation spares :: "string \<Rightarrow> status \<Rightarrow> 'a svc \<Rightarrow> bool" where
  "spares i st \<equiv> follows (\<lambda>a. \<not> changes_status i a) (stuck_reply i st)"

lemma spares_return_row [simp]: "spares i st (return_row j)"
  by (simp add: return_row_def)

lemma spares_with_lock: "spares i st body \<Longrightarrow> spares i st (with_lock j body)"
  by (simp add: with_lock_def unlocking_def follows_bind)

lemma spares_get_row:
  assumes "\<And>v. cr_ID v = j \<Longrightarrow> (j = i \<longrightarrow> nc_Status v = st) \<Longrightarrow> spares i st (f v)"
  shows "spares i st (get_row j f)"
  using assms by (auto simp: get_row_def stuck_reply_def split: sum.splits)

lemma audit_spares [simp]: "\<not> changes_status i (audit_action a b c d e f)"
  by (simp add: audit_action_def)

section \<open>The operations\<close>

lemma spares_failRenewal: "cr_ID v \<noteq> i \<Longrightarrow> spares i st (failRenewal cfg v jid ex out e ev actor ip)"
  by (simp add: failRenewal_def)

lemma spares_publish_result:
  "cr_ID v \<noteq> i \<Longrightarrow> marking mark \<Longrightarrow> spares i st (publish_result cfg mark v jid x ev actor ip)"
  by (auto simp: publish_result_def spares_failRenewal marking_def split: option.splits)

lemma spares_engine_result:
  "cr_ID v \<noteq> i \<Longrightarrow> marking mark \<Longrightarrow> spares i st (engine_result cfg mark v jid call n c f ev actor ip)"
  by (auto simp: engine_result_def spares_failRenewal spares_publish_result
      split: sum.splits option.splits)

lemma spares_acme_values:
  "cr_ID v \<noteq> i \<Longrightarrow> (\<And>pv. spares i st (k pv)) \<Longrightarrow> spares i st (acme_values cfg strict v jid ev actor ip k)"
  by (auto simp: acme_values_def spares_failRenewal split: sum.splits)

lemmas spares_parts = spares_failRenewal spares_engine_result spares_acme_values marking_def

lemma spares_issueExistingCertificate: "cr_ID v \<noteq> i \<Longrightarrow> spares i st (issueExistingCertificate cfg v actor ip)"
  by (auto simp: issueExistingCertificate_def issue_with_engine_def Let_def spares_parts
      split: option.splits)

lemma spares_renewExistingCertificate:
  "cr_ID v = j \<Longrightarrow> j \<noteq> i \<Longrightarrow> spares i st (renewExistingCertificate cfg force v j jt ev actor ip)"
  by (auto simp: renewExistingCertificate_def renew_with_engine_def spares_parts
      split: option.splits)

definition midway :: "status \<Rightarrow> bool" where
  "midway st \<longleftrightarrow> st = StatusIssuing \<or> st = StatusRenewing"

lemma midway_refused: "midway st \<Longrightarrow> \<not> manualIssueAllowed st \<and> \<not> renewAllowed st \<and> \<not> revokeAllowed st"
  by (auto simp: midway_def manualIssueAllowed_def renewAllowed_def revokeAllowed_def)

lemma spares_issueExisting: "midway st \<Longrightarrow> spares i st (issueExisting cfg j force jt ev actor ip)"
  unfolding issueExisting_def
proof (rule spares_get_row, rule spares_with_lock)
  fix v :: cert_row assume st: "midway st" and v: "cr_ID v = j" "j = i \<longrightarrow> nc_Status v = st"
  show "spares i st (if jt = ''issue'' then
          (if \<not> manualIssueAllowed (nc_Status v) then Ret (Inl ErrIssueNotAllowed)
           else issueExistingCertificate cfg v actor ip)
        else renewExistingCertificate cfg force v j jt ev actor ip)"
    using v midway_refused [OF st] spares_issueExistingCertificate spares_renewExistingCertificate
    by (cases "j = i") (auto simp: renewExistingCertificate_def)
qed

lemma spares_Renew: "midway st \<Longrightarrow> spares i st (service_Renew cfg j force actor ip)"
  by (simp add: service_Renew_def spares_issueExisting)

lemma spares_Issue: "midway st \<Longrightarrow> spares i st (service_Issue cfg j actor ip)"
  unfolding service_Issue_def by (rule spares_get_row) (simp add: spares_issueExisting)

lemma spares_Update: "spares i st (service_Update j name auto_renew days marker actor ip)"
  by (auto simp: service_Update_def split: option.splits intro!: spares_get_row follows_checked)

lemma spares_Revoke: "midway st \<Longrightarrow> spares i st (service_Revoke cfg j actor ip)"
  unfolding service_Revoke_def
proof (rule spares_get_row, goal_cases)
  case (1 v)
  show ?case
  proof (cases "j = i")
    case True
    then show ?thesis using 1 midway_refused [of st] by simp
  next
    case False
    then show ?thesis
      by (auto split: option.splits sum.splits intro!: spares_with_lock follows_checked)
  qed
qed

lemma spares_create_and_issue: "spares i st (create_and_issue cfg c jt call n ex f det actor ip)"
  by (auto simp: create_and_issue_def stuck_reply_def spares_failRenewal Let_def
      split: sum.splits option.splits intro!: follows_checked)

lemma spares_scan_attempts: "midway st \<Longrightarrow> spares i st (scan_attempts cfg j interval retries)"
  by (induction retries) (auto simp: scan_attempts.simps intro!: follows_bind spares_Renew)

lemma spares_call: "midway st \<Longrightarrow> spares i st (call_program cfg actor ip c)"
  by (cases c)
    (auto simp: forget_def spares_Renew spares_Issue spares_Update spares_Revoke scan_goroutine_def
      spares_scan_attempts service_CreateSelfSigned_def service_CreateACME_def spares_create_and_issue
      Let_def split: sum.splits intro!: follows_bind)

section \<open>Running them\<close>

definition row_in :: "string \<Rightarrow> status \<Rightarrow> world \<Rightarrow> bool" where
  "row_in i st w \<longleftrightarrow> map_option nc_Status (row_of w i) = Some st"

lemma row_in_upd:
  assumes "\<And>r. cr_ID (f r) = cr_ID r" and "j = i \<Longrightarrow> (\<And>r. nc_Status (f r) = nc_Status r)"
  shows "row_in i st (upd_cert j f w) = row_in i st w"
  using assms by (cases "row_of w i") (auto simp: row_in_def)

lemma perform_row_in:
  assumes "row_in i st w" "\<not> changes_status i a" "perform_action env a w = (r, w')"
  shows "row_in i st w' \<and> stuck_reply i st a r"
proof (cases a)
  case (GetRow j)
  then show ?thesis
    using assms by (auto simp: row_in_def row_of_def stuck_reply_def split: if_splits option.splits sum.splits
        dest: find_row_id)
next
  case (CreateRow c)
  then consider "w' = w" "re_row r = Inl ErrStore"
    | now j where "store_CreateCertificate j now c w = (re_row r, w')"
    using assms(3) by (auto split: if_splits prod.splits)
  then show ?thesis
  proof cases
    case 2
    have new: "cr_ID (new_row j now c) = j" by (simp add: new_row_def)
    from 2 consider "re_row r = Inl ErrStore" "w' = w"
      | "re_row r = Inr (new_row j now c)" "w' = w\<lparr>wd_certs := wd_certs w @ [new_row j now c]\<rparr>" "row_of w j = None"
      by (auto simp: store_CreateCertificate_def row_exists_iff split: if_splits)
    then show ?thesis
      using assms(1) CreateRow new
      by cases (auto simp: row_in_def row_of_def find_row_snoc stuck_reply_def)
  qed (use assms(1) CreateRow in \<open>simp add: stuck_reply_def\<close>)
next
  case (UpdateSettings j n b days k)
  then show ?thesis
    using assms by (auto simp: store_UpdateSettings_def row_in_upd stuck_reply_def split: if_splits prod.splits)
next
  case (DeleteRow j ev)
  have "find_row i (filter (\<lambda>r. cr_ID r \<noteq> j) rows) = find_row i rows" if "j \<noteq> i" for rows
    using that by (induction rows) (auto simp: find_row_def)
  with DeleteRow show ?thesis
    using assms by (auto simp: store_DeleteCertificateWithAudit_def store_CreateAuditEvent_def stuck_reply_def
        row_in_def row_of_def split: if_splits prod.splits option.splits)
qed (use assms in \<open>auto simp: stuck_reply_def row_in_def row_of_def store_CreateJob_def
    store_FinishJob_def store_CreateAuditEvent_def Let_def upd_cert_def find_row_update
    split: if_splits prod.splits option.splits fault.splits\<close>)

interpretation stuck: kept_property "\<lambda>_. True" "row_in i st" "\<lambda>a. \<not> changes_status i a" "stuck_reply i st"
proof
  show "row_in i st w' \<and> stuck_reply i st a r"
    if "row_in i st w" "\<not> changes_status i a" "perform_action env a w = (r, w')" for w a env r w'
    by (rule perform_row_in [OF that])
qed (simp_all add: row_in_def restarted_def row_of_def)

lemma service_ops_spare: "midway st \<Longrightarrow> service_ops cfg m \<Longrightarrow> spares i st m"
  unfolding service_ops_def using spares_call by blast

text \<open>
  C27. A certificate that is in status issuing or renewing when no operation runs, as after a restart
  of the server, keeps that status for ever unless it is deleted: whatever operations are started
  afterwards, however they interleave, whatever they are answered, and however often the server is
  restarted.
\<close>

theorem interrupted_certificate_stays_stuck:
  assumes "svc_reach env (service_ops cfg) p q" and "sp_threads p = []"
    and "find_row i (wd_certs (sp_world p)) = Some r"
    and "nc_Status r = StatusIssuing \<or> nc_Status r = StatusRenewing"
  shows "\<exists>r'. find_row i (wd_certs (sp_world q)) = Some r' \<and> nc_Status r' = nc_Status r"
proof -
  have mid: "midway (nc_Status r)" using assms(4) by (simp add: midway_def)
  have "stuck.holding i (nc_Status r) p" using assms(2,3) by (simp add: stuck.holding_def row_in_def row_of_def)
  from stuck.kept_reach [OF assms(1) TrueI service_ops_spare [OF mid] this]
  have "stuck.holding i (nc_Status r) q" by simp
  then have "row_in i (nc_Status r) (sp_world q)" by (simp add: stuck.holding_def)
  then show ?thesis by (auto simp: row_in_def row_of_def)
qed

text \<open>The server is stopped while a renewal waits for the engine; another renewal is tried afterwards.\<close>

definition sample_renew :: "unit svc" where
  "sample_renew = call_program plain_config ''admin'' ''ip'' (CallRenew ''c'' True)"

definition stopped_play :: "svc_choice list" where
  "stopped_play = active_play @ Spawn sample_renew # replicate 5 (Advance 1) @ [Restart ''stopped'' 7]"

theorem interrupted_certificate_stays_stuck_witness:
  "\<exists>q r'. svc_exec steady (Spawn sample_renew # replicate 4 (Advance 0)) (played steady stopped_play) = Some q
     \<and> find_row ''c'' (wd_certs (sp_world q)) = Some r' \<and> nc_Status r' = StatusRenewing"
proof -
  let ?p = "played steady stopped_play"
  let ?cs = "Spawn sample_renew # replicate 4 (Advance 0)"
  have "svc_exec steady ?cs ?p \<noteq> None" by code_simp
  then obtain q where q: "svc_exec steady ?cs ?p = Some q" by auto
  have "service_ops plain_config sample_renew" unfolding service_ops_def sample_renew_def by blast
  then have "svc_reach steady (service_ops plain_config) ?p q"
    by (intro svc_exec_reach [OF q reach_start]) auto
  moreover have "sp_threads ?p = []" by code_simp
  moreover have "find_row ''c'' (wd_certs (sp_world ?p)) \<noteq> None"
    "nc_Status (the (find_row ''c'' (wd_certs (sp_world ?p)))) = StatusRenewing" by code_simp+
  ultimately show ?thesis using interrupted_certificate_stays_stuck q by fastforce
qed

end
