(* ===== verification/Login_Limiter.thy ===== *)
theory Login_Limiter
  imports Js_Text "HOL-Library.AList"
begin

text \<open>
  The login rate limiter of \<open>internal/auth/limiter.go\<close> and the password check in front of it,
  \<open>Authenticate\<close> of \<open>internal/auth/manager.go\<close>. A point in time is a number of nanoseconds after the
  zero value of \<open>time.Time\<close>, so that the zero value is 0 and every clock reading is later. The map of
  attempt states is an association list with distinct keys. The limiter's mutex makes each of
  \<open>Allow\<close>, \<open>Failure\<close> and \<open>Success\<close> atomic; the comparison with the bcrypt hash is a parameter.
\<close>

section \<open>The limiter\<close>

record attemptState =
  failures :: "int list"
  lockedUntil :: int

record loginLimiter =
  states :: "(string \<times> attemptState) list"
  maxFailures :: nat
  window :: int
  lockout :: int
  maxStates :: nat

definition go_minute :: int where
  "go_minute = 60 * 1000000000"

definition newLoginLimiter :: loginLimiter where
  "newLoginLimiter = \<lparr>states = [], maxFailures = 5, window = 15 * go_minute,
     lockout = 5 * go_minute, maxStates = 4096\<rparr>"

definition recent :: "int list \<Rightarrow> int \<Rightarrow> int list" where
  "recent values cutoff = dropWhile (\<lambda>t. t < cutoff) values"

definition limiter_Allow :: "int \<Rightarrow> string \<Rightarrow> loginLimiter \<Rightarrow> bool \<times> loginLimiter" where
  "limiter_Allow now key l =
     (case map_of (states l) key of
        None \<Rightarrow> (True, l)
      | Some state \<Rightarrow>
          if now < lockedUntil state then (False, l)
          else (let fs = recent (failures state) (now - window l)
                in (True, l\<lparr>states :=
                     if fs = [] then AList.delete key (states l)
                     else AList.update key (state\<lparr>failures := fs\<rparr>) (states l)\<rparr>)))"

definition limiter_prune :: "int \<Rightarrow> loginLimiter \<Rightarrow> loginLimiter" where
  "limiter_prune now l = l\<lparr>states :=
     filter (\<lambda>(key, state). now < lockedUntil state \<or> failures state \<noteq> [])
       (map (\<lambda>(key, state). (key, state\<lparr>failures := recent (failures state) (now - window l)\<rparr>))
         (states l))\<rparr>"

definition record_failure :: "int \<Rightarrow> string \<Rightarrow> attemptState \<Rightarrow> loginLimiter \<Rightarrow> loginLimiter" where
  "record_failure now key state l =
     (let fs = recent (failures state) (now - window l) @ [now]
      in l\<lparr>states := AList.update key
           (if maxFailures l \<le> length fs then \<lparr>failures = [], lockedUntil = now + lockout l\<rparr>
            else state\<lparr>failures := fs\<rparr>) (states l)\<rparr>)"

definition limiter_Failure :: "int \<Rightarrow> string \<Rightarrow> loginLimiter \<Rightarrow> loginLimiter" where
  "limiter_Failure now key l =
     (case map_of (states l) key of
        Some state \<Rightarrow> record_failure now key state l
      | None \<Rightarrow>
          (let l = limiter_prune now l
           in if maxStates l \<le> length (states l) then l
              else record_failure now key \<lparr>failures = [], lockedUntil = 0\<rparr> l))"

definition limiter_Success :: "string \<Rightarrow> loginLimiter \<Rightarrow> loginLimiter" where
  "limiter_Success key l = l\<lparr>states := AList.delete key (states l)\<rparr>"

section \<open>Authentication\<close>

datatype auth_error = ErrRateLimited | ErrInvalidCredentials | ErrUnauthenticated | ErrSession

definition limiter_key :: "string \<Rightarrow> string \<Rightarrow> string" where
  "limiter_key clientKey username = clientKey @ CHR 0x00 # toLowerCase (go_TrimSpace username)"

text \<open>
  One login attempt. \<open>now\<close> is the clock when the limiter is asked, \<open>later\<close> when the result is
  recorded; hashing takes time in between.
\<close>

record attempt =
  la_clientKey :: string
  la_username :: string
  la_password :: string
  la_now :: int
  la_later :: int

definition attempt_key :: "attempt \<Rightarrow> string" where
  "attempt_key a = limiter_key (la_clientKey a) (la_username a)"

definition authenticate ::
  "string \<Rightarrow> (string \<Rightarrow> bool) \<Rightarrow> attempt \<Rightarrow> loginLimiter \<Rightarrow> (auth_error + unit) \<times> loginLimiter" where
  "authenticate adminName passwordMatches a l =
     (let key = attempt_key a; (allowed, l) = limiter_Allow (la_now a) key l
      in if \<not> allowed then (Inl ErrRateLimited, l)
         else if la_username a \<noteq> adminName \<or> \<not> passwordMatches (la_password a)
         then (Inl ErrInvalidCredentials, limiter_Failure (la_later a) key l)
         else (Inr (), limiter_Success key l))"

text \<open>A sequence of attempts, handled one after the other, with the verdict on each.\<close>

fun login_run ::
  "string \<Rightarrow> (string \<Rightarrow> bool) \<Rightarrow> attempt list \<Rightarrow> loginLimiter
     \<Rightarrow> (attempt \<times> (auth_error + unit)) list \<times> loginLimiter" where
  "login_run adminName pm [] l = ([], l)"
| "login_run adminName pm (a # as) l =
     (let (v, l') = authenticate adminName pm a l; (vs, l'') = login_run adminName pm as l'
      in ((a, v) # vs, l''))"

text \<open>The clock does not run backwards: \<open>T\<close> is the last reading before the attempts.\<close>

fun clock_runs :: "int \<Rightarrow> attempt list \<Rightarrow> bool" where
  "clock_runs T [] = True"
| "clock_runs T (a # as) = (T \<le> la_now a \<and> la_now a \<le> la_later a \<and> clock_runs (la_later a) as)"

text \<open>The times at which a wrong password was tried for a key, in order.\<close>

definition wrong_times :: "string \<Rightarrow> (attempt \<times> (auth_error + unit)) list \<Rightarrow> int list" where
  "wrong_times k vs =
     map (\<lambda>(a, v). la_later a) (filter (\<lambda>(a, v). attempt_key a = k \<and> v = Inl ErrInvalidCredentials) vs)"

section \<open>Lookups after each operation\<close>

text \<open>What the limiter remembers about a key.\<close>

definition remembered :: "loginLimiter \<Rightarrow> string \<Rightarrow> int list" where
  "remembered l k = (case map_of (states l) k of None \<Rightarrow> [] | Some s \<Rightarrow> failures s)"

definition locked :: "loginLimiter \<Rightarrow> string \<Rightarrow> int" where
  "locked l k = (case map_of (states l) k of None \<Rightarrow> 0 | Some s \<Rightarrow> lockedUntil s)"

definition limiter_ok :: "loginLimiter \<Rightarrow> bool" where
  "limiter_ok l \<longleftrightarrow> distinct (map fst (states l)) \<and> 0 < maxFailures l \<and> 0 \<le> lockout l
     \<and> lockout l \<le> window l \<and> (\<forall>(k, s) \<in> set (states l). length (failures s) < maxFailures l)"

lemma limiter_ok_new: "limiter_ok newLoginLimiter"
  by (simp add: limiter_ok_def newLoginLimiter_def go_minute_def)

lemma limiter_okD:
  assumes "limiter_ok l"
  shows "distinct (map fst (states l))" "0 < maxFailures l" "0 \<le> lockout l" "lockout l \<le> window l"
    "length (remembered l k) < maxFailures l"
  using assms by (auto simp: limiter_ok_def remembered_def split: option.splits dest: map_of_SomeD)

lemma recent_suffix: "\<exists>old. fs = old @ recent fs c \<and> (\<forall>t \<in> set old. t < c)"
  unfolding recent_def
  by (intro exI [of _ "takeWhile (\<lambda>t. t < c) fs"]) (auto dest: set_takeWhileD)

lemma length_recent: "length (recent fs c) \<le> length fs"
  by (simp add: recent_def length_dropWhile_le)

lemma map_of_filter_map:
  "distinct (map fst xs) \<Longrightarrow>
     map_of (filter (\<lambda>(k, v). P v) (map (\<lambda>(k, v). (k, f v)) xs)) k =
       (case map_of xs k of None \<Rightarrow> None | Some v \<Rightarrow> if P (f v) then Some (f v) else None)"
proof (induction xs)
  case (Cons x xs)
  then have "map_of xs (fst x) = None"
    by (simp add: map_of_eq_None_iff)
  with Cons show ?case by (cases x) (auto split: option.splits)
qed simp

lemma keys_filter_map:
  "map fst (filter (\<lambda>(k, v). P v) (map (\<lambda>(k, v). (k, f v)) xs))
     = map fst (filter (\<lambda>(k, v). P (f v)) xs)"
  by (induction xs) auto

lemma limiter_prune_ok:
  assumes "limiter_ok l"
  shows "limiter_ok (limiter_prune now l)"
proof -
  have "distinct (map fst (states (limiter_prune now l)))"
    using limiter_okD(1) [OF assms]
    by (simp add: limiter_prune_def keys_filter_map distinct_map_filter)
  with assms show ?thesis
    by (fastforce simp: limiter_ok_def limiter_prune_def intro: le_less_trans [OF length_recent])
qed

lemma keys_prune: "fst ` set (states (limiter_prune now l)) \<subseteq> fst ` set (states l)"
  by (force simp: limiter_prune_def)

lemma lookup_prune:
  assumes "limiter_ok l"
  shows "map_of (states (limiter_prune now l)) k =
    (case map_of (states l) k of
       None \<Rightarrow> None
     | Some s \<Rightarrow> (let s' = s\<lparr>failures := recent (failures s) (now - window l)\<rparr>
                 in if now < lockedUntil s' \<or> failures s' \<noteq> [] then Some s' else None))"
  using map_of_filter_map [OF limiter_okD(1) [OF assms],
      of "\<lambda>s. now < lockedUntil s \<or> failures s \<noteq> []" "\<lambda>s. s\<lparr>failures := recent (failures s) (now - window l)\<rparr>"]
  by (simp add: limiter_prune_def Let_def split: option.split)

lemma AList_delete_ok:
  "limiter_ok l \<Longrightarrow> limiter_ok (l\<lparr>states := AList.delete key (states l)\<rparr>)"
  by (auto simp: limiter_ok_def AList.delete_eq distinct_map_filter)

lemma set_AList_update: "set (AList.update k v xs) \<subseteq> insert (k, v) (set xs)"
  by (induction xs) auto

lemma AList_update_ok:
  assumes "limiter_ok l" and "length (failures s) < maxFailures l"
  shows "limiter_ok (l\<lparr>states := AList.update key s (states l)\<rparr>)"
  using assms set_AList_update [of key s "states l"]
  by (fastforce simp: limiter_ok_def intro: distinct_update)

lemma limiter_Allow_ok: "limiter_ok l \<Longrightarrow> limiter_ok (snd (limiter_Allow now key l))"
  using limiter_okD(5) [of l key]
  by (auto simp: limiter_Allow_def Let_def remembered_def AList_delete_ok
      intro!: AList_update_ok le_less_trans [OF length_recent] split: option.splits)

lemma record_failure_ok: "limiter_ok l \<Longrightarrow> limiter_ok (record_failure now key s l)"
  by (auto simp: record_failure_def Let_def limiter_okD(2) intro!: AList_update_ok)

lemma limiter_Failure_ok: "limiter_ok l \<Longrightarrow> limiter_ok (limiter_Failure now key l)"
  by (auto simp: limiter_Failure_def Let_def record_failure_ok limiter_prune_ok split: option.splits)

lemma limiter_config [simp]:
  "maxFailures (limiter_prune now l) = maxFailures l" "window (limiter_prune now l) = window l"
  "lockout (limiter_prune now l) = lockout l" "maxStates (limiter_prune now l) = maxStates l"
  by (simp_all add: limiter_prune_def)

lemma limiter_config_Allow [simp]:
  "maxFailures (snd (limiter_Allow now key l)) = maxFailures l"
  "window (snd (limiter_Allow now key l)) = window l"
  "lockout (snd (limiter_Allow now key l)) = lockout l"
  "maxStates (snd (limiter_Allow now key l)) = maxStates l"
  by (auto simp: limiter_Allow_def Let_def split: option.splits)

lemma limiter_config_Failure [simp]:
  "maxFailures (limiter_Failure now key l) = maxFailures l"
  "window (limiter_Failure now key l) = window l"
  "lockout (limiter_Failure now key l) = lockout l"
  "maxStates (limiter_Failure now key l) = maxStates l"
  by (auto simp: limiter_Failure_def record_failure_def Let_def split: option.splits)

section \<open>The history of a key\<close>

text \<open>
  \<open>fs\<close> are the times of the wrong passwords checked for \<open>k\<close> so far. The limiter remembers the latest
  ones; an earlier one lies at least a lockout back, or the key is locked until then.
\<close>

definition spaced :: "nat \<Rightarrow> int \<Rightarrow> int list \<Rightarrow> bool" where
  "spaced m d fs \<longleftrightarrow> (\<forall>i. i + m < length fs \<longrightarrow> fs ! i + d \<le> fs ! (i + m))"

definition history_inv :: "loginLimiter \<Rightarrow> string \<Rightarrow> int \<Rightarrow> int list \<Rightarrow> bool" where
  "history_inv l k T fs \<longleftrightarrow> limiter_ok l \<and> 0 \<le> T \<and> (\<forall>x \<in> set fs. x \<le> T)
     \<and> spaced (maxFailures l) (lockout l) fs
     \<and> (\<exists>old. fs = old @ remembered l k \<and> (\<forall>x \<in> set old. x + lockout l \<le> max T (locked l k)))"

lemma history_carry:
  assumes inv: "history_inv l k T fs" and "T \<le> now" and ok: "limiter_ok l'"
    and cfg: "maxFailures l' = maxFailures l" "lockout l' = lockout l"
    and drop: "remembered l k = dropped @ remembered l' k" "\<forall>x \<in> set dropped. x < now - window l"
    and lock: "max now (locked l k) = max now (locked l' k)"
  shows "history_inv l' k now fs"
proof -
  obtain old where old: "fs = old @ remembered l k" "\<forall>x \<in> set old. x + lockout l \<le> max T (locked l k)"
    using inv by (auto simp: history_inv_def)
  have "lockout l \<le> window l" using inv by (auto simp: history_inv_def limiter_okD)
  then have "\<forall>x \<in> set dropped. x + lockout l \<le> now" using drop(2) by force
  moreover have "\<forall>x \<in> set old. x + lockout l \<le> max now (locked l' k)"
    using old(2) \<open>T \<le> now\<close> lock by (metis max.mono order.refl order_trans)
  ultimately have "\<forall>x \<in> set (old @ dropped). x + lockout l \<le> max now (locked l' k)" by fastforce
  moreover have "fs = (old @ dropped) @ remembered l' k" using old(1) drop(1) by simp
  ultimately show ?thesis
    using inv ok cfg \<open>T \<le> now\<close> unfolding history_inv_def by (metis order_trans)
qed

lemma history_later: "history_inv l k T fs \<Longrightarrow> T \<le> now \<Longrightarrow> history_inv l k now fs"
  by (rule history_carry [of l k T fs now l "[]"]) (auto simp: history_inv_def)

lemma prune_kept:
  assumes ok: "limiter_ok l" and "0 \<le> now"
  shows "\<exists>dropped. remembered l k = dropped @ remembered (limiter_prune now l) k
      \<and> (\<forall>x \<in> set dropped. x < now - window l)
      \<and> max now (locked l k) = max now (locked (limiter_prune now l) k)"
proof (cases "map_of (states l) k")
  case None
  then show ?thesis by (simp add: remembered_def locked_def lookup_prune [OF ok])
next
  case (Some s)
  obtain dropped where "failures s = dropped @ recent (failures s) (now - window l)"
    "\<forall>x \<in> set dropped. x < now - window l"
    using recent_suffix by blast
  with Some \<open>0 \<le> now\<close> show ?thesis
    by (intro exI [of _ dropped]) (auto simp: remembered_def locked_def lookup_prune [OF ok] Let_def)
qed

lemma Allow_kept:
  assumes "0 \<le> now"
  shows "\<exists>dropped. remembered l k = dropped @ remembered (snd (limiter_Allow now key l)) k
      \<and> (\<forall>x \<in> set dropped. x < now - window l)
      \<and> max now (locked l k) = max now (locked (snd (limiter_Allow now key l)) k)"
proof (cases "k = key \<and> fst (limiter_Allow now key l) \<and> map_of (states l) key \<noteq> None")
  case False
  then have "map_of (states (snd (limiter_Allow now key l))) k = map_of (states l) k"
    by (auto simp: limiter_Allow_def Let_def update_conv' delete_conv' split: option.splits if_splits)
  then show ?thesis by (simp add: remembered_def locked_def)
next
  case True
  then obtain s where s: "map_of (states l) key = Some s" by auto
  obtain dropped where "failures s = dropped @ recent (failures s) (now - window l)"
    "\<forall>x \<in> set dropped. x < now - window l"
    using recent_suffix by blast
  with True s \<open>0 \<le> now\<close> show ?thesis
    by (intro exI [of _ dropped])
      (auto simp: remembered_def locked_def limiter_Allow_def Let_def update_conv' delete_conv'
        split: if_splits)
qed

lemma Allow_history:
  assumes "history_inv l k T fs" and "T \<le> now"
  shows "history_inv (snd (limiter_Allow now key l)) k now fs"
proof -
  have "0 \<le> now" "limiter_ok l" using assms by (auto simp: history_inv_def)
  with Allow_kept [of now l k key] show ?thesis
    using history_carry [OF assms limiter_Allow_ok] by auto
qed

lemma prune_history:
  assumes "history_inv l k T fs" and "T \<le> now"
  shows "history_inv (limiter_prune now l) k now fs"
proof -
  have "0 \<le> now" "limiter_ok l" using assms by (auto simp: history_inv_def)
  with prune_kept [of l now k] show ?thesis
    using history_carry [OF assms limiter_prune_ok] by auto
qed

lemma record_other:
  "k \<noteq> key \<Longrightarrow> map_of (states (record_failure now key s l)) k = map_of (states l) k"
  by (simp add: record_failure_def Let_def update_conv')

lemma Failure_other_history:
  assumes inv: "history_inv l k T fs" and "T \<le> now" and "k \<noteq> key"
  shows "history_inv (limiter_Failure now key l) k now fs"
proof -
  have ok: "limiter_ok (limiter_Failure now key l)"
    using inv by (simp add: history_inv_def limiter_Failure_ok)
  consider (kept) "map_of (states (limiter_Failure now key l)) k = map_of (states l) k"
    | (pruned) "map_of (states (limiter_Failure now key l)) k = map_of (states (limiter_prune now l)) k"
    by (cases "map_of (states l) key")
      (auto simp: limiter_Failure_def Let_def record_other [OF \<open>k \<noteq> key\<close>] split: if_splits)
  then show ?thesis
  proof cases
    case kept
    then show ?thesis
      by (intro history_carry [OF inv \<open>T \<le> now\<close> ok, of "[]"]) (simp_all add: remembered_def locked_def)
  next
    case pruned
    then show ?thesis
      by (intro history_carry [OF prune_history [OF inv \<open>T \<le> now\<close>] order.refl ok, of "[]"])
        (simp_all add: remembered_def locked_def)
  qed
qed

lemma spaced_snoc:
  assumes "spaced m d fs" and "m \<le> length fs \<Longrightarrow> fs ! (length fs - m) + d \<le> t" and "0 < m"
  shows "spaced m d (fs @ [t])"
  unfolding spaced_def
proof (intro allI impI)
  fix i assume i: "i + m < length (fs @ [t])"
  show "(fs @ [t]) ! i + d \<le> (fs @ [t]) ! (i + m)"
  proof (cases "i + m = length fs")
    case True
    then have "i = length fs - m" "m \<le> length fs" "i < length fs" using \<open>0 < m\<close> by simp_all
    with assms(2) True show ?thesis by (simp add: nth_append)
  next
    case False
    with i assms(1) show ?thesis by (simp add: spaced_def nth_append)
  qed
qed

lemma record_history:
  assumes inv: "history_inv l k T fs" and "T \<le> t" and unlocked: "locked l k \<le> t"
    and s: "failures s = remembered l k" "lockedUntil s = locked l k"
  shows "history_inv (record_failure t k s l) k t (fs @ [t])"
proof -
  let ?m = "maxFailures l" and ?d = "lockout l" and ?rec = "recent (remembered l k) (t - window l)"
  let ?l = "record_failure t k s l"
  have ok: "limiter_ok l" and nonneg: "0 \<le> t" and le: "\<forall>x \<in> set fs. x \<le> t"
    using inv \<open>T \<le> t\<close> by (auto simp: history_inv_def)
  from history_later [OF inv \<open>T \<le> t\<close>]
  obtain old where old: "fs = old @ remembered l k" "\<forall>x \<in> set old. x + ?d \<le> t"
    using unlocked by (auto simp: history_inv_def)
  obtain dropped where d: "remembered l k = dropped @ ?rec" "\<forall>x \<in> set dropped. x < t - window l"
    using recent_suffix by blast
  let ?old = "old @ dropped"
  have fs: "fs = ?old @ ?rec" using old(1) d(1) by simp
  have far: "\<forall>x \<in> set ?old. x + ?d \<le> t"
    using old(2) d(2) limiter_okD(4) [OF ok] by fastforce
  have len: "length ?rec < ?m"
    using limiter_okD(5) [OF ok, of k] length_recent le_less_trans by blast
  have "fs ! (length fs - ?m) + ?d \<le> t" if "?m \<le> length fs"
  proof -
    have "length fs - ?m < length ?old" using fs len that by (metis add_diff_cancel_right'
          diff_less_mono2 length_append less_le_trans not_less_iff_gr_or_eq order.refl)
    then have "fs ! (length fs - ?m) \<in> set ?old" by (metis fs nth_append nth_mem)
    with far show ?thesis by blast
  qed
  then have sp: "spaced ?m ?d (fs @ [t])"
    using inv limiter_okD(2) [OF ok] by (intro spaced_snoc) (auto simp: history_inv_def)
  have cfg: "maxFailures ?l = ?m" "lockout ?l = ?d" by (simp_all add: record_failure_def Let_def)
  have "\<exists>old. fs @ [t] = old @ remembered ?l k \<and> (\<forall>x \<in> set old. x + ?d \<le> max t (locked ?l k))"
  proof (cases "?m \<le> Suc (length ?rec)")
    case True
    then have "remembered ?l k = []" "locked ?l k = t + ?d"
      by (simp_all add: record_failure_def s Let_def remembered_def locked_def update_conv')
    with le show ?thesis by auto
  next
    case False
    then have "remembered ?l k = ?rec @ [t]"
      by (simp add: record_failure_def s Let_def remembered_def locked_def update_conv')
    with fs far show ?thesis
      by (intro exI [of _ ?old]) force
  qed
  with sp cfg le nonneg record_failure_ok [OF ok] show ?thesis
    by (simp add: history_inv_def)
qed

lemma Failure_history:
  assumes inv: "history_inv l k T fs" and "T \<le> t" and unlocked: "locked l k \<le> t"
    and room: "map_of (states l) k = None \<Longrightarrow> length (states (limiter_prune t l)) < maxStates l"
  shows "history_inv (limiter_Failure t k l) k t (fs @ [t])"
proof (cases "map_of (states l) k")
  case None
  have ok: "limiter_ok l" using inv by (simp add: history_inv_def)
  let ?l = "limiter_prune t l"
  have "map_of (states ?l) k = None" using None by (simp add: lookup_prune [OF ok])
  then have "history_inv (record_failure t k \<lparr>failures = [], lockedUntil = 0\<rparr> ?l) k t (fs @ [t])"
    using inv \<open>T \<le> t\<close>
    by (intro record_history [OF prune_history [OF inv \<open>T \<le> t\<close>]])
      (auto simp: remembered_def locked_def history_inv_def)
  then show ?thesis using None room by (simp add: limiter_Failure_def Let_def)
next
  case (Some s)
  then show ?thesis
    using record_history [OF inv \<open>T \<le> t\<close> unlocked, of s]
    by (simp add: limiter_Failure_def remembered_def locked_def)
qed

section \<open>Runs of attempts\<close>

definition known_keys :: "loginLimiter \<Rightarrow> string set" where
  "known_keys l = fst ` set (states l)"

lemma authenticate_eq:
  "authenticate adm pm a l =
     (let A = limiter_Allow (la_now a) (attempt_key a) l
      in if \<not> fst A then (Inl ErrRateLimited, snd A)
         else if la_username a \<noteq> adm \<or> \<not> pm (la_password a)
         then (Inl ErrInvalidCredentials, limiter_Failure (la_later a) (attempt_key a) (snd A))
         else (Inr (), limiter_Success (attempt_key a) (snd A)))"
  by (simp add: authenticate_def Let_def split_beta)

lemma limiter_config_authenticate [simp]:
  "maxFailures (snd (authenticate adm pm a l)) = maxFailures l"
  "lockout (snd (authenticate adm pm a l)) = lockout l"
  "maxStates (snd (authenticate adm pm a l)) = maxStates l"
  by (simp_all add: authenticate_eq Let_def limiter_Success_def)

lemma known_keys_Allow: "known_keys (snd (limiter_Allow now key l)) \<subseteq> known_keys l"
proof (cases "map_of (states l) key")
  case (Some s)
  then have "key \<in> known_keys l" by (force simp: known_keys_def dest: map_of_SomeD)
  then show ?thesis
    using Some by (auto simp: known_keys_def limiter_Allow_def Let_def AList.delete_eq
        dest!: subsetD [OF set_AList_update] intro: rev_image_eqI)
qed (simp add: limiter_Allow_def)

lemma known_keys_Failure: "known_keys (limiter_Failure now key l) \<subseteq> insert key (known_keys l)"
  using keys_prune [of now l]
  by (auto simp: known_keys_def limiter_Failure_def record_failure_def Let_def
      split: option.splits if_splits dest!: subsetD [OF set_AList_update])

lemma known_keys_authenticate:
  "known_keys (snd (authenticate adm pm a l)) \<subseteq> insert (attempt_key a) (known_keys l)"
proof -
  let ?l = "snd (limiter_Allow (la_now a) (attempt_key a) l)"
  have "known_keys (limiter_Success (attempt_key a) ?l) \<subseteq> known_keys ?l"
    by (auto simp: known_keys_def limiter_Success_def AList.delete_eq)
  with known_keys_Allow [of "la_now a" "attempt_key a" l]
    known_keys_Failure [of "la_later a" "attempt_key a" ?l] show ?thesis
    by (auto simp: authenticate_eq Let_def)
qed

lemma room_for_key:
  assumes "limiter_ok l" "known_keys l \<subseteq> K" "finite K" "card K \<le> maxStates l" "k \<in> K"
    and "map_of (states l) k = None"
  shows "length (states (limiter_prune t l)) < maxStates l"
proof -
  have ok: "limiter_ok (limiter_prune t l)" by (rule limiter_prune_ok) fact
  have "length (states (limiter_prune t l)) = card (fst ` set (states (limiter_prune t l)))"
    using distinct_card [OF limiter_okD(1) [OF ok]] by simp
  also have "\<dots> \<le> card (K - {k})"
  proof (rule card_mono)
    show "fst ` set (states (limiter_prune t l)) \<subseteq> K - {k}"
      using keys_prune [of t l] assms(2,6) by (auto simp: known_keys_def map_of_eq_None_iff)
  qed (use assms(3) in simp)
  also have "\<dots> < card K" by (rule card_Diff1_less) fact+
  finally show ?thesis using assms(4) by simp
qed

lemma Allow_unlocked: "fst (limiter_Allow now key l) \<Longrightarrow> 0 \<le> now \<Longrightarrow> locked (snd (limiter_Allow now key l)) key \<le> now"
  by (auto simp: limiter_Allow_def locked_def Let_def update_conv' delete_conv'
      split: option.splits if_splits)

lemma authenticate_history:
  assumes inv: "history_inv l k T fs" and time: "T \<le> la_now a" "la_now a \<le> la_later a"
    and keys: "known_keys l \<subseteq> K" "finite K" "card K \<le> maxStates l" "k \<in> K"
    and run: "authenticate adm pm a l = (v, l')" and no: "attempt_key a = k \<Longrightarrow> v \<noteq> Inr ()"
  shows "history_inv l' k (la_later a) (fs @ wrong_times k [(a, v)])"
proof -
  obtain allowed l1 where A: "limiter_Allow (la_now a) (attempt_key a) l = (allowed, l1)" by fastforce
  have inv1: "history_inv l1 k (la_now a) fs"
    using Allow_history [OF inv time(1), of "attempt_key a"] A by simp
  have ok1: "limiter_ok l1" and nonneg: "0 \<le> la_now a" using inv1 by (auto simp: history_inv_def)
  have keys1: "known_keys l1 \<subseteq> K" "card K \<le> maxStates l1"
    using known_keys_Allow [of "la_now a" "attempt_key a" l]
      limiter_config_Allow(4) [of "la_now a" "attempt_key a" l] keys A by auto
  show ?thesis
  proof (cases "allowed \<and> (la_username a \<noteq> adm \<or> \<not> pm (la_password a))")
    case True
    then have v: "v = Inl ErrInvalidCredentials" "l' = limiter_Failure (la_later a) (attempt_key a) l1"
      using run A by (auto simp: authenticate_eq Let_def)
    show ?thesis
    proof (cases "attempt_key a = k")
      case True
      have "locked l1 k \<le> la_later a"
        using Allow_unlocked [of "la_now a" k l] A True \<open>allowed \<and> _\<close> nonneg time(2) by auto
      then have "history_inv (limiter_Failure (la_later a) k l1) k (la_later a) (fs @ [la_later a])"
        using room_for_key [OF ok1 keys1(1) keys(2) keys1(2) keys(4)]
        by (rule Failure_history [OF inv1 time(2)])
      with v True show ?thesis by (simp add: wrong_times_def)
    next
      case False
      with v Failure_other_history [OF inv1 time(2)] show ?thesis by (simp add: wrong_times_def)
    qed
  next
    case False
    have none: "wrong_times k [(a, v)] = []"
      using False run A by (auto simp: authenticate_eq Let_def wrong_times_def split: if_splits)
    have "l' = l1 \<or> attempt_key a \<noteq> k \<and> l' = limiter_Success (attempt_key a) l1"
      using False run A no by (auto simp: authenticate_eq Let_def split: if_splits)
    then have "map_of (states l') k = map_of (states l1) k" "limiter_ok l'"
      "maxFailures l' = maxFailures l1" "lockout l' = lockout l1"
      using ok1 by (auto simp: limiter_Success_def delete_conv' AList_delete_ok)
    with inv1 time(2) show ?thesis
      unfolding none
      by (simp, intro history_carry [OF inv1 time(2), of l' "[]"]) (simp_all add: remembered_def locked_def)
  qed
qed

lemma login_run_attempts: "map fst (fst (login_run adm pm as l)) = as"
  by (induction as arbitrary: l) (auto simp: split_beta)

lemma login_run_history:
  assumes "history_inv l k T fs" and "clock_runs T as"
    and "known_keys l \<union> attempt_key ` set as \<subseteq> K" "finite K" "card K \<le> maxStates l" "k \<in> K"
    and "login_run adm pm as l = (vs, l')"
    and "\<forall>a v. (a, v) \<in> set vs \<and> attempt_key a = k \<longrightarrow> v \<noteq> Inr ()"
  shows "spaced (maxFailures l) (lockout l) (fs @ wrong_times k vs)"
  using assms
proof (induction as arbitrary: l T fs vs)
  case Nil
  then show ?case by (simp add: history_inv_def wrong_times_def)
next
  case (Cons a as)
  obtain v l1 where a: "authenticate adm pm a l = (v, l1)" by fastforce
  obtain vs' where vs': "login_run adm pm as l1 = (vs', l')" and vs: "vs = (a, v) # vs'"
    using Cons.prems(7) a by (auto split: prod.splits)
  have cfg: "maxFailures l1 = maxFailures l" "lockout l1 = lockout l" "maxStates l1 = maxStates l"
    using a limiter_config_authenticate [of adm pm a l] by simp_all
  have "known_keys l1 \<subseteq> K" using known_keys_authenticate [of adm pm a l] a Cons.prems(3) by auto
  moreover have "history_inv l1 k (la_later a) (fs @ wrong_times k [(a, v)])"
    using Cons.prems vs by (intro authenticate_history [OF _ _ _ _ _ _ _ a]) auto
  ultimately have "spaced (maxFailures l1) (lockout l1) ((fs @ wrong_times k [(a, v)]) @ wrong_times k vs')"
    using Cons.prems vs cfg by (intro Cons.IH [OF _ _ _ _ _ _ vs']) auto
  moreover have "wrong_times k vs = wrong_times k [(a, v)] @ wrong_times k vs'"
    by (simp add: wrong_times_def vs)
  ultimately show ?case by (simp add: cfg)
qed

section \<open>A lock ends\<close>

definition lock_bound :: "loginLimiter \<Rightarrow> int \<Rightarrow> bool" where
  "lock_bound l T \<longleftrightarrow> limiter_ok l \<and> (\<forall>k. locked l k \<le> T + lockout l)"

lemma lock_boundD: "lock_bound l T \<Longrightarrow> T \<le> now \<Longrightarrow> locked l k \<le> now + lockout l"
  unfolding lock_bound_def by (meson add_right_mono order_trans)

lemma lock_bound_prune:
  assumes "lock_bound l T" and "T \<le> now" "0 \<le> now"
  shows "lock_bound (limiter_prune now l) now"
proof -
  have ok: "limiter_ok l" and le: "locked l k \<le> now + lockout l" for k
    using assms(1) lock_boundD [OF assms(1,2)] by (simp_all add: lock_bound_def)
  have "locked (limiter_prune now l) k \<le> now + lockout l" for k
    using le [of k] limiter_okD(3) [OF ok] \<open>0 \<le> now\<close>
    by (auto simp: locked_def lookup_prune [OF ok] Let_def split: option.splits)
  with limiter_prune_ok [OF ok] show ?thesis by (simp add: lock_bound_def)
qed

lemma lock_bound_record:
  assumes "lock_bound l T" and "T \<le> now" "0 \<le> now" and "lockedUntil s \<le> now + lockout l"
  shows "lock_bound (record_failure now key s l) now"
proof -
  have ok: "limiter_ok l" and le: "locked l k \<le> now + lockout l" for k
    using assms(1) lock_boundD [OF assms(1,2)] by (simp_all add: lock_bound_def)
  have "locked (record_failure now key s l) k \<le> now + lockout l" for k
    using le [of k] assms(3,4) limiter_okD(3) [OF ok]
    by (auto simp: locked_def record_failure_def Let_def update_conv' split: option.splits)
  moreover have "lockout (record_failure now key s l) = lockout l"
    by (simp add: record_failure_def Let_def)
  ultimately show ?thesis using record_failure_ok [OF ok] by (simp add: lock_bound_def)
qed

lemma lock_bound_authenticate:
  assumes b: "lock_bound l T" and time: "0 \<le> T" "T \<le> la_now a" "la_now a \<le> la_later a"
  shows "lock_bound (snd (authenticate adm pm a l)) (la_later a)"
proof -
  let ?l = "snd (limiter_Allow (la_now a) (attempt_key a) l)"
  have ok: "limiter_ok l" and le: "locked l k \<le> la_later a + lockout l" for k
    using b time lock_boundD [OF b, of "la_later a"] by (simp_all add: lock_bound_def)
  have "locked ?l k \<le> la_later a + lockout l" for k
    using le [of k] limiter_okD(3) [OF ok] time
    by (auto simp: locked_def limiter_Allow_def Let_def update_conv' delete_conv' split: option.splits)
  then have bl: "lock_bound ?l (la_later a)" by (simp add: lock_bound_def limiter_Allow_ok ok)
  have "lock_bound (limiter_Failure (la_later a) (attempt_key a) ?l) (la_later a)"
  proof (cases "map_of (states ?l) (attempt_key a)")
    case None
    with lock_bound_prune [OF bl] time show ?thesis
      by (auto simp: limiter_Failure_def Let_def limiter_okD(3) [OF ok] intro!: lock_bound_record)
  next
    case (Some s)
    then have "lockedUntil s \<le> la_later a + lockout ?l"
      using bl [unfolded lock_bound_def] by (auto simp: locked_def dest: spec [of _ "attempt_key a"])
    with Some bl time show ?thesis by (auto simp: limiter_Failure_def intro: lock_bound_record)
  qed
  moreover have "lock_bound (limiter_Success (attempt_key a) ?l) (la_later a)"
    using bl time limiter_okD(3) [OF ok]
    by (auto simp: lock_bound_def limiter_Success_def AList_delete_ok locked_def delete_conv' split: option.splits)
  ultimately show ?thesis using bl by (simp add: authenticate_eq Let_def)
qed

fun last_time :: "int \<Rightarrow> attempt list \<Rightarrow> int" where
  "last_time T [] = T"
| "last_time T (a # as) = last_time (la_later a) as"

lemma login_run_lock_bound:
  "lock_bound l T \<Longrightarrow> 0 \<le> T \<Longrightarrow> clock_runs T as \<Longrightarrow>
     lock_bound (snd (login_run adm pm as l)) (last_time T as)
     \<and> lockout (snd (login_run adm pm as l)) = lockout l"
proof (induction as arbitrary: l T)
  case (Cons a as)
  then have "lock_bound (snd (authenticate adm pm a l)) (la_later a)" "0 \<le> la_later a"
    by (auto intro: lock_bound_authenticate)
  with Cons.IH [of "snd (authenticate adm pm a l)" "la_later a"] Cons.prems show ?case
    by (simp add: split_beta)
qed simp

lemma Allow_free: "locked l key \<le> now \<Longrightarrow> fst (limiter_Allow now key l)"
  by (auto simp: limiter_Allow_def locked_def Let_def split: option.splits)

section \<open>A full table\<close>

text \<open>The limiter after one wrong attempt under each of several different keys.\<close>

definition one_failure_each :: "attempt list \<Rightarrow> loginLimiter" where
  "one_failure_each as = newLoginLimiter\<lparr>states :=
     map (\<lambda>a. (attempt_key a, \<lparr>failures = [la_later a], lockedUntil = 0\<rparr>)) as\<rparr>"

lemma one_failure_each_sel [simp]:
  "window (one_failure_each as) = 15 * go_minute" "maxStates (one_failure_each as) = 4096"
  "maxFailures (one_failure_each as) = 5" "length (states (one_failure_each as)) = length as"
  "fst ` set (states (one_failure_each as)) = attempt_key ` set as"
  by (simp_all add: one_failure_each_def newLoginLimiter_def image_image)

lemma one_failure_each_prune:
  assumes "\<forall>a \<in> set as. now - 15 * go_minute \<le> la_later a"
  shows "limiter_prune now (one_failure_each as) = one_failure_each as"
proof -
  have "recent [la_later a] (now - 15 * go_minute) = [la_later a]" if "a \<in> set as" for a
    using assms that by (fastforce simp: recent_def)
  then show ?thesis
    by (simp add: limiter_prune_def one_failure_each_def newLoginLimiter_def comp_def filter_map
        cong: map_cong filter_cong)
qed

lemma one_failure_each_new:
  assumes "attempt_key a \<notin> attempt_key ` set as"
  shows "limiter_Allow now (attempt_key a) (one_failure_each as) = (True, one_failure_each as)"
    and "map_of (states (one_failure_each as)) (attempt_key a) = None"
proof -
  show "map_of (states (one_failure_each as)) (attempt_key a) = None"
    using assms by (simp add: map_of_eq_None_iff)
  then show "limiter_Allow now (attempt_key a) (one_failure_each as) = (True, one_failure_each as)"
    by (simp add: limiter_Allow_def)
qed

lemma AList_update_new: "k \<notin> fst ` set xs \<Longrightarrow> AList.update k v xs = xs @ [(k, v)]"
  by (induction xs) auto

lemma fill_table:
  assumes "distinct (map attempt_key (done @ as))" and "length (done @ as) \<le> 4096"
    and "\<forall>a \<in> set as. la_username a \<noteq> adm \<or> \<not> pm (la_password a)"
    and "\<forall>a \<in> set (done @ as). t - 15 * go_minute \<le> la_later a \<and> la_later a \<le> t"
  shows "snd (login_run adm pm as (one_failure_each done)) = one_failure_each (done @ as)"
  using assms
proof (induction as arbitrary: "done")
  case (Cons a as)
  let ?l = "one_failure_each done"
  have new: "attempt_key a \<notin> attempt_key ` set done" using Cons.prems(1) by auto
  have "la_later a \<le> t" "\<forall>b \<in> set done. t - 15 * go_minute \<le> la_later b"
    using Cons.prems(4) by auto
  then have "limiter_prune (la_later a) ?l = ?l"
    by (intro one_failure_each_prune) fastforce
  then have "limiter_Failure (la_later a) (attempt_key a) ?l
      = record_failure (la_later a) (attempt_key a) \<lparr>failures = [], lockedUntil = 0\<rparr> ?l"
    using one_failure_each_new(2) [OF new] Cons.prems(2) by (simp add: limiter_Failure_def Let_def)
  also have "\<dots> = one_failure_each (done @ [a])"
    using new by (simp add: record_failure_def recent_def Let_def AList_update_new)
      (simp add: one_failure_each_def newLoginLimiter_def AList_update_new image_image)
  finally have "snd (authenticate adm pm a ?l) = one_failure_each (done @ [a])"
    using Cons.prems(3) by (simp add: authenticate_eq Let_def one_failure_each_new(1) [OF new])
  with Cons.IH [of "done @ [a]"] Cons.prems show ?case by (simp add: split_beta)
qed simp

lemma full_table_run:
  assumes "4096 \<le> length done" and "\<forall>a \<in> set done. t - 15 * go_minute \<le> la_later a"
    and "\<forall>a \<in> set as. (la_username a \<noteq> adm \<or> \<not> pm (la_password a)) \<and> la_later a \<le> t
           \<and> attempt_key a \<notin> attempt_key ` set done"
  shows "login_run adm pm as (one_failure_each done)
    = (map (\<lambda>a. (a, Inl ErrInvalidCredentials)) as, one_failure_each done)"
  using assms(3)
proof (induction as)
  case (Cons a as)
  then have new: "attempt_key a \<notin> attempt_key ` set done" by simp
  have "limiter_prune (la_later a) (one_failure_each done) = one_failure_each done"
    using Cons.prems assms(2) by (intro one_failure_each_prune) fastforce
  then have "limiter_Failure (la_later a) (attempt_key a) (one_failure_each done) = one_failure_each done"
    using one_failure_each_new(2) [OF new] assms(1) by (simp add: limiter_Failure_def Let_def)
  then have "authenticate adm pm a (one_failure_each done)
      = (Inl ErrInvalidCredentials, one_failure_each done)"
    using Cons.prems by (simp add: authenticate_eq Let_def one_failure_each_new(1) [OF new])
  with Cons show ?case by simp
qed simp

section \<open>Properties\<close>


definition guess :: "int \<Rightarrow> attempt" where
  "guess t = \<lparr>la_clientKey = ''198.51.100.7'', la_username = ''admin'', la_password = ''guess'',
     la_now = t * go_minute, la_later = t * go_minute + 1\<rparr>"

definition guesses :: "attempt list" where
  "guesses = map guess [0, 1, 2, 3, 4, 5, 6, 9, 10]"

lemma guesses_run:
  "wrong_times (attempt_key (guess 0)) (fst (login_run ''admin'' (\<lambda>p. p = ''s3cret'') guesses newLoginLimiter))
     = map (\<lambda>t. t * go_minute + 1) [0, 1, 2, 3, 4, 10]
   \<and> (\<forall>(a, v) \<in> set (fst (login_run ''admin'' (\<lambda>p. p = ''s3cret'') guesses newLoginLimiter)). v \<noteq> Inr ())"
  by (simp add: guesses_def guess_def authenticate_eq limiter_Allow_def limiter_Failure_def
      record_failure_def limiter_prune_def recent_def newLoginLimiter_def attempt_key_def
      wrong_times_def go_minute_def Let_def)


text \<open>
  C26. A lockout ends. Whatever clients tried before, the right name and password, given five minutes
  or more after the last attempt, are accepted.
\<close>

theorem lockout_ends:
  assumes "clock_runs 0 as" and "last_time 0 as + 5 * go_minute \<le> la_now a"
    and "la_username a = adm" "pm (la_password a)"
  shows "fst (authenticate adm pm a (snd (login_run adm pm as newLoginLimiter))) = Inr ()"
proof -
  let ?l = "snd (login_run adm pm as newLoginLimiter)"
  have "lock_bound newLoginLimiter 0"
    unfolding lock_bound_def using limiter_ok_new
    by (simp add: locked_def) (simp add: newLoginLimiter_def go_minute_def)
  from login_run_lock_bound [OF this _ assms(1), of adm pm]
  have "lock_bound ?l (last_time 0 as)" "lockout ?l = 5 * go_minute"
    by (simp_all add: newLoginLimiter_def)
  then have "locked ?l (attempt_key a) \<le> la_now a"
    using lock_boundD [of ?l "last_time 0 as" "last_time 0 as"] assms(2) by (metis order.refl order_trans)
  with assms(3,4) show ?thesis by (simp add: authenticate_eq Let_def Allow_free)
qed

theorem lockout_ends_witness:
  "fst (authenticate ''admin'' (\<lambda>p. p = ''s3cret'')
      ((guess 16)\<lparr>la_password := ''s3cret''\<rparr>)
      (snd (login_run ''admin'' (\<lambda>p. p = ''s3cret'') guesses newLoginLimiter))) = Inr ()"
  by (rule lockout_ends) (simp_all add: guesses_def guess_def go_minute_def)

text \<open>
  C33. The limiter can be switched off by filling its table: after one wrong attempt under each of
  4096 different keys, wrong passwords for one more key are all checked, however many, as long as
  those attempts are not older than fifteen minutes. No attempt is refused and none is remembered.
\<close>

theorem full_table_disables_limiter:
  assumes "length fillers = 4096" and "distinct (map attempt_key fillers)"
    and "\<forall>a \<in> set (fillers @ as). la_username a \<noteq> adm \<or> \<not> pm (la_password a)"
    and "\<forall>a \<in> set fillers. t - 15 * go_minute \<le> la_later a"
    and "\<forall>a \<in> set (fillers @ as). la_later a \<le> t"
    and "\<forall>a \<in> set as. attempt_key a \<notin> attempt_key ` set fillers"
  shows "fst (login_run adm pm as (snd (login_run adm pm fillers newLoginLimiter)))
    = map (\<lambda>a. (a, Inl ErrInvalidCredentials)) as"
proof -
  have "snd (login_run adm pm fillers (one_failure_each [])) = one_failure_each fillers"
    using fill_table [of "[]" fillers adm pm t] assms(1-5) by simp
  moreover have "login_run adm pm as (one_failure_each fillers)
      = (map (\<lambda>a. (a, Inl ErrInvalidCredentials)) as, one_failure_each fillers)"
    using assms by (intro full_table_run [of fillers t]) auto
  moreover have "one_failure_each [] = newLoginLimiter"
    by (simp add: one_failure_each_def newLoginLimiter_def)
  ultimately show ?thesis by simp
qed

definition filler :: "nat \<Rightarrow> attempt" where
  "filler i = \<lparr>la_clientKey = ''198.51.100.7'', la_username = replicate (Suc i) (CHR ''x''),
     la_password = [], la_now = 0, la_later = 1\<rparr>"

lemma filler_key: "attempt_key (filler i) = ''198.51.100.7'' @ CHR 0x00 # replicate (Suc i) (CHR ''x'')"
proof -
  have c: "lower_char (CHR ''x'') = CHR ''x''" "\<not> go_space (CHR ''x'')" by code_simp+
  have "go_TrimSpace (replicate (Suc i) (CHR ''x'')) = replicate (Suc i) (CHR ''x'')"
    unfolding go_TrimSpace_def using c(2) by (intro strip_id) auto
  then show ?thesis
    by (simp add: attempt_key_def limiter_key_def filler_def toLowerCase_def c(1) del: replicate_Suc)
qed

theorem full_table_disables_limiter_witness:
  "fst (login_run ''admin'' (\<lambda>p. p = ''s3cret'') (replicate 1000 (guess 1))
       (snd (login_run ''admin'' (\<lambda>p. p = ''s3cret'') (map filler [0..<4096]) newLoginLimiter)))
   = replicate 1000 (guess 1, Inl ErrInvalidCredentials)"
proof -
  have "inj (\<lambda>i. attempt_key (filler i))"
    by (auto simp: inj_on_def filler_key dest!: arg_cong [of _ _ length])
  then have "distinct (map attempt_key (map filler [0..<4096]))"
    by (simp add: distinct_map inj_on_def comp_def)
  moreover have "attempt_key (guess 1) \<noteq> attempt_key (filler i)" for i
  proof -
    have "attempt_key (guess 1) = ''198.51.100.7'' @ CHR 0x00 # ''admin''"
      unfolding guess_def by code_simp
    then show ?thesis by (simp add: filler_key)
  qed
  moreover have "filler i = \<lparr>la_clientKey = ''198.51.100.7'', la_username = CHR ''x'' # replicate i (CHR ''x''),
     la_password = [], la_now = 0, la_later = 1\<rparr>" for i
    by (simp add: filler_def)
  ultimately show ?thesis
    using full_table_disables_limiter [of "map filler [0..<4096]" "replicate 1000 (guess 1)" "''admin''"
        "\<lambda>p. p = ''s3cret''" "go_minute + 1"]
    by (auto simp: guess_def go_minute_def)
qed

end
