(* ===== verification/Session_Manager.thy ===== *)
theory Session_Manager
  imports Login_Limiter
begin

text \<open>
  Sessions of the administrator: \<open>Login\<close>, \<open>Logout\<close>, \<open>CurrentUser\<close>, \<open>Reauthenticate\<close> and
  \<open>Reauthenticated\<close> of \<open>internal/auth/manager.go\<close>. The server keeps no session table: a session is
  the content of a signed and encrypted cookie. The cookie store (gorilla/sessions) and the password
  hash comparison (bcrypt) are parameters. Within one request the store hands out one session
  object, so a change made by one call is seen by the next. Times are nanoseconds, \<open>Unix()\<close> is the
  second before.
\<close>

section \<open>Sessions\<close>

record admin_session =
  se_authenticated :: bool
  se_username :: string
  se_created_at :: int
  se_reauth_at :: "int option"

definition new_session :: admin_session where
  "new_session = \<lparr>se_authenticated = False, se_username = [], se_created_at = 0, se_reauth_at = None\<rparr>"

text \<open>
  Decoding a cookie at a time (it may have expired, or not be one of ours), and encoding a session at
  a time, which fails when the value is too long.
\<close>

record cookie_store =
  cs_decode :: "int \<Rightarrow> string \<Rightarrow> admin_session option"
  cs_encode :: "int \<Rightarrow> admin_session \<Rightarrow> string option"

record manager =
  mg_username :: string
  mg_passwordOK :: "string \<Rightarrow> bool"
  mg_store :: cookie_store
  mg_maxAge :: int
  mg_reauthTTL :: int

definition go_second :: int where
  "go_second = 1000000000"

definition go_Unix :: "int \<Rightarrow> int" where
  "go_Unix t = t div go_second"

definition newManager :: "string \<Rightarrow> (string \<Rightarrow> bool) \<Rightarrow> cookie_store \<Rightarrow> int \<Rightarrow> manager" where
  "newManager username passwordOK cs sessionTTL = \<lparr>mg_username = username, mg_passwordOK = passwordOK,
     mg_store = cs, mg_maxAge = sessionTTL div go_second, mg_reauthTTL = 5 * go_minute\<rparr>"

text \<open>\<open>store.Get\<close>: without a cookie the session is new, an undecodable cookie is an error.\<close>

definition store_Get :: "manager \<Rightarrow> int \<Rightarrow> string option \<Rightarrow> auth_error + admin_session" where
  "store_Get m now cookie =
     (case cookie of
        None \<Rightarrow> Inr new_session
      | Some c \<Rightarrow> (case cs_decode (mg_store m) now c of None \<Rightarrow> Inl ErrSession | Some s \<Rightarrow> Inr s))"

definition store_Save :: "manager \<Rightarrow> int \<Rightarrow> admin_session \<Rightarrow> auth_error + admin_session \<times> string" where
  "store_Save m now s = (case cs_encode (mg_store m) now s of None \<Rightarrow> Inl ErrSession | Some c \<Rightarrow> Inr (s, c))"

definition manager_Login :: "manager \<Rightarrow> int \<Rightarrow> auth_error + admin_session \<Rightarrow> auth_error + admin_session \<times> string" where
  "manager_Login m now got =
     (let s = (case got of Inl _ \<Rightarrow> new_session | Inr s \<Rightarrow> s) in
      store_Save m now (s\<lparr>se_authenticated := True, se_username := mg_username m,
        se_created_at := go_Unix now, se_reauth_at := None\<rparr>))"

text \<open>The cookie of an ended session is also marked for deletion by the browser.\<close>

definition manager_Logout :: "manager \<Rightarrow> int \<Rightarrow> auth_error + admin_session \<times> string" where
  "manager_Logout m now = store_Save m now new_session"

definition manager_CurrentUser :: "manager \<Rightarrow> int \<Rightarrow> auth_error + admin_session \<Rightarrow> string option" where
  "manager_CurrentUser m now got =
     (case got of
        Inl _ \<Rightarrow> None
      | Inr s \<Rightarrow>
          if \<not> se_authenticated s \<or> se_username s \<noteq> mg_username m \<or> se_created_at s = 0
             \<or> now > (se_created_at s + mg_maxAge m) * go_second
          then None else Some (se_username s))"

definition manager_Reauthenticate ::
  "manager \<Rightarrow> int \<Rightarrow> auth_error + admin_session \<Rightarrow> string \<Rightarrow> auth_error + admin_session \<times> string" where
  "manager_Reauthenticate m now got password =
     (if manager_CurrentUser m now got = None then Inl ErrUnauthenticated
      else if \<not> mg_passwordOK m password then Inl ErrInvalidCredentials
      else case got of
        Inl e \<Rightarrow> Inl e
      | Inr s \<Rightarrow> store_Save m now (s\<lparr>se_reauth_at := Some (go_Unix now)\<rparr>))"

definition manager_Reauthenticated :: "manager \<Rightarrow> int \<Rightarrow> auth_error + admin_session \<Rightarrow> bool" where
  "manager_Reauthenticated m now got \<longleftrightarrow>
     (if manager_CurrentUser m now got = None then False
      else case got of
        Inl _ \<Rightarrow> False
      | Inr s \<Rightarrow> (case se_reauth_at s of None \<Rightarrow> False | Some v \<Rightarrow> now - v * go_second \<le> mg_reauthTTL m))"

section \<open>What a session proves\<close>

text \<open>
  \<open>logins\<close> and \<open>proofs\<close> are the times at which the administrator logged in and at which the password
  was given again. A session is \<open>earned\<close> when its marks come from these.
\<close>

definition earned :: "manager \<Rightarrow> int set \<Rightarrow> int set \<Rightarrow> admin_session \<Rightarrow> bool" where
  "earned m logins proofs s \<longleftrightarrow>
     (se_authenticated s \<longrightarrow> (\<exists>t \<in> logins. se_created_at s = go_Unix t))
   \<and> (\<forall>v. se_reauth_at s = Some v \<longrightarrow> (\<exists>t \<in> proofs. v = go_Unix t))"

lemma earned_mono: "earned m L P s \<Longrightarrow> L \<subseteq> L' \<Longrightarrow> P \<subseteq> P' \<Longrightarrow> earned m L' P' s"
  unfolding earned_def by blast

lemma earned_new [simp]: "earned m L P new_session"
  by (simp add: earned_def new_session_def)

lemma go_Unix_le: "go_Unix t * go_second \<le> t"
  by (simp add: go_Unix_def go_second_def minus_mod_eq_div_mult [symmetric])

lemma store_Save_session: "store_Save m now s = Inr (s', c) \<Longrightarrow> s' = s"
  by (auto simp: store_Save_def split: option.splits)

lemma Login_earned:
  assumes "manager_Login m now got = Inr (s, c)" and "now \<in> L"
  shows "earned m L P s"
  using assms by (auto simp: manager_Login_def earned_def Let_def dest!: store_Save_session)

lemma Logout_earned: "manager_Logout m now = Inr (s, c) \<Longrightarrow> earned m L P s"
  by (auto simp: manager_Logout_def dest!: store_Save_session)

lemma Reauthenticate_earned:
  assumes "manager_Reauthenticate m now got pw = Inr (s, c)" "now \<in> P"
    and "\<And>s. got = Inr s \<Longrightarrow> earned m L P s"
  shows "earned m L P s \<and> mg_passwordOK m pw \<and> manager_CurrentUser m now got \<noteq> None"
  using assms by (auto simp: manager_Reauthenticate_def earned_def split: if_splits sum.splits dest!: store_Save_session)

lemma CurrentUser_login:
  assumes "manager_CurrentUser m now got = Some u" and "\<And>s. got = Inr s \<Longrightarrow> earned m L P s"
  shows "u = mg_username m \<and> (\<exists>t \<in> L. now \<le> t + mg_maxAge m * go_second)"
proof -
  obtain s where s: "got = Inr s" "se_authenticated s" "u = mg_username m"
      "now \<le> (se_created_at s + mg_maxAge m) * go_second"
    using assms(1) by (auto simp: manager_CurrentUser_def split: sum.splits if_splits)
  then obtain t where "t \<in> L" "se_created_at s = go_Unix t" using assms(2) by (auto simp: earned_def)
  with s(4) go_Unix_le [of t] have "now \<le> t + mg_maxAge m * go_second" by (simp add: distrib_right)
  with s(3) \<open>t \<in> L\<close> show ?thesis by blast
qed

lemma reauthenticated_proof:
  assumes "manager_Reauthenticated m now got" and "\<And>s. got = Inr s \<Longrightarrow> earned m L P s"
  shows "\<exists>t \<in> P. now - t \<le> mg_reauthTTL m"
proof -
  obtain s v where "got = Inr s" "se_reauth_at s = Some v" "now - v * go_second \<le> mg_reauthTTL m"
    using assms(1) by (auto simp: manager_Reauthenticated_def split: if_splits sum.splits option.splits)
  moreover from this assms(2) obtain t where "t \<in> P" "v = go_Unix t" by (auto simp: earned_def)
  ultimately show ?thesis using go_Unix_le [of t] by (intro bexI [of _ t]) auto
qed

end
