(* ===== verification/Server_Handlers.thy ===== *)
theory Server_Handlers
  imports Session_Manager Cert_Service
begin

text \<open>
  The handlers of the server for sessions (\<open>internal/httpapi/auth.go\<close>) and certificates
  (\<open>internal/httpapi/certificates.go\<close>), as programs over the actions of \<open>Service_World\<close>. A request body
  arrives decoded, or as \<open>None\<close> when \<open>decodeJSON\<close> refused it. A request is handled at one moment of
  the clock. \<open>hp_session\<close> of a response is the session its cookie encodes.
\<close>

section \<open>Requests and responses\<close>

record server_request =
  hq_cookie :: "string option"
  hq_time :: int
  hq_client :: string

datatype http_body =
    ErrorBody string | NoBody | FileBody string file_content
  | ArchiveBody "(string \<times> file_content) list" string | FilesBody "(string \<times> string \<times> bool \<times> string) list"
  | CertBody cert_row | CertsBody "cert_row list" | UserBody string bool | AuthBody bool | ReauthBody

record server_response =
  hp_status :: nat
  hp_body :: http_body
  hp_cache :: string
  hp_attachment :: "string option"
  hp_cookie :: "string option"
  hp_session :: "admin_session option"

definition writeJSON :: "nat \<Rightarrow> http_body \<Rightarrow> server_response" where
  "writeJSON st body = \<lparr>hp_status = st, hp_body = body, hp_cache = [], hp_attachment = None,
     hp_cookie = None, hp_session = None\<rparr>"

definition writeError :: "nat \<Rightarrow> string \<Rightarrow> server_response" where
  "writeError st errorCode = writeJSON st (ErrorBody errorCode)"

text \<open>A cookie set before the response is written goes out with it, whatever the response is.\<close>

definition with_cookie :: "admin_session \<times> string \<Rightarrow> server_response \<Rightarrow> server_response" where
  "with_cookie sc r = r\<lparr>hp_cookie := Some (snd sc), hp_session := Some (fst sc)\<rparr>"

definition no_store :: "server_response \<Rightarrow> server_response" where
  "no_store r = r\<lparr>hp_cache := ''no-store''\<rparr>"

definition svc_map :: "('a \<Rightarrow> 'b) \<Rightarrow> 'a svc \<Rightarrow> 'b svc" where
  "svc_map f m = svc_bind m (\<lambda>v. Ret (f v))"

type_synonym session_result = "auth_error + admin_session"

definition actor_of :: "manager \<Rightarrow> server_request \<Rightarrow> session_result \<Rightarrow> string" where
  "actor_of m q got = (case manager_CurrentUser m (hq_time q) got of None \<Rightarrow> [] | Some u \<Rightarrow> u)"

definition auditAdminEvent :: "manager \<Rightarrow> server_request \<Rightarrow> session_result \<Rightarrow> string \<Rightarrow> string \<Rightarrow> string \<Rightarrow> action" where
  "auditAdminEvent m q got eventType fallbackActor result =
     (let actor = (case manager_CurrentUser m (hq_time q) got of None \<Rightarrow> fallbackActor | Some u \<Rightarrow> u)
      in audit_action [] eventType (if actor = [] then ''unknown'' else actor) (hq_client q) result [])"

section \<open>Sessions\<close>

definition handle_login ::
  "manager \<Rightarrow> server_request \<Rightarrow> session_result \<Rightarrow> (string \<times> string) option \<Rightarrow> loginLimiter
     \<Rightarrow> server_response svc \<times> loginLimiter" where
  "handle_login m q got body l =
     (case body of
        None \<Rightarrow> (Ret (no_store (writeError 400 ''INVALID_REQUEST'')), l)
      | Some (username, password) \<Rightarrow>
          (let (v, l') = authenticate (mg_username m) (mg_passwordOK m)
             \<lparr>la_clientKey = hq_client q, la_username = username, la_password = password,
              la_now = hq_time q, la_later = hq_time q\<rparr> l
           in (case v of
                 Inl e \<Rightarrow>
                   if e = ErrRateLimited
                   then ignored (auditAdminEvent m q got ''auth.login'' ''unknown'' ''rate_limited'')
                     (Ret (no_store (writeError 429 ''AUTH_RATE_LIMITED'')))
                   else ignored (auditAdminEvent m q got ''auth.login'' ''unknown'' ''failed'')
                     (Ret (no_store (writeError 401 ''AUTH_INVALID_CREDENTIALS'')))
               | Inr _ \<Rightarrow> (case manager_Login m (hq_time q) got of
                   Inl _ \<Rightarrow> Ret (no_store (writeError 500 ''INTERNAL_ERROR''))
                 | Inr (s, c) \<Rightarrow>
                     ignored (auditAdminEvent m q (Inr s) ''auth.login'' username ''succeeded'')
                       (Ret (with_cookie (s, c) (no_store (writeJSON 200 (UserBody username True)))))),
              l')))"

definition handle_logout :: "manager \<Rightarrow> server_request \<Rightarrow> session_result \<Rightarrow> server_response svc" where
  "handle_logout m q got =
     (case manager_Logout m (hq_time q) of
        Inl _ \<Rightarrow> Ret (no_store (writeError 500 ''INTERNAL_ERROR''))
      | Inr (s, c) \<Rightarrow>
          ignored (auditAdminEvent m q (Inr s) ''auth.logout'' (actor_of m q got) ''succeeded'')
            (Ret (with_cookie (s, c) (no_store (writeJSON 200 (AuthBody False))))))"

definition handle_me :: "manager \<Rightarrow> server_request \<Rightarrow> session_result \<Rightarrow> server_response" where
  "handle_me m q got =
     (case manager_CurrentUser m (hq_time q) got of
        None \<Rightarrow> no_store (writeError 401 ''AUTH_REQUIRED'')
      | Some u \<Rightarrow> no_store (writeJSON 200 (UserBody u (manager_Reauthenticated m (hq_time q) got))))"

definition handle_reauthenticate ::
  "manager \<Rightarrow> server_request \<Rightarrow> session_result \<Rightarrow> string option \<Rightarrow> server_response svc" where
  "handle_reauthenticate m q got body =
     (case body of
        None \<Rightarrow> Ret (no_store (writeError 400 ''INVALID_REQUEST''))
      | Some password \<Rightarrow> (case manager_Reauthenticate m (hq_time q) got password of
          Inl e \<Rightarrow>
            if e = ErrInvalidCredentials
            then ignored (auditAdminEvent m q got ''auth.reauthenticate'' ''admin'' ''failed'')
              (Ret (no_store (writeError 401 ''AUTH_INVALID_CREDENTIALS'')))
            else if e = ErrUnauthenticated then Ret (no_store (writeError 401 ''AUTH_REQUIRED''))
            else Ret (no_store (writeError 500 ''INTERNAL_ERROR''))
        | Inr (s, c) \<Rightarrow>
            ignored (auditAdminEvent m q (Inr s) ''auth.reauthenticate'' ''admin'' ''succeeded'')
              (Ret (with_cookie (s, c) (no_store (writeJSON 200 ReauthBody))))))"

definition requireAuth ::
  "manager \<Rightarrow> server_request \<Rightarrow> session_result \<Rightarrow> server_response svc \<Rightarrow> server_response svc" where
  "requireAuth m q got rest =
     (if manager_CurrentUser m (hq_time q) got = None then Ret (writeError 401 ''AUTH_REQUIRED'') else rest)"

section \<open>Certificates\<close>

definition certificateByID :: "string \<Rightarrow> (cert_row \<Rightarrow> server_response svc) \<Rightarrow> server_response svc" where
  "certificateByID i k = Act (GetRow (go_TrimSpace i)) (\<lambda>r. case re_row r of
     Inl e \<Rightarrow> Ret (if e = ErrNotFound then writeError 404 ''CERT_NOT_FOUND'' else writeError 500 ''INTERNAL_ERROR'')
   | Inr v \<Rightarrow> k v)"

definition handle_listCertificates :: "server_response svc" where
  "handle_listCertificates = Act ListRows (\<lambda>r. Ret (case re_err r of
     Some _ \<Rightarrow> writeError 500 ''INTERNAL_ERROR'' | None \<Rightarrow> writeJSON 200 (CertsBody (re_rows r))))"

definition handle_getCertificate :: "string \<Rightarrow> server_response svc" where
  "handle_getCertificate i = certificateByID i (\<lambda>v. Ret (writeJSON 200 (CertBody v)))"

text \<open>\<open>writeRedundantDomainError\<close> and \<open>writeDNSZoneUnavailableError\<close>: the codes of these two errors.\<close>

definition redundant_code :: "service_error \<Rightarrow> string option" where
  "redundant_code e = (case e of
     ErrRedundant _ \<Rightarrow> Some ''CERT_DOMAIN_REDUNDANT''
   | ErrCreate (DomainRedundant _) \<Rightarrow> Some ''CERT_DOMAIN_REDUNDANT''
   | _ \<Rightarrow> None)"

definition zone_code :: "service_error \<Rightarrow> string option" where
  "zone_code e = (case e of ErrDNSZoneUnavailable _ _ \<Rightarrow> Some ''CERT_DNS_ZONE_UNAVAILABLE'' | _ \<Rightarrow> None)"

definition first_code :: "string option list \<Rightarrow> string \<Rightarrow> string" where
  "first_code cs d = (case List.find (\<lambda>c. c \<noteq> None) cs of Some (Some c) \<Rightarrow> c | _ \<Rightarrow> d)"

definition created_response :: "service_error + cert_row \<Rightarrow> server_response" where
  "created_response r = (case r of
     Inl e \<Rightarrow> writeError 400 (first_code [redundant_code e, zone_code e] ''CERT_ISSUE_FAILED'')
   | Inr v \<Rightarrow> writeJSON 201 (CertBody v))"

definition handle_createCertificate ::
  "service_config \<Rightarrow> manager \<Rightarrow> server_request \<Rightarrow> session_result \<Rightarrow> createCertificateRequest option
     \<Rightarrow> server_response svc" where
  "handle_createCertificate cfg m q got body =
     (case body of
        None \<Rightarrow> Ret (writeError 400 ''INVALID_REQUEST'')
      | Some request \<Rightarrow>
          if cq_Mode request = ''self_signed''
          then svc_map created_response (service_CreateSelfSigned cfg request (actor_of m q got) (hq_client q))
          else if cq_Mode request = ''acme''
          then svc_map created_response (service_CreateACME cfg request (actor_of m q got) (hq_client q))
          else Ret (writeError 400 ''CERT_MODE_UNSUPPORTED''))"

record update_body =
  ub_Name :: string
  ub_AutoRenewEnabled :: bool
  ub_RenewBeforeDays :: int
  ub_CreateRenewedMarker :: bool

definition handle_updateCertificate ::
  "manager \<Rightarrow> server_request \<Rightarrow> session_result \<Rightarrow> string \<Rightarrow> update_body option \<Rightarrow> server_response svc" where
  "handle_updateCertificate m q got i body =
     (case body of
        None \<Rightarrow> Ret (writeError 400 ''INVALID_REQUEST'')
      | Some u \<Rightarrow> svc_map (\<lambda>r. case r of
            Inl e \<Rightarrow> if e = ErrNotFound then writeError 404 ''CERT_NOT_FOUND'' else writeError 400 ''CERT_UPDATE_INVALID''
          | Inr v \<Rightarrow> writeJSON 200 (CertBody v))
          (service_Update i (ub_Name u) (ub_AutoRenewEnabled u) (ub_RenewBeforeDays u) (ub_CreateRenewedMarker u)
            (actor_of m q got) (hq_client q)))"

definition operation_response ::
  "(service_error \<Rightarrow> string option) list \<Rightarrow> string \<Rightarrow> service_error + cert_row \<Rightarrow> server_response" where
  "operation_response special failed r = (case r of
     Inl e \<Rightarrow>
       if e = ErrNotFound then writeError 404 ''CERT_NOT_FOUND''
       else if e = ErrOperationRunning then writeError 409 ''CERT_OPERATION_RUNNING''
       else writeError 400 (first_code (map (\<lambda>f. f e) special) failed)
   | Inr v \<Rightarrow> writeJSON 200 (CertBody v))"

definition handle_issueCertificate ::
  "service_config \<Rightarrow> manager \<Rightarrow> server_request \<Rightarrow> session_result \<Rightarrow> string \<Rightarrow> server_response svc" where
  "handle_issueCertificate cfg m q got i =
     svc_map (operation_response [redundant_code, zone_code] ''CERT_ISSUE_FAILED'')
       (service_Issue cfg i (actor_of m q got) (hq_client q))"

definition runCertificateRenewal ::
  "service_config \<Rightarrow> manager \<Rightarrow> server_request \<Rightarrow> session_result \<Rightarrow> string \<Rightarrow> bool \<Rightarrow> server_response svc" where
  "runCertificateRenewal cfg m q got i force =
     svc_map (operation_response [zone_code] ''CERT_RENEW_FAILED'')
       (service_Renew cfg i force (actor_of m q got) (hq_client q))"

definition handle_forceRenewCertificate ::
  "service_config \<Rightarrow> manager \<Rightarrow> server_request \<Rightarrow> session_result \<Rightarrow> string \<Rightarrow> server_response svc" where
  "handle_forceRenewCertificate cfg m q got i =
     (if \<not> manager_Reauthenticated m (hq_time q) got then Ret (writeError 403 ''AUTH_REAUTH_REQUIRED'')
      else runCertificateRenewal cfg m q got i True)"

definition handle_revokeCertificate ::
  "service_config \<Rightarrow> manager \<Rightarrow> server_request \<Rightarrow> session_result \<Rightarrow> string \<Rightarrow> string option \<Rightarrow> server_response svc" where
  "handle_revokeCertificate cfg m q got i body =
     (case body of
        None \<Rightarrow> Ret (writeError 400 ''INVALID_REQUEST'')
      | Some password \<Rightarrow> (case manager_Reauthenticate m (hq_time q) got password of
          Inl _ \<Rightarrow> Ret (writeError 401 ''AUTH_REAUTH_REQUIRED'')
        | Inr (s, c) \<Rightarrow> svc_map (\<lambda>r. with_cookie (s, c) (case r of
              Inl ErrRevokeNotAllowed \<Rightarrow> writeError 409 ''CERT_REVOKE_NOT_ALLOWED''
            | _ \<Rightarrow> operation_response [] ''CERT_REVOKE_FAILED'' r))
            (service_Revoke cfg i (actor_of m q (Inr s)) (hq_client q))))"

record delete_body =
  db_Password :: string
  db_ConfirmName :: string
  db_DeleteFiles :: bool

definition handle_deleteCertificate ::
  "manager \<Rightarrow> server_request \<Rightarrow> session_result \<Rightarrow> string \<Rightarrow> delete_body option \<Rightarrow> server_response svc" where
  "handle_deleteCertificate m q got i body =
     (case body of
        None \<Rightarrow> Ret (writeError 400 ''INVALID_REQUEST'')
      | Some d \<Rightarrow> certificateByID i (\<lambda>v.
          if db_ConfirmName d \<noteq> nc_Name v then Ret (writeError 400 ''CERT_DELETE_CONFIRMATION_INVALID'')
          else case manager_Reauthenticate m (hq_time q) got (db_Password d) of
            Inl _ \<Rightarrow> Ret (writeError 401 ''AUTH_REAUTH_REQUIRED'')
          | Inr (s, c) \<Rightarrow> svc_map (\<lambda>r. with_cookie (s, c) (case r of
                Inl e \<Rightarrow>
                  if e = ErrOperationRunning then writeError 409 ''CERT_OPERATION_RUNNING''
                  else if e = ErrDeleteFilesBackup then writeError 409 ''CERT_DELETE_FILES_BACKUP_FAILED''
                  else writeError 500 ''INTERNAL_ERROR''
              | Inr _ \<Rightarrow> writeJSON 204 NoBody))
              (service_Delete (cr_ID v) (db_DeleteFiles d) (actor_of m q (Inr s)) (hq_client q))))"

section \<open>Files\<close>

definition certificateFiles :: "(string \<times> string) list" where
  "certificateFiles = [(''cert'', ''cert.pem''), (''chain'', ''chain.pem''), (''fullchain'', ''fullchain.pem''),
     (''private-key'', ''privkey.pem'')]"

definition certificateFileName :: "string \<Rightarrow> string option" where
  "certificateFileName fileType = map_of certificateFiles fileType"

definition service_ReadFile :: "string \<Rightarrow> string \<Rightarrow> (service_error + file_content) svc" where
  "service_ReadFile i name = get_row i (\<lambda>v. Act (ReadFile (nc_OutputDirectory v) name) (\<lambda>r. Ret (re_content r)))"

definition containerPath :: "cert_row \<Rightarrow> string \<Rightarrow> string" where
  "containerPath v name = ''/certs/'' @ nc_OutputDirectory v @ ''/'' @ name"

definition handle_listCertificateFiles :: "string \<Rightarrow> server_response svc" where
  "handle_listCertificateFiles i = certificateByID i (\<lambda>v.
     Act (GetRow (cr_ID v)) (\<lambda>g. case re_row g of
       Inl _ \<Rightarrow> Ret (writeError 500 ''INTERNAL_ERROR'')
     | Inr v' \<Rightarrow> Act (ListFiles (nc_OutputDirectory v')) (\<lambda>r. case re_names r of
         Inl _ \<Rightarrow> Ret (writeError 500 ''INTERNAL_ERROR'')
       | Inr available \<Rightarrow> Ret (writeJSON 200 (FilesBody
           (map (\<lambda>(ty, name). (ty, name, ty = ''private-key'', containerPath v name))
             (filter (\<lambda>(ty, name). name \<in> set available) certificateFiles)))))))"

definition serveCertificateFile ::
  "manager \<Rightarrow> server_request \<Rightarrow> session_result \<Rightarrow> string \<Rightarrow> string \<Rightarrow> bool \<Rightarrow> server_response svc" where
  "serveCertificateFile m q got i fileType download =
     (case certificateFileName fileType of
        None \<Rightarrow> Ret (writeError 400 ''CERT_FILE_NOT_FOUND'')
      | Some name \<Rightarrow> svc_bind (service_ReadFile i name) (\<lambda>c. case c of
          Inl e \<Rightarrow> Ret (writeError 404 (if e = ErrNotFound then ''CERT_NOT_FOUND'' else ''CERT_FILE_NOT_FOUND''))
        | Inr content \<Rightarrow>
            (let resp = (writeJSON 200 (FileBody name content))\<lparr>hp_attachment := if download then Some name else None\<rparr>
             in if fileType = ''private-key''
                then ignored (audit_action i (if download then ''private_key.download'' else ''private_key.view'')
                    (actor_of m q got) (hq_client q) ''succeeded'' [])
                  (Ret (resp\<lparr>hp_cache := ''no-store, private''\<rparr>))
                else Ret resp)))"

definition handle_viewCertificateFile ::
  "manager \<Rightarrow> server_request \<Rightarrow> session_result \<Rightarrow> string \<Rightarrow> string \<Rightarrow> server_response svc" where
  "handle_viewCertificateFile m q got i fileType =
     (if fileType = ''private-key'' then Ret (writeError 403 ''PRIVATE_KEY_ACCESS_DENIED'')
      else serveCertificateFile m q got i fileType False)"

definition handle_downloadCertificateFile ::
  "manager \<Rightarrow> server_request \<Rightarrow> session_result \<Rightarrow> string \<Rightarrow> string \<Rightarrow> server_response svc" where
  "handle_downloadCertificateFile m q got i fileType =
     (if fileType = ''private-key'' \<and> \<not> manager_Reauthenticated m (hq_time q) got
      then Ret (writeError 403 ''AUTH_REAUTH_REQUIRED'')
      else serveCertificateFile m q got i fileType True)"

definition handle_revealPrivateKey ::
  "manager \<Rightarrow> server_request \<Rightarrow> session_result \<Rightarrow> string \<Rightarrow> string option \<Rightarrow> server_response svc" where
  "handle_revealPrivateKey m q got i body =
     (case body of
        None \<Rightarrow> Ret (writeError 400 ''INVALID_REQUEST'')
      | Some password \<Rightarrow> (case manager_Reauthenticate m (hq_time q) got password of
          Inl _ \<Rightarrow> Ret (writeError 401 ''AUTH_REAUTH_REQUIRED'')
        | Inr (s, c) \<Rightarrow> svc_map (\<lambda>r. with_cookie (s, c) (r\<lparr>hp_cache := ''no-store, private''\<rparr>))
            (serveCertificateFile m q (Inr s) i ''private-key'' False)))"

definition handle_auditPrivateKeyCopy ::
  "manager \<Rightarrow> server_request \<Rightarrow> session_result \<Rightarrow> string \<Rightarrow> server_response svc" where
  "handle_auditPrivateKeyCopy m q got i =
     (if \<not> manager_Reauthenticated m (hq_time q) got then Ret (writeError 403 ''AUTH_REAUTH_REQUIRED'')
      else certificateByID i (\<lambda>_.
        Act (audit_action i ''private_key.copy'' (actor_of m q got) (hq_client q) ''succeeded'' []) (\<lambda>r.
          Ret (if re_err r = None then writeJSON 204 NoBody else writeError 500 ''INTERNAL_ERROR''))))"

text \<open>Reading the files of an archive one after the other; the first failure ends it.\<close>

fun read_files :: "string \<Rightarrow> string list \<Rightarrow> (service_error + (string \<times> file_content) list) svc" where
  "read_files i [] = Ret (Inr [])"
| "read_files i (name # names) = svc_bind (service_ReadFile i name) (\<lambda>c. case c of
     Inl e \<Rightarrow> Ret (Inl e)
   | Inr content \<Rightarrow> svc_bind (read_files i names) (\<lambda>r. Ret (case r of
       Inl e \<Rightarrow> Inl e | Inr fs \<Rightarrow> Inr ((name, content) # fs))))"

definition archive_readme :: "string \<Rightarrow> cert_row \<Rightarrow> bool \<Rightarrow> string" where
  "archive_readme appName v includeKey = appName @ '' certificate bundle'' @ [CHR 0x0A, CHR 0x0A]
     @ ''Certificate: '' @ nc_Name v @ [CHR 0x0A] @ ''Primary domain: '' @ nc_PrimaryDomain v @ [CHR 0x0A]
     @ ''Container directory: /certs/'' @ nc_OutputDirectory v @ [CHR 0x0A]
     @ ''Private key included: '' @ (if includeKey then ''true'' else ''false'') @ [CHR 0x0A, CHR 0x0A]
     @ ''Keep privkey.pem confidential and restrict it to the service account that terminates TLS.'' @ [CHR 0x0A]"

definition archive_types :: "bool \<Rightarrow> string list" where
  "archive_types includeKey = [''cert'', ''chain'', ''fullchain''] @ (if includeKey then [''private-key''] else [])"

definition archive_deliver ::
  "string \<Rightarrow> manager \<Rightarrow> server_request \<Rightarrow> session_result \<Rightarrow> cert_row \<Rightarrow> bool \<Rightarrow> server_response svc" where
  "archive_deliver appName m q got v includeKey =
     svc_bind (read_files (cr_ID v) (List.map_filter certificateFileName (archive_types includeKey))) (\<lambda>r. case r of
       Inl _ \<Rightarrow> Ret (writeError 404 ''CERT_FILE_NOT_FOUND'')
     | Inr fs \<Rightarrow>
         (let ok = Ret ((writeJSON 200 (ArchiveBody fs (archive_readme appName v includeKey)))
             \<lparr>hp_cache := ''no-store, private'', hp_attachment := Some ''certificate-bundle.zip''\<rparr>);
              access = (\<lambda>ev. audit_action (cr_ID v) ev (actor_of m q got) (hq_client q) ''succeeded'' [])
          in ignored (access ''certificate_files.archive_download'')
               (if includeKey then ignored (access ''private_key.archive_download'') ok else ok)))"

definition handle_downloadCertificateArchive ::
  "string \<Rightarrow> manager \<Rightarrow> server_request \<Rightarrow> session_result \<Rightarrow> string \<Rightarrow> (bool \<times> string) option \<Rightarrow> server_response svc" where
  "handle_downloadCertificateArchive appName m q got i body =
     (case body of
        None \<Rightarrow> Ret (writeError 400 ''INVALID_REQUEST'')
      | Some (includeKey, password) \<Rightarrow> certificateByID i (\<lambda>v.
          if \<not> includeKey then archive_deliver appName m q got v False
          else case manager_Reauthenticate m (hq_time q) got password of
            Inl _ \<Rightarrow> Ret (writeError 401 ''AUTH_REAUTH_REQUIRED'')
          | Inr (s, c) \<Rightarrow> svc_map (with_cookie (s, c)) (archive_deliver appName m q (Inr s) v True)))"

end
