(* ===== verification/Key_Access.thy ===== *)
theory Key_Access
  imports Server_Handlers Service_Sample
begin

text \<open>
  Who gets what: the requests of a client, handled one after the other by the handlers of
  \<open>Server_Handlers\<close>, and what an answer says about the requests before it. The routes are those of
  \<open>NewRouter\<close> in \<open>internal/httpapi/router.go\<close> for sessions and certificates.
\<close>

section \<open>Serving requests\<close>

datatype http_call =
    PostLogin "(string \<times> string) option" | PostLogout | GetMe | PostReauthenticate "string option"
  | GetCertificates | PostCertificates "createCertificateRequest option" | GetCertificate string
  | PatchCertificate string "update_body option" | DeleteCertificate string "delete_body option"
  | PostIssue string | PostRenew string | PostForceRenew string | PostRevoke string "string option"
  | GetFiles string | GetFile string string | GetFileDownload string string
  | PostArchive string "(bool \<times> string) option" | PostReveal string "string option" | PostCopyAudit string

record app =
  ap_name :: string
  ap_manager :: manager
  ap_service :: service_config

record server =
  sv_limiter :: loginLimiter
  sv_world :: world

fun protected_route :: "app \<Rightarrow> server_request \<Rightarrow> session_result \<Rightarrow> http_call \<Rightarrow> server_response svc" where
  "protected_route ap q got PostLogout = handle_logout (ap_manager ap) q got"
| "protected_route ap q got GetMe = Ret (handle_me (ap_manager ap) q got)"
| "protected_route ap q got (PostReauthenticate b) = handle_reauthenticate (ap_manager ap) q got b"
| "protected_route ap q got GetCertificates = handle_listCertificates"
| "protected_route ap q got (PostCertificates b) = handle_createCertificate (ap_service ap) (ap_manager ap) q got b"
| "protected_route ap q got (GetCertificate i) = handle_getCertificate i"
| "protected_route ap q got (PatchCertificate i b) = handle_updateCertificate (ap_manager ap) q got i b"
| "protected_route ap q got (DeleteCertificate i b) = handle_deleteCertificate (ap_manager ap) q got i b"
| "protected_route ap q got (PostIssue i) = handle_issueCertificate (ap_service ap) (ap_manager ap) q got i"
| "protected_route ap q got (PostRenew i) = runCertificateRenewal (ap_service ap) (ap_manager ap) q got i False"
| "protected_route ap q got (PostForceRenew i) = handle_forceRenewCertificate (ap_service ap) (ap_manager ap) q got i"
| "protected_route ap q got (PostRevoke i b) = handle_revokeCertificate (ap_service ap) (ap_manager ap) q got i b"
| "protected_route ap q got (GetFiles i) = handle_listCertificateFiles i"
| "protected_route ap q got (GetFile i ty) = handle_viewCertificateFile (ap_manager ap) q got i ty"
| "protected_route ap q got (GetFileDownload i ty) = handle_downloadCertificateFile (ap_manager ap) q got i ty"
| "protected_route ap q got (PostArchive i b) = handle_downloadCertificateArchive (ap_name ap) (ap_manager ap) q got i b"
| "protected_route ap q got (PostReveal i b) = handle_revealPrivateKey (ap_manager ap) q got i b"
| "protected_route ap q got (PostCopyAudit i) = handle_auditPrivateKeyCopy (ap_manager ap) q got i"
| "protected_route ap q got (PostLogin b) = Ret (writeError 404 ''NOT_FOUND'')"

definition serve :: "app \<Rightarrow> environment \<Rightarrow> server_request \<Rightarrow> http_call \<Rightarrow> server \<Rightarrow> server_response \<times> server" where
  "serve ap env q c s =
     (let m = ap_manager ap; got = store_Get m (hq_time q) (hq_cookie q);
          (prog, l) = (case c of
            PostLogin b \<Rightarrow> handle_login m q got b (sv_limiter s)
          | _ \<Rightarrow> (requireAuth m q got (protected_route ap q got c), sv_limiter s));
          (r, w) = run_svc env prog (sv_world s)
      in (r, \<lparr>sv_limiter = l, sv_world = w\<rparr>))"

record exchange =
  ex_request :: server_request
  ex_call :: http_call
  ex_response :: server_response

fun serve_all :: "app \<Rightarrow> environment \<Rightarrow> (server_request \<times> http_call) list \<Rightarrow> server \<Rightarrow> exchange list \<times> server" where
  "serve_all ap env [] s = ([], s)"
| "serve_all ap env ((q, c) # qs) s =
     (let (r, s') = serve ap env q c s; (h, s'') = serve_all ap env qs s'
      in (\<lparr>ex_request = q, ex_call = c, ex_response = r\<rparr> # h, s''))"

text \<open>
  The cookie store's promise: a cookie that decodes to a session is one that the server sent before,
  with that session. \<open>h\<close> are the exchanges before the request.
\<close>

definition authentic :: "manager \<Rightarrow> exchange list \<Rightarrow> server_request \<Rightarrow> bool" where
  "authentic m h q \<longleftrightarrow> (case hq_cookie q of None \<Rightarrow> True | Some c \<Rightarrow>
     (case cs_decode (mg_store m) (hq_time q) c of None \<Rightarrow> True | Some s \<Rightarrow>
        list_ex (\<lambda>e. hp_cookie (ex_response e) = Some c \<and> hp_session (ex_response e) = Some s) h))"

definition cookies_authentic :: "manager \<Rightarrow> exchange list \<Rightarrow> bool" where
  "cookies_authentic m h \<longleftrightarrow> list_all (\<lambda>n. authentic m (take n h) (ex_request (h ! n))) [0..<length h]"

section \<open>Passwords given\<close>

fun given_password :: "http_call \<Rightarrow> string option" where
  "given_password (PostReauthenticate b) = b"
| "given_password (PostRevoke i b) = b"
| "given_password (DeleteCertificate i b) = map_option db_Password b"
| "given_password (PostArchive i b) = (case b of Some (True, p) \<Rightarrow> Some p | _ \<Rightarrow> None)"
| "given_password (PostReveal i b) = b"
| "given_password c = None"

definition proves :: "manager \<Rightarrow> http_call \<Rightarrow> bool" where
  "proves m c \<longleftrightarrow> (case given_password c of None \<Rightarrow> False | Some p \<Rightarrow> mg_passwordOK m p)"

definition logs_in :: "manager \<Rightarrow> http_call \<Rightarrow> bool" where
  "logs_in m c \<longleftrightarrow> (case c of PostLogin (Some (u, p)) \<Rightarrow> u = mg_username m \<and> mg_passwordOK m p | _ \<Rightarrow> False)"

definition times_of :: "(http_call \<Rightarrow> bool) \<Rightarrow> exchange list \<Rightarrow> int set" where
  "times_of f h = {hq_time (ex_request e) | e. e \<in> set h \<and> f (ex_call e)}"

lemma times_of_simps [simp]:
  "times_of f [] = {}"
  "times_of f (h @ [e]) = times_of f h \<union> (if f (ex_call e) then {hq_time (ex_request e)} else {})"
  by (auto simp: times_of_def)

definition reveals_key :: "server_response \<Rightarrow> bool" where
  "reveals_key r \<longleftrightarrow> (case hp_body r of
     FileBody name _ \<Rightarrow> name = ''privkey.pem'' | ArchiveBody fs _ \<Rightarrow> ''privkey.pem'' \<in> fst ` set fs | _ \<Rightarrow> False)"

section \<open>All results of a program\<close>

primrec all_results :: "'a svc \<Rightarrow> ('a \<Rightarrow> bool) \<Rightarrow> bool" where
  "all_results (Ret v) Q = Q v"
| "all_results (Act a k) Q = (\<forall>r. all_results (k r) Q)"

lemma all_results_run: "all_results m Q \<Longrightarrow> run_svc env m w = (v, w') \<Longrightarrow> Q v"
  by (induction m arbitrary: w) (auto split: prod.splits)

lemma all_results_bind: "all_results (svc_bind m f) Q = all_results m (\<lambda>v. all_results (f v) Q)"
  by (induction m) auto

lemma all_results_mono: "all_results m Q \<Longrightarrow> (\<And>v. Q v \<Longrightarrow> R v) \<Longrightarrow> all_results m R"
  by (induction m) auto

lemma all_results_any: "(\<And>v. Q v) \<Longrightarrow> all_results m Q"
  by (induction m) auto

lemma all_results_map: "all_results (svc_map f m) Q = all_results m (\<lambda>v. Q (f v))"
  by (simp add: svc_map_def all_results_bind)

lemma all_results_ignored [simp]: "all_results (ignored a m) Q = all_results m Q"
  by (simp add: ignored_def)

lemma read_files_names:
  "all_results (read_files i names) (\<lambda>r. case r of Inl _ \<Rightarrow> True | Inr fs \<Rightarrow> map fst fs = names)"
proof (induction names)
  case (Cons name names)
  have "all_results (read_files i names) (\<lambda>r. case (case r of Inl e \<Rightarrow> Inl e | Inr fs \<Rightarrow> Inr ((name, c) # fs)) of
      Inl _ \<Rightarrow> True | Inr fs \<Rightarrow> map fst fs = name # names)" for c
    by (rule all_results_mono [OF Cons]) (auto split: sum.splits)
  then have "all_results (case c of Inl e \<Rightarrow> Ret (Inl e) | Inr content \<Rightarrow> svc_bind (read_files i names)
      (\<lambda>r. Ret (case r of Inl e \<Rightarrow> Inl e | Inr fs \<Rightarrow> Inr ((name, content) # fs))))
      (\<lambda>r. case r of Inl _ \<Rightarrow> True | Inr fs \<Rightarrow> map fst fs = name # names)" for c
    by (cases c) (simp_all add: all_results_bind)
  then show ?case by (simp add: all_results_bind all_results_any)
qed simp

section \<open>Every answer is earned\<close>

text \<open>
  A response is fine for a request when the session in its cookie is earned, and when a key in it
  was earned by a recent password and may not be stored.
\<close>

definition fine :: "manager \<Rightarrow> server_request \<Rightarrow> int set \<Rightarrow> int set \<Rightarrow> server_response \<Rightarrow> bool" where
  "fine m q L P r \<longleftrightarrow>
     (\<forall>s. hp_session r = Some s \<longrightarrow> earned m L P s)
   \<and> (reveals_key r \<longrightarrow> (\<exists>t \<in> P. hq_time q - t \<le> mg_reauthTTL m) \<and> hp_cache r = ''no-store, private'')"

lemma fine_error [simp]: "fine m q L P (writeError st c)" "fine m q L P (no_store (writeError st c))"
  by (simp_all add: fine_def writeError_def writeJSON_def no_store_def reveals_key_def)

lemma fine_plain:
  "\<not> reveals_key (writeJSON st b) \<Longrightarrow> fine m q L P (writeJSON st b)"
  "\<not> reveals_key (writeJSON st b) \<Longrightarrow> fine m q L P (no_store (writeJSON st b))"
  by (simp_all add: fine_def writeJSON_def no_store_def reveals_key_def)

lemma plain_bodies [simp]:
  "\<not> reveals_key (writeJSON st (ErrorBody c))" "\<not> reveals_key (writeJSON st NoBody)"
  "\<not> reveals_key (writeJSON st (FilesBody xs))" "\<not> reveals_key (writeJSON st (CertBody v))"
  "\<not> reveals_key (writeJSON st (CertsBody vs))" "\<not> reveals_key (writeJSON st (UserBody u b))"
  "\<not> reveals_key (writeJSON st (AuthBody b))" "\<not> reveals_key (writeJSON st ReauthBody)"
  by (simp_all add: reveals_key_def writeJSON_def)

lemma fine_with_cookie:
  "earned m L P s \<Longrightarrow> fine m q L P r \<Longrightarrow> fine m q L P (with_cookie (s, c) r)"
  by (simp add: fine_def with_cookie_def reveals_key_def)


lemma fine_certificateByID:
  "(\<And>v. all_results (k v) (fine m q L P)) \<Longrightarrow> all_results (certificateByID i k) (fine m q L P)"
  by (auto simp: certificateByID_def split: sum.split)

lemma fine_operation: "fine m q L P (operation_response special failed r)"
  by (auto simp: operation_response_def fine_plain split: sum.split)

lemma fine_serve:
  assumes "fileType = ''private-key'' \<Longrightarrow> \<exists>t \<in> P. hq_time q - t \<le> mg_reauthTTL m"
  shows "all_results (serveCertificateFile m q got i fileType download) (fine m q L P)"
proof -
  have "fine m q L P ((writeJSON 200 (FileBody name content))\<lparr>hp_attachment := a\<rparr>)"
    if "certificateFileName fileType = Some name" "fileType \<noteq> ''private-key''" for name content a
    using that by (auto simp: certificateFileName_def certificateFiles_def fine_def reveals_key_def writeJSON_def
        split: if_splits)
  moreover have "fine m q L P ((writeJSON 200 (FileBody name content))\<lparr>hp_attachment := a, hp_cache := ''no-store, private''\<rparr>)"
    if "fileType = ''private-key''" for name content a
    using assms [OF that] by (simp add: fine_def writeJSON_def)
  ultimately show ?thesis
    by (auto simp: serveCertificateFile_def all_results_bind Let_def intro!: all_results_any
        split: option.split sum.split)
qed

lemma fine_archive:
  assumes "includeKey \<Longrightarrow> \<exists>t \<in> P. hq_time q - t \<le> mg_reauthTTL m"
    and "map fst fs = List.map_filter certificateFileName (archive_types includeKey)"
  shows "fine m q L P ((writeJSON 200 (ArchiveBody fs readme))\<lparr>hp_cache := ''no-store, private'', hp_attachment := a\<rparr>)"
proof (cases includeKey)
  case False
  then have names: "map fst fs = [''cert.pem'', ''chain.pem'', ''fullchain.pem'']"
    using assms(2) by (simp add: archive_types_def certificateFileName_def certificateFiles_def map_filter_simps)
  have "''privkey.pem'' \<notin> set (map fst fs)" unfolding names by simp
  then show ?thesis by (simp add: fine_def writeJSON_def reveals_key_def)
qed (use assms(1) in \<open>simp add: fine_def writeJSON_def\<close>)


lemma fine_deliver:
  assumes "includeKey \<Longrightarrow> \<exists>t \<in> P. hq_time q - t \<le> mg_reauthTTL m"
  shows "all_results (archive_deliver appName m q got v includeKey) (fine m q L P)"
  unfolding archive_deliver_def all_results_bind
  by (rule all_results_mono [OF read_files_names])
    (use fine_archive [OF assms] in \<open>auto simp: Let_def split: sum.splits\<close>)

text \<open>What a request entitles to: a password given again is a recent proof, and so is the mark of one.\<close>

definition recent_proof :: "manager \<Rightarrow> server_request \<Rightarrow> int set \<Rightarrow> bool" where
  "recent_proof m q P \<longleftrightarrow> (\<exists>t \<in> P. hq_time q - t \<le> mg_reauthTTL m)"

definition entitled :: "manager \<Rightarrow> server_request \<Rightarrow> session_result \<Rightarrow> int set \<Rightarrow> int set \<Rightarrow> http_call \<Rightarrow> bool" where
  "entitled m q got L P c \<longleftrightarrow>
     (\<forall>pw s ck. manager_Reauthenticate m (hq_time q) got pw = Inr (s, ck) \<and> given_password c = Some pw \<longrightarrow>
        earned m L P s \<and> recent_proof m q P)
   \<and> (manager_Reauthenticated m (hq_time q) got \<longrightarrow> recent_proof m q P)"

lemma entitledD:
  "entitled m q got L P c \<Longrightarrow> manager_Reauthenticate m (hq_time q) got pw = Inr (s, ck) \<Longrightarrow>
     given_password c = Some pw \<Longrightarrow> earned m L P s"
  "entitled m q got L P c \<Longrightarrow> manager_Reauthenticate m (hq_time q) got pw = Inr (s, ck) \<Longrightarrow>
     given_password c = Some pw \<Longrightarrow> \<exists>t \<in> P. hq_time q - t \<le> mg_reauthTTL m"
  "entitled m q got L P c \<Longrightarrow> manager_Reauthenticated m (hq_time q) got \<Longrightarrow> \<exists>t \<in> P. hq_time q - t \<le> mg_reauthTTL m"
  unfolding entitled_def recent_proof_def by blast+

lemma entitled_request:
  assumes "\<And>s. got = Inr s \<Longrightarrow> earned m L P s" "proves m c \<Longrightarrow> hq_time q \<in> P" "0 \<le> mg_reauthTTL m"
  shows "entitled m q got L P c"
proof -
  have "earned m L P s \<and> recent_proof m q P"
    if "manager_Reauthenticate m (hq_time q) got pw = Inr (s, ck)" "given_password c = Some pw" for s ck pw
  proof -
    have "mg_passwordOK m pw" using that(1) by (auto simp: manager_Reauthenticate_def split: if_splits)
    then have "hq_time q \<in> P" using assms(2) that(2) by (simp add: proves_def)
    with Reauthenticate_earned [OF that(1) this assms(1)] assms(3) show ?thesis
      by (auto simp: recent_proof_def intro!: bexI [of _ "hq_time q"])
  qed
  moreover have "recent_proof m q P" if "manager_Reauthenticated m (hq_time q) got"
    using reauthenticated_proof [OF that assms(1)] by (simp add: recent_proof_def)
  ultimately show ?thesis unfolding entitled_def by blast
qed

lemma fine_logout: "all_results (handle_logout m q got) (fine m q L P)"
  using Logout_earned [of m "hq_time q" _ _ L P]
  by (auto simp: handle_logout_def intro!: fine_with_cookie fine_plain split: sum.split prod.split)

lemma fine_reauthenticate:
  "entitled m q got L P (PostReauthenticate b) \<Longrightarrow> all_results (handle_reauthenticate m q got b) (fine m q L P)"
  by (auto simp: handle_reauthenticate_def intro!: fine_with_cookie fine_plain dest: entitledD
      split: option.split sum.split prod.split)

lemma fine_delete:
  "entitled m q got L P (DeleteCertificate i b) \<Longrightarrow> all_results (handle_deleteCertificate m q got i b) (fine m q L P)"
  by (auto simp: handle_deleteCertificate_def all_results_map intro!: fine_certificateByID
      split: option.split sum.split prod.split)
    (auto intro!: all_results_any fine_with_cookie fine_plain dest: entitledD split: sum.split)

lemma fine_revoke:
  "entitled m q got L P (PostRevoke i b) \<Longrightarrow> all_results (handle_revokeCertificate cfg m q got i b) (fine m q L P)"
  by (auto simp: handle_revokeCertificate_def all_results_map fine_operation intro!: all_results_any fine_with_cookie
      dest: entitledD split: option.split sum.split prod.split service_error.split)

lemma fine_download:
  "entitled m q got L P c \<Longrightarrow> all_results (handle_downloadCertificateFile m q got i ty) (fine m q L P)"
  by (auto simp: handle_downloadCertificateFile_def intro!: fine_serve dest: entitledD)

lemma fine_download_archive:
  assumes "entitled m q got L P (PostArchive i b)"
  shows "all_results (handle_downloadCertificateArchive appName m q got i b) (fine m q L P)"
proof (cases b)
  case (Some ip)
  obtain inc pw where ip: "ip = (inc, pw)" by (cases ip)
  have "all_results (svc_map (with_cookie (s, ck)) (archive_deliver appName m q (Inr s) v True)) (fine m q L P)"
    if "manager_Reauthenticate m (hq_time q) got pw = Inr (s, ck)" inc for s ck v
    unfolding all_results_map
    by (rule all_results_mono [OF fine_deliver [where P = P and L = L]])
      (use entitledD(1,2) [OF assms that(1)] Some ip that(2) in \<open>auto intro: fine_with_cookie\<close>)
  then show ?thesis
    using Some ip
    by (auto simp: handle_downloadCertificateArchive_def intro!: fine_certificateByID fine_deliver split: sum.split)
qed (simp add: handle_downloadCertificateArchive_def)

lemma fine_reveal:
  "entitled m q got L P (PostReveal i b) \<Longrightarrow> all_results (handle_revealPrivateKey m q got i b) (fine m q L P)"
  by (auto simp: handle_revealPrivateKey_def all_results_map fine_def with_cookie_def reveals_key_def
      writeError_def writeJSON_def intro!: all_results_any dest: entitledD split: option.split sum.split prod.split)

lemmas keyless_handlers = handle_me_def handle_listCertificates_def handle_createCertificate_def created_response_def
  handle_getCertificate_def handle_updateCertificate_def handle_issueCertificate_def runCertificateRenewal_def
  handle_forceRenewCertificate_def handle_listCertificateFiles_def handle_auditPrivateKeyCopy_def

lemma fine_protected:
  assumes m: "m = ap_manager ap" and e: "entitled m q got L P c"
  shows "all_results (protected_route ap q got c) (fine m q L P)"
proof (cases c)
  case (GetCertificate i)
  then show ?thesis by (auto simp: keyless_handlers fine_plain intro!: fine_certificateByID)
next
  case (GetFiles i)
  then show ?thesis by (auto simp: keyless_handlers fine_plain intro!: fine_certificateByID split: sum.split)
next
  case (PostCopyAudit i)
  then show ?thesis by (auto simp: keyless_handlers fine_plain intro!: fine_certificateByID)
next
  case (GetFile i ty)
  then show ?thesis by (auto simp: handle_viewCertificateFile_def m [symmetric] intro!: fine_serve)
qed (use e in \<open>auto simp: m [symmetric] fine_logout fine_reauthenticate fine_delete fine_revoke fine_download
    fine_download_archive fine_reveal keyless_handlers all_results_map fine_plain fine_operation
    intro!: all_results_any split: option.split sum.split\<close>)

lemma fine_login:
  assumes "handle_login m q got b l = (prog, l')" and "logs_in m (PostLogin b) \<Longrightarrow> hq_time q \<in> L"
  shows "all_results prog (fine m q L P)"
proof (cases b)
  case (Some up)
  obtain u p where up: "up = (u, p)" by (cases up)
  define a where "a = \<lparr>la_clientKey = hq_client q, la_username = u, la_password = p, la_now = hq_time q, la_later = hq_time q\<rparr>"
  obtain v l1 where v: "authenticate (mg_username m) (mg_passwordOK m) a l = (v, l1)" by fastforce
  show ?thesis
  proof (cases v)
    case (Inl e)
    then show ?thesis using assms(1) v by (auto simp: handle_login_def Some up a_def [symmetric] Let_def)
  next
    case (Inr x)
    with v have "u = mg_username m" "mg_passwordOK m p"
      by (auto simp: authenticate_def a_def Let_def split: prod.splits if_splits)
    then have "hq_time q \<in> L" using assms(2) by (simp add: logs_in_def Some up)
    then have "earned m L P s" if "manager_Login m (hq_time q) got = Inr (s, ck)" for s ck
      using Login_earned [OF that] by blast
    with Inr show ?thesis
      using assms(1) v
      by (auto simp: handle_login_def Some up a_def [symmetric] Let_def intro!: fine_with_cookie fine_plain
          split: sum.splits prod.splits)
  qed
qed (use assms(1) in \<open>auto simp: handle_login_def\<close>)

text \<open>The sessions sent so far are earned by the exchanges so far.\<close>

definition all_earned :: "manager \<Rightarrow> exchange list \<Rightarrow> bool" where
  "all_earned m h \<longleftrightarrow> (\<forall>e \<in> set h. \<forall>s. hp_session (ex_response e) = Some s \<longrightarrow>
     earned m (times_of (logs_in m) h) (times_of (proves m) h) s)"

lemma presented_earned:
  assumes "all_earned m h" "authentic m h q" "store_Get m (hq_time q) (hq_cookie q) = Inr s"
  shows "earned m (times_of (logs_in m) h) (times_of (proves m) h) s"
  using assms
  by (auto simp: store_Get_def authentic_def all_earned_def list_ex_iff split: option.splits)

lemma serve_fine:
  assumes "serve ap env q c sv = (r, sv')" "m = ap_manager ap" "0 \<le> mg_reauthTTL m"
    and "all_earned m h" "authentic m h q"
    and e: "e = \<lparr>ex_request = q, ex_call = c, ex_response = r\<rparr>"
  shows "fine m q (times_of (logs_in m) (h @ [e])) (times_of (proves m) (h @ [e])) r"
proof -
  let ?got = "store_Get m (hq_time q) (hq_cookie q)"
  let ?L = "times_of (logs_in m) (h @ [e])" and ?P = "times_of (proves m) (h @ [e])"
  have got: "earned m ?L ?P s" if "?got = Inr s" for s
    by (rule earned_mono [OF presented_earned [OF assms(4,5) that]]) auto
  have now: "proves m c \<Longrightarrow> hq_time q \<in> ?P" "logs_in m c \<Longrightarrow> hq_time q \<in> ?L" by (simp_all add: e)
  show ?thesis
  proof (cases "\<exists>b. c = PostLogin b")
    case True
    then obtain b prog l w where c: "c = PostLogin b" and l: "handle_login m q ?got b (sv_limiter sv) = (prog, l)"
      and run: "run_svc env prog (sv_world sv) = (r, w)"
      using assms(1,2) by (auto simp: serve_def Let_def split: prod.splits)
    show ?thesis by (rule all_results_run [OF fine_login [OF l] run]) (use now c in simp)
  next
    case False
    then obtain w where run: "run_svc env (requireAuth m q ?got (protected_route ap q ?got c)) (sv_world sv) = (r, w)"
      using assms(1,2) by (cases c) (auto simp: serve_def Let_def split: prod.splits)
    have "all_results (requireAuth m q ?got (protected_route ap q ?got c)) (fine m q ?L ?P)"
      using fine_protected [OF assms(2) entitled_request [OF got now(1) assms(3)]] by (simp add: requireAuth_def)
    from all_results_run [OF this run] show ?thesis .
  qed
qed

lemma serve_all_snoc:
  "serve_all ap env (qs @ [(q, c)]) s =
     (case serve_all ap env qs s of (h, s') \<Rightarrow> case serve ap env q c s' of (r, s'') \<Rightarrow>
        (h @ [\<lparr>ex_request = q, ex_call = c, ex_response = r\<rparr>], s''))"
  by (induction qs arbitrary: s) (auto split: prod.splits)

lemma serve_all_exchange:
  assumes "serve_all ap env qs s = (h, s')" "n < length h"
  shows "\<exists>sv sv'. serve ap env (ex_request (h ! n)) (ex_call (h ! n)) sv = (ex_response (h ! n), sv')"
  using assms
proof (induction qs arbitrary: h s' rule: rev_induct)
  case (snoc x qs)
  obtain q c where x: "x = (q, c)" by (cases x)
  from snoc.prems(1) obtain h1 s1 r where h1: "serve_all ap env qs s = (h1, s1)" "serve ap env q c s1 = (r, s')"
    and h: "h = h1 @ [\<lparr>ex_request = q, ex_call = c, ex_response = r\<rparr>]"
    by (auto simp: x serve_all_snoc split: prod.splits)
  show ?case
  proof (cases "n < length h1")
    case True
    with snoc.IH [OF h1(1)] show ?thesis by (simp add: h nth_append)
  qed (use snoc.prems(2) h1(2) in \<open>auto simp: h nth_append less_Suc_eq\<close>)
qed simp

lemma history_earned:
  assumes "serve_all ap env qs s = (h, s')" "m = ap_manager ap" "0 \<le> mg_reauthTTL m" "cookies_authentic m h"
    and "n \<le> length h"
  shows "all_earned m (take n h)"
  using assms(5)
proof (induction n)
  case (Suc n)
  let ?e = "h ! n"
  have n: "n < length h" using Suc.prems by simp
  then have take: "take (Suc n) h = take n h @ [?e]" by (rule take_Suc_conv_app_nth)
  have IH: "all_earned m (take n h)" using Suc by simp
  have auth: "authentic m (take n h) (ex_request ?e)" using assms(4) n by (simp add: cookies_authentic_def list_all_iff)
  obtain sv sv' where "serve ap env (ex_request ?e) (ex_call ?e) sv = (ex_response ?e, sv')"
    using serve_all_exchange [OF assms(1) n] by blast
  from serve_fine [OF this assms(2,3) IH auth, of ?e]
  have "fine m (ex_request ?e) (times_of (logs_in m) (take (Suc n) h)) (times_of (proves m) (take (Suc n) h)) (ex_response ?e)"
    by (simp add: take)
  moreover have "earned m (times_of (logs_in m) (take (Suc n) h)) (times_of (proves m) (take (Suc n) h)) s"
    if "e \<in> set (take n h)" "hp_session (ex_response e) = Some s" for e s
    by (rule earned_mono [of m "times_of (logs_in m) (take n h)" "times_of (proves m) (take n h)"])
      (use IH that in \<open>auto simp: all_earned_def take\<close>)
  ultimately show ?case unfolding all_earned_def fine_def by (auto simp: take)
qed (simp add: all_earned_def)

lemma times_of_nth:
  assumes "t \<in> times_of f (take n h)" and "n \<le> length h"
  shows "\<exists>k < n. t = hq_time (ex_request (h ! k)) \<and> f (ex_call (h ! k))"
  using assms by (auto simp: times_of_def in_set_conv_nth)

lemma serve_unauthenticated:
  assumes "serve ap env q c s = (r, s')" "\<forall>b. c \<noteq> PostLogin b" "m = ap_manager ap"
    and "manager_CurrentUser m (hq_time q) (store_Get m (hq_time q) (hq_cookie q)) = None"
  shows "r = writeError 401 ''AUTH_REQUIRED'' \<and> s' = s"
  using assms by (cases c) (auto simp: serve_def Let_def requireAuth_def)

section \<open>Claims\<close>

text \<open>
  C3. A response contains a private key, as a file or in an archive, only if the administrator's
  password was given in that request or in an earlier one at most the reauthentication time (five minutes)
  before; and such a response forbids storing it. This holds for every sequence of requests, every
  state of the server and every answer of the database, the files and the engines, provided that
  cookies cannot be forged.
\<close>

theorem private_key_needs_recent_password:
  assumes "m = newManager username passwordOK cs sessionTTL" and "ap_manager ap = m"
    and "serve_all ap env qs s = (h, s')" and "cookies_authentic m h"
    and "n < length h" and "reveals_key (ex_response (h ! n))"
  shows "(\<exists>k \<le> n. (\<exists>p. given_password (ex_call (h ! k)) = Some p \<and> passwordOK p)
      \<and> hq_time (ex_request (h ! n)) - hq_time (ex_request (h ! k)) \<le> 5 * go_minute)
    \<and> hp_cache (ex_response (h ! n)) = ''no-store, private''"
proof -
  let ?e = "h ! n"
  have m: "mg_passwordOK m = passwordOK" "mg_reauthTTL m = 5 * go_minute" "0 \<le> mg_reauthTTL m"
    using assms(1) by (simp_all add: newManager_def go_minute_def)
  have earned: "all_earned m (take n h)"
    using history_earned [OF assms(3) assms(2) [symmetric] m(3) assms(4)] assms(5) by simp
  have auth: "authentic m (take n h) (ex_request ?e)"
    using assms(4,5) by (simp add: cookies_authentic_def list_all_iff)
  obtain sv sv' where "serve ap env (ex_request ?e) (ex_call ?e) sv = (ex_response ?e, sv')"
    using serve_all_exchange [OF assms(3,5)] by blast
  from serve_fine [OF this assms(2) [symmetric] m(3) earned auth, of ?e] assms(6)
  obtain t where t: "t \<in> times_of (proves m) (take (Suc n) h)" "hq_time (ex_request ?e) - t \<le> 5 * go_minute"
    and cache: "hp_cache (ex_response ?e) = ''no-store, private''"
    by (auto simp: fine_def m(2) take_Suc_conv_app_nth [OF assms(5)])
  from times_of_nth [OF t(1)] assms(5) obtain k where "k < Suc n" "t = hq_time (ex_request (h ! k))" "proves m (ex_call (h ! k))"
    by auto
  with t(2) cache show ?thesis by (auto simp: proves_def m(1) less_Suc_eq_le split: option.splits)
qed


section \<open>A concrete server\<close>

definition sample_sessions :: "admin_session list" where
  "sample_sessions = new_session # map (\<lambda>r. \<lparr>se_authenticated = True, se_username = ''admin'', se_created_at = 1,
     se_reauth_at = r\<rparr>) [None, Some 1]"

definition sample_encode :: "admin_session \<Rightarrow> string" where
  "sample_encode s = (if se_authenticated s then ''A'' else ''N'') @ (if se_reauth_at s = None then [] else ''R'')"

text \<open>A cookie store for the sessions that occur below.\<close>

definition sample_store :: cookie_store where
  "sample_store = \<lparr>cs_decode = (\<lambda>_ c. List.find (\<lambda>s. sample_encode s = c) sample_sessions),
     cs_encode = (\<lambda>_ s. if s \<in> set sample_sessions then Some (sample_encode s) else None)\<rparr>"

definition sample_app :: app where
  "sample_app = \<lparr>ap_name = ''CertMate'',
     ap_manager = newManager ''admin'' (\<lambda>p. p = ''pw'') sample_store (3600 * go_second), ap_service = plain_config\<rparr>"

definition sample_visit :: "(server_request \<times> http_call) list" where
  "sample_visit =
     [(\<lparr>hq_cookie = None, hq_time = go_second, hq_client = ''ip''\<rparr>, PostLogin (Some (''admin'', ''pw''))),
      (\<lparr>hq_cookie = Some ''A'', hq_time = go_second + 1, hq_client = ''ip''\<rparr>, PostReauthenticate (Some ''pw'')),
      (\<lparr>hq_cookie = Some ''AR'', hq_time = go_second + 2, hq_client = ''ip''\<rparr>, GetFileDownload ''c'' ''private-key'')]"

definition sample_history :: "exchange list" where
  "sample_history = fst (serve_all sample_app steady sample_visit \<lparr>sv_limiter = newLoginLimiter, sv_world = sample_world\<rparr>)"

definition sample_history_check :: "exchange list \<Rightarrow> bool" where
  "sample_history_check h \<longleftrightarrow> cookies_authentic (ap_manager sample_app) h \<and> 2 < length h \<and> reveals_key (ex_response (h ! 2))
     \<and> hp_status (ex_response (h ! 2)) \<noteq> 401 \<and> (case ex_call (h ! 2) of PostLogin _ \<Rightarrow> False | _ \<Rightarrow> True)"

lemma sample_history_checked: "sample_history_check sample_history"
  by code_simp

lemma sample_history_facts:
  "cookies_authentic (ap_manager sample_app) sample_history" "2 < length sample_history"
  "reveals_key (ex_response (sample_history ! 2))" "hp_status (ex_response (sample_history ! 2)) \<noteq> 401"
  "\<forall>b. ex_call (sample_history ! 2) \<noteq> PostLogin b"
  using sample_history_checked by (auto simp: sample_history_check_def)

lemma sample_history_run:
  "\<exists>s'. serve_all sample_app steady sample_visit \<lparr>sv_limiter = newLoginLimiter, sv_world = sample_world\<rparr> = (sample_history, s')"
  by (simp add: sample_history_def prod_eq_iff)

theorem private_key_needs_recent_password_witness:
  "reveals_key (ex_response (sample_history ! 2))
   \<and> (\<exists>k \<le> 2. (\<exists>p. given_password (ex_call (sample_history ! k)) = Some p \<and> p = ''pw'')
        \<and> hq_time (ex_request (sample_history ! 2)) - hq_time (ex_request (sample_history ! k)) \<le> 5 * go_minute)"
proof -
  obtain s' where run: "serve_all sample_app steady sample_visit \<lparr>sv_limiter = newLoginLimiter, sv_world = sample_world\<rparr> = (sample_history, s')"
    using sample_history_run by blast
  have m: "ap_manager sample_app = newManager ''admin'' (\<lambda>p. p = ''pw'') sample_store (3600 * go_second)"
    by (simp add: sample_app_def)
  from private_key_needs_recent_password [OF m refl run sample_history_facts(1-3)] sample_history_facts(3) show ?thesis by blast
qed


end
