(* ===== verification/Service_Renewal.thy ===== *)
theory Service_Renewal
  imports Service_Safety
begin

text \<open>
  What a renewal does, operation by operation, when it runs alone and the database and the file
  system work: the outcome of \<open>Renew\<close> on every branch, and what the retries of the renewal scan
  amount to.
\<close>

section \<open>Undisturbed runs\<close>

definition faultless :: "environment \<Rightarrow> bool" where
  "faultless env \<longleftrightarrow> (\<forall>t. en_fault env t = NoFault)"

lemma faultlessD [simp]: "faultless env \<Longrightarrow> en_fault env t = NoFault"
  by (simp add: faultless_def)

primrec engine_calls :: "environment \<Rightarrow> 'a svc \<Rightarrow> world \<Rightarrow> nat" where
  "engine_calls env (Ret v) w = 0"
| "engine_calls env (Act a k) w =
     (case a of CallEngine _ _ \<Rightarrow> 1 | _ \<Rightarrow> 0) + (let (r, w') = perform env a w in engine_calls env (k r) w')"

lemma engine_calls_bind:
  "engine_calls env (svc_bind m f) w =
     engine_calls env m w + (case run_svc env m w of (v, w') \<Rightarrow> engine_calls env (f v) w')"
  by (induction m arbitrary: w) (auto simp: split_beta)

lemma row_of_other [simp]:
  "row_of (w\<lparr>wd_jobs := js\<rparr>) i = row_of w i" "row_of (w\<lparr>wd_audit := as\<rparr>) i = row_of w i"
  "row_of (w\<lparr>wd_files := fs\<rparr>) i = row_of w i" "row_of (w\<lparr>wd_held := hs\<rparr>) i = row_of w i"
  "row_of (w\<lparr>wd_locks := ls\<rparr>) i = row_of w i" "row_of (w\<lparr>wd_mutexes := n\<rparr>) i = row_of w i"
  by (simp_all add: row_of_def)

lemma upd_cert_jobs [simp]: "wd_jobs (upd_cert i f w) = wd_jobs w"
  by (simp add: upd_cert_def)

text \<open>The last job, which a renewal starts, has ended with the given status.\<close>

definition last_job :: "world \<Rightarrow> string \<Rightarrow> string \<Rightarrow> bool" where
  "last_job w jid st \<longleftrightarrow> wd_jobs w \<noteq> [] \<and> jb_ID (last (wd_jobs w)) = jid \<and> jb_Status (last (wd_jobs w)) = st"

lemma last_job_cong: "wd_jobs w' = wd_jobs w \<Longrightarrow> last_job w' jid st = last_job w jid st"
  by (simp add: last_job_def)

lemma last_job_finish: "last_job w jid st0 \<Longrightarrow> last_job (store_FinishJob jid st ex out msg now w) jid st"
  by (simp add: last_job_def store_FinishJob_def last_map)

lemma finish_job_sel [simp]:
  "row_of (store_FinishJob jid st ex out msg now w) i = row_of w i"
  "wd_files (store_FinishJob jid st ex out msg now w) = wd_files w"
  "wd_held (store_FinishJob jid st ex out msg now w) = wd_held w"
  by (simp_all add: store_FinishJob_def)

text \<open>
  The outcome of the part of a renewal or issue that runs under the lock, from the world \<open>w\<close> in
  which the row of \<open>i\<close> is marked and the job \<open>jid\<close> is running.
\<close>

definition outcome ::
  "service_config \<Rightarrow> string \<Rightarrow> string \<Rightarrow> string \<Rightarrow> world \<Rightarrow> service_error + cert_row \<Rightarrow> world \<Rightarrow> bool" where
  "outcome cfg i d jid w v w' \<longleftrightarrow>
     wd_held w' = wd_held w \<and> (\<forall>j. j \<noteq> i \<longrightarrow> row_of w' j = row_of w j)
     \<and> (case v of
          Inr r \<Rightarrow> row_of w' i = Some r \<and> nc_Status r = StatusActive \<and> last_job w' jid ''succeeded''
            \<and> (\<exists>p. wd_files w' = (wd_files w)(d \<mapsto> p) \<and> payload_complete p \<and> row_records r p)
        | Inl e \<Rightarrow> wd_files w' = wd_files w \<and> last_job w' jid ''failed''
            \<and> (\<exists>r. row_of w' i = Some r \<and> nc_Status r = StatusFailed \<and> cr_LastError r = safeError cfg e))"

lemma outcome_same:
  assumes "row_of w1 = row_of w" "wd_files w1 = wd_files w" "wd_held w1 = wd_held w"
  shows "outcome cfg i d jid w1 = outcome cfg i d jid w"
  by (intro ext) (simp only: outcome_def assms)

definition under_way :: "world \<Rightarrow> cert_row \<Rightarrow> string \<Rightarrow> bool" where
  "under_way w v jid \<longleftrightarrow> row_of w (cr_ID v) \<noteq> None \<and> last_job w jid ''running''"

lemma under_way_same:
  "row_of w1 = row_of w \<Longrightarrow> wd_jobs w1 = wd_jobs w \<Longrightarrow> under_way w1 v jid = under_way w v jid"
  by (simp add: under_way_def last_job_def)

section \<open>Rules\<close>

text \<open>
  \<open>ends env m w Q\<close> says that the program \<open>m\<close>, run alone from \<open>w\<close>, ends with a result and a world in \<open>Q\<close>.
  The rules forget the clock and the audit records.
\<close>

definition ends :: "environment \<Rightarrow> 'a svc \<Rightarrow> world \<Rightarrow> ('a \<Rightarrow> world \<Rightarrow> bool) \<Rightarrow> bool" where
  "ends env m w Q \<longleftrightarrow> (case run_svc env m w of (v, w') \<Rightarrow> Q v w')"

lemma ends_Ret [simp]: "ends env (Ret v) w Q \<longleftrightarrow> Q v w"
  by (simp add: ends_def)

lemma ends_Act:
  "ends env (Act a k) w Q \<longleftrightarrow> (case perform_action env a w of (r, w') \<Rightarrow> ends env (k r) (w'\<lparr>wd_tick := Suc (wd_tick w')\<rparr>) Q)"
  by (simp add: ends_def perform_def split_beta)

lemma ends_bind: "ends env (svc_bind m f) w Q \<longleftrightarrow> ends env m w (\<lambda>v w'. ends env (f v) w' Q)"
  by (simp add: ends_def run_svc_bind split: prod.splits)

lemma ends_audit:
  assumes "\<And>as n. ends env m (w\<lparr>wd_audit := as, wd_tick := n\<rparr>) Q"
  shows "ends env (ignored (audit_action cid ev actor ip res det) m) w Q"
proof -
  have "\<exists>as n. w\<lparr>wd_tick := t\<rparr> = w\<lparr>wd_audit := as, wd_tick := n\<rparr>" for t
    by (rule exI [of _ "wd_audit w"]) (cases w, auto)
  then show ?thesis
    using assms unfolding ignored_def ends_Act audit_action_def
    by (auto simp: store_CreateAuditEvent_def split: prod.splits) metis+
qed

lemma ends_finish:
  assumes "faultless env" and "\<And>now n. ends env m (store_FinishJob jid st ex out msg now w\<lparr>wd_tick := n\<rparr>) Q"
  shows "ends env (ignored (FinishJob jid st ex out msg) m) w Q"
  using assms by (simp add: ignored_def ends_Act)

lemma ends_MarkFailed:
  assumes "faultless env" and "\<And>now n. ends env m (upd_cert i (marked_failed msg now) w\<lparr>wd_tick := n\<rparr>) Q"
  shows "ends env (ignored (MarkFailed i msg) m) w Q"
  using assms by (simp add: ignored_def ends_Act)

lemma ends_marking:
  assumes "faultless env" "marking mark"
    and "\<And>now n. ends env m (upd_cert (cr_ID v) (marked_issued v now) w\<lparr>wd_tick := n\<rparr>) Q"
    and "\<And>now n. ends env m (upd_cert (cr_ID v) (marked_renewed v now) w\<lparr>wd_tick := n\<rparr>) Q"
  shows "ends env (checked (mark v) m) w Q"
  using assms by (auto simp: checked_def ends_Act marking_def ok_reply_def)

lemma ends_return_row:
  assumes "faultless env" and "row_of w i = Some r" and "\<And>n. Q (Inr r) (w\<lparr>wd_tick := n\<rparr>)"
  shows "ends env (return_row i) w Q"
  using assms by (simp add: return_row_def ends_Act row_of_def)

lemma world_simps [simp]:
  "last_job (w\<lparr>wd_tick := n\<rparr>) jid st = last_job w jid st" "last_job (w\<lparr>wd_audit := as\<rparr>) jid st = last_job w jid st"
  "last_job (w\<lparr>wd_files := fs\<rparr>) jid st = last_job w jid st" "last_job (upd_cert i f w) jid st = last_job w jid st"
  "last_job (w\<lparr>wd_held := hs\<rparr>) jid st = last_job w jid st"
  by (simp_all add: last_job_def)

section \<open>Under the lock\<close>

lemma outcome_failRenewal:
  assumes "faultless env" "under_way w v jid"
  shows "ends env (failRenewal cfg v jid ex out e ev actor ip) w (outcome cfg (cr_ID v) d jid w)"
  unfolding failRenewal_def using assms
  by (intro ends_finish ends_MarkFailed ends_audit)
    (auto simp: outcome_def under_way_def marked_failed_def intro: last_job_finish)

lemma base_tick [simp]:
  "outcome cfg i d jid (w\<lparr>wd_tick := n\<rparr>) = outcome cfg i d jid w"
  "under_way (w\<lparr>wd_tick := n\<rparr>) v jid = under_way w v jid"
  by (rule outcome_same, simp_all add: fun_eq_iff) (rule under_way_same, simp_all add: fun_eq_iff)

lemma outcome_published:
  assumes "faultless env" "marking mark" "under_way w v jid" "payload_complete (payload_of v x now)"
  shows "ends env (checked (mark (with_issued v x))
      (ignored (FinishJob jid ''succeeded'' ex out [])
        (ignored (audit_action cid ev actor ip ''succeeded'' det) (return_row (cr_ID v)))))
    (w\<lparr>wd_files := (wd_files w)(d \<mapsto> payload_of v x now), wd_tick := n\<rparr>) (outcome cfg (cr_ID v) d jid w)"
proof -
  obtain r where r: "row_of w (cr_ID v) = Some r" and job: "last_job w jid ''running''"
    using assms(3) by (auto simp: under_way_def)
  have id: "cr_ID r = cr_ID v" using r by (auto simp: row_of_def dest: find_row_id)
  have rec: "row_records (marked_issued (with_issued v x) t r) (payload_of v x now)"
    "row_records (marked_renewed (with_issued v x) t r) (payload_of v x now)" for t
    using id by (simp_all add: row_records_marked row_records_issued)
  have st: "nc_Status (marked_issued (with_issued v x) t r) = StatusActive"
    "nc_Status (marked_renewed (with_issued v x) t r) = StatusActive" for t
    by (simp_all add: marked_issued_def marked_renewed_def)
  show ?thesis
    by (rule ends_marking [OF assms(1,2)]; intro ends_finish [OF assms(1)] ends_audit ends_return_row [OF assms(1)])
      (use r rec st job assms(4) in \<open>auto simp: outcome_def intro: last_job_finish\<close>)
qed

lemma outcome_publish_result:
  assumes "faultless env" "marking mark" "under_way w v jid"
  shows "ends env (publish_result cfg mark v jid x ev actor ip) w
    (outcome cfg (cr_ID v) (nc_OutputDirectory v) jid w)"
proof (cases "validateSafeDirectory (nc_OutputDirectory v) \<and> payload_complete (payload_of v x (en_now env (wd_tick w)))")
  case True
  then show ?thesis
    using outcome_published [OF assms] assms(1) by (simp add: publish_result_def ends_Act ok_reply_def)
next
  case False
  then show ?thesis
    using outcome_failRenewal [OF assms(1), of "w\<lparr>wd_tick := Suc (Suc (Suc (wd_tick w)))\<rparr>" v jid] assms
    by (auto simp: publish_result_def ends_Act ok_reply_def err_reply_def)
qed

lemma outcome_engine_result:
  assumes "faultless env" "marking mark" "under_way w v jid"
  shows "ends env (engine_result cfg mark v jid call n c f ev actor ip) w
    (outcome cfg (cr_ID v) (nc_OutputDirectory v) jid w)"
proof -
  let ?w = "w\<lparr>wd_tick := Suc (wd_tick w)\<rparr>"
  have "under_way ?w v jid" using assms(3) by simp
  with outcome_failRenewal [OF assms(1) this] outcome_publish_result [OF assms(1,2) this] show ?thesis
    by (auto simp: engine_result_def ends_Act ok_reply_def split: sum.splits option.splits)
qed

lemma outcome_acme_values:
  assumes "faultless env" "under_way w v jid"
    and "\<And>pv n. ends env (k pv) (w\<lparr>wd_tick := n\<rparr>) (outcome cfg (cr_ID v) d jid w)"
  shows "ends env (acme_values cfg strict v jid ev actor ip k) w (outcome cfg (cr_ID v) d jid w)"
proof -
  let ?w = "w\<lparr>wd_tick := Suc (wd_tick w)\<rparr>"
  have "under_way ?w v jid" using assms(2) by simp
  moreover have "w\<lparr>wd_tick := wd_tick w\<rparr> = w" by simp
  then have "ends env (k pv) w (outcome cfg (cr_ID v) d jid w)" for pv using assms(3) [of pv "wd_tick w"] by simp
  ultimately show ?thesis
    using outcome_failRenewal [OF assms(1,2)] outcome_failRenewal [OF assms(1), of ?w v jid] assms(3)
    by (auto simp: acme_values_def ends_Act ok_reply_def split: option.splits)
qed

lemma outcome_renew_with_engine:
  assumes "faultless env" "under_way w v jid"
  shows "ends env (renew_with_engine cfg force v jid ev actor ip) w
    (outcome cfg (cr_ID v) (nc_OutputDirectory v) jid w)"
proof -
  have e: "ends env (engine_result cfg MarkRenewed v jid call n c f ev actor ip) (w\<lparr>wd_tick := t\<rparr>)
      (outcome cfg (cr_ID v) (nc_OutputDirectory v) jid w)" for call n c f t
    using outcome_engine_result [OF assms(1), of MarkRenewed "w\<lparr>wd_tick := t\<rparr>" v jid] assms(2)
    by (simp add: marking_def)
  have "w\<lparr>wd_tick := wd_tick w\<rparr> = w" by simp
  then have e0: "ends env (engine_result cfg MarkRenewed v jid call n c f ev actor ip) w
      (outcome cfg (cr_ID v) (nc_OutputDirectory v) jid w)" for call n c f
    using e [of _ _ _ _ "wd_tick w"] by simp
  show ?thesis
    using outcome_failRenewal [OF assms] outcome_acme_values [OF assms e] e0
    by (simp add: renew_with_engine_def)
qed

section \<open>Renewing\<close>

text \<open>
  The outcome of \<open>Renew\<close> for the certificate \<open>i\<close>: it was refused and nothing changed; it succeeded; it
  failed; or its job could not be recorded.
\<close>

definition renew_outcome ::
  "service_config \<Rightarrow> string \<Rightarrow> world \<Rightarrow> service_error + cert_row \<Rightarrow> world \<Rightarrow> bool" where
  "renew_outcome cfg i w v w' \<longleftrightarrow>
     wd_held w' = wd_held w \<and> (\<forall>j. j \<noteq> i \<longrightarrow> row_of w' j = row_of w j)
   \<and> (case v of
        Inr r \<Rightarrow> row_of w' i = Some r \<and> nc_Status r = StatusActive \<and> (\<exists>jid. last_job w' jid ''succeeded'')
          \<and> (\<exists>v p. row_of w i = Some v \<and> renewAllowed (nc_Status v) \<and> payload_complete p \<and> row_records r p
               \<and> wd_files w' = (wd_files w)(nc_OutputDirectory v \<mapsto> p))
      | Inl e \<Rightarrow> wd_files w' = wd_files w \<and>
          (row_of w' i = row_of w i \<and> wd_jobs w' = wd_jobs w
             \<and> (e = ErrNotFound \<and> row_of w i = None \<or> e = ErrOperationRunning
                \<or> e = ErrRenewNotAllowed \<and> (\<exists>v. row_of w i = Some v \<and> \<not> renewAllowed (nc_Status v)))
           \<or> (\<exists>r jid. row_of w' i = Some r \<and> nc_Status r = StatusFailed \<and> cr_LastError r = safeError cfg e
                \<and> last_job w' jid ''failed'')
           \<or> e = ErrStore \<and> wd_jobs w' = wd_jobs w \<and> (\<exists>r. row_of w' i = Some r \<and> nc_Status r = StatusRenewing)))"

lemma ends_mono: "ends env m w Q \<Longrightarrow> (\<And>v w'. Q v w' \<Longrightarrow> R v w') \<Longrightarrow> ends env m w R"
  by (auto simp: ends_def)

lemma ends_with_lock:
  assumes "\<And>ls k n. Q (Inl ErrOperationRunning) (w\<lparr>wd_locks := ls, wd_mutexes := k, wd_tick := n\<rparr>)"
    and "\<And>ls k m n. m \<notin> set (wd_held w) \<Longrightarrow>
      ends env body (w\<lparr>wd_locks := ls, wd_mutexes := k, wd_held := m # wd_held w, wd_tick := n\<rparr>)
        (\<lambda>v w'. \<forall>n. Q v (w'\<lparr>wd_held := filter (\<lambda>h. h \<noteq> m) (wd_held w'), wd_tick := n\<rparr>))"
  shows "ends env (with_lock i body) w Q"
proof -
  obtain m ls k where load: "perform_action env (LoadOrStoreLock i) w =
      (ok_reply\<lparr>re_mutex := m\<rparr>, w\<lparr>wd_locks := ls, wd_mutexes := k\<rparr>)"
    by (cases "wd_locks w i") (auto, metis world.surjective world.update_convs(5,7))
  show ?thesis
  proof (cases "m \<in> set (wd_held w)")
    case True
    then show ?thesis using assms(1) by (simp add: with_lock_def ends_Act load [unfolded perform_action.simps] ok_reply_def)
  next
    case False
    have "ends env body (w\<lparr>wd_locks := ls, wd_mutexes := k, wd_held := m # wd_held w, wd_tick := Suc (Suc (wd_tick w))\<rparr>)
        (\<lambda>v w'. \<forall>n. Q v (w'\<lparr>wd_held := filter (\<lambda>h. h \<noteq> m) (wd_held w'), wd_tick := n\<rparr>))"
      by (rule assms(2) [OF False])
    then have "ends env body (w\<lparr>wd_locks := ls, wd_mutexes := k, wd_held := m # wd_held w, wd_tick := Suc (Suc (wd_tick w))\<rparr>)
        (\<lambda>v w'. ends env (Act (Unlock m) (\<lambda>_. Ret v)) w' Q)"
      by (rule ends_mono) (simp add: ends_Act)
    then show ?thesis
      using False
      by (simp add: with_lock_def ends_Act load [unfolded perform_action.simps] ok_reply_def unlocking_def ends_bind)
  qed
qed

lemma renewExisting_outcome:
  assumes "faultless env" and row: "row_of w i = Some v"
  shows "ends env (renewExistingCertificate cfg force v i jt ev actor ip) w (renew_outcome cfg i w)"
proof (cases "renewAllowed (nc_Status v)")
  case True
  let ?f = "with_status StatusRenewing (en_now env (wd_tick w))"
  let ?w = "upd_cert i ?f w\<lparr>wd_tick := Suc (wd_tick w)\<rparr>"
  have id: "cr_ID v = i" using row by (auto simp: row_of_def dest: find_row_id)
  have "ends env (renew_with_engine cfg force v jid ev actor ip) (?w\<lparr>wd_jobs := wd_jobs w @ [j], wd_tick := n\<rparr>)
      (renew_outcome cfg i w)" if "jb_ID j = jid" "jb_Status j = ''running''" for jid j n
  proof (rule ends_mono [OF outcome_renew_with_engine [OF assms(1)]])
    show "under_way (?w\<lparr>wd_jobs := wd_jobs w @ [j], wd_tick := n\<rparr>) v jid"
      using row id that by (simp add: under_way_def last_job_def)
  qed (use row id True in \<open>auto simp: outcome_def renew_outcome_def split: sum.splits\<close>)
  then show ?thesis
    using assms True row
    by (auto simp: renewExistingCertificate_def checked_def ends_Act ok_reply_def err_reply_def store_CreateJob_def
        renew_outcome_def Let_def split: option.splits)
qed (use row in \<open>simp add: renewExistingCertificate_def renew_outcome_def\<close>)

lemma issueExisting_outcome:
  assumes "faultless env" "jt \<noteq> ''issue''"
  shows "ends env (issueExisting cfg i force jt ev actor ip) w (renew_outcome cfg i w)"
proof (cases "row_of w i")
  case None
  then show ?thesis using assms(1) by (simp add: issueExisting_def get_row_def ends_Act row_of_def renew_outcome_def)
next
  case (Some v)
  have get: "ends env (get_row i f) w Q \<longleftrightarrow> ends env (f v) (w\<lparr>wd_tick := Suc (wd_tick w)\<rparr>) Q" for f Q
    using Some assms(1) by (simp add: get_row_def ends_Act row_of_def)
  show ?thesis
    unfolding issueExisting_def get
  proof (rule ends_with_lock, goal_cases)
    case (2 ls k m n)
    let ?w = "w\<lparr>wd_locks := ls, wd_mutexes := k, wd_held := m # wd_held w, wd_tick := n\<rparr>"
    have "ends env (renewExistingCertificate cfg force v i jt ev actor ip) ?w (renew_outcome cfg i ?w)"
      using Some by (intro renewExisting_outcome assms) simp
    then have "ends env (renewExistingCertificate cfg force v i jt ev actor ip) ?w
        (\<lambda>v w'. \<forall>n. renew_outcome cfg i w v (w'\<lparr>wd_held := filter (\<lambda>h. h \<noteq> m) (wd_held w'), wd_tick := n\<rparr>))"
      by (rule ends_mono) (use 2 in \<open>auto simp: renew_outcome_def filter_id_conv split: sum.splits\<close>)
    then show ?case using assms(2) by simp
  qed (use Some in \<open>simp add: renew_outcome_def\<close>)
qed

lemma Renew_outcome: "faultless env \<Longrightarrow> ends env (service_Renew cfg i force actor ip) w (renew_outcome cfg i w)"
  by (simp add: service_Renew_def issueExisting_outcome)


definition renew_sample :: "(service_error + cert_row) svc" where
  "renew_sample = service_Renew plain_config ''c'' False ''admin'' ''ip''"


section \<open>Retries\<close>

primrec calls_at_most :: "nat \<Rightarrow> 'a svc \<Rightarrow> bool" where
  "calls_at_most n (Ret v) = True"
| "calls_at_most n (Act a k) =
     (case a of CallEngine _ _ \<Rightarrow> n \<noteq> 0 \<and> (\<forall>r. calls_at_most (n - 1) (k r)) | _ \<Rightarrow> \<forall>r. calls_at_most n (k r))"

lemma calls_at_most_bound: "calls_at_most n m \<Longrightarrow> engine_calls env m w \<le> n"
proof (induction m arbitrary: n w)
  case (Act a k)
  obtain r w' where p: "perform env a w = (r, w')" by (cases "perform env a w")
  show ?case
  proof (cases "\<exists>i c. a = CallEngine i c")
    case True
    with Act.prems have "n \<noteq> 0" "calls_at_most (n - 1) (k r)" by auto
    with Act.IH [of "k r" "n - 1" w'] True p show ?thesis by auto
  next
    case False
    then have "calls_at_most n (k r)" using Act.prems by (cases a) auto
    with Act.IH [of "k r" n w'] False p show ?thesis by (cases a) auto
  qed
qed simp

lemma calls_bind: "calls_at_most n m \<Longrightarrow> (\<And>v. calls_at_most 0 (f v)) \<Longrightarrow> calls_at_most n (svc_bind m f)"
proof (induction m arbitrary: n)
  case (Ret v)
  have "calls_at_most n m" if "calls_at_most 0 m" for n and m :: "'b svc"
    using that by (induction m) (auto split: action.splits)
  with Ret show ?case by simp
next
  case (Act a k)
  then show ?case by (cases a) auto
qed

lemma calls_failRenewal [simp]: "calls_at_most n (failRenewal cfg v jid ex out e ev actor ip)"
  by (simp add: failRenewal_def ignored_def audit_action_def)

lemma calls_publish_result: "marking mark \<Longrightarrow> calls_at_most n (publish_result cfg mark v jid x ev actor ip)"
  by (auto simp: publish_result_def checked_def ignored_def audit_action_def return_row_def marking_def
      split: option.splits)

lemma calls_engine_result: "marking mark \<Longrightarrow> calls_at_most (Suc 0) (engine_result cfg mark v jid call n c f ev actor ip)"
  by (auto simp: engine_result_def calls_publish_result split: sum.splits option.splits)

lemma calls_renewExisting: "calls_at_most (Suc 0) (renewExistingCertificate cfg force v i jt ev actor ip)"
  by (auto simp: renewExistingCertificate_def checked_def renew_with_engine_def acme_values_def
      calls_engine_result marking_def split: option.splits sum.splits)

lemma calls_renew_path:
  assumes "jt \<noteq> ''issue''"
  shows "calls_at_most (Suc 0) (issueExisting cfg i force jt ev actor ip)"
proof -
  have "calls_at_most (Suc 0) (with_lock i (renewExistingCertificate cfg force v i jt ev actor ip))" for v
    using calls_renewExisting by (auto simp: with_lock_def unlocking_def intro!: calls_bind)
  with assms show ?thesis by (auto simp: issueExisting_def get_row_def split: sum.splits)
qed

lemma calls_Renew: "calls_at_most (Suc 0) (service_Renew cfg i force actor ip)"
  by (simp add: service_Renew_def calls_renew_path)

definition refused :: "world \<Rightarrow> string \<Rightarrow> bool" where
  "refused w i \<longleftrightarrow> (case row_of w i of None \<Rightarrow> True | Some r \<Rightarrow> \<not> renewAllowed (nc_Status r))"

lemma refused_no_call:
  assumes "faultless env" "refused w i"
  shows "engine_calls env (service_Renew cfg i force actor ip) w = 0"
proof -
  have "engine_calls env (issueExisting cfg i b jt ev actor ip) w = 0" if "jt \<noteq> ''issue''" for b jt ev
    using assms that
    by (auto simp: issueExisting_def get_row_def with_lock_def unlocking_def refused_def renewExistingCertificate_def
        perform_def row_of_def split: option.splits prod.splits)
  then show ?thesis by (simp add: service_Renew_def)
qed

lemma Renew_then_refused:
  assumes "faultless env" and "run_svc env (service_Renew cfg i force actor ip) w = (v, w')"
    and "\<not> stops_retrying v \<or> refused w i"
  shows "refused w' i"
proof -
  have "renew_outcome cfg i w v w'"
    using Renew_outcome [OF assms(1), of cfg i force actor ip w] assms(2) by (simp add: ends_def)
  then show ?thesis
    using assms(3)
    by (auto simp: renew_outcome_def refused_def stops_retrying_def renewAllowed_def split: sum.splits option.splits)
qed

lemma refused_scan:
  assumes "faultless env" "refused w i"
  shows "engine_calls env (scan_attempts cfg i interval n) w = 0"
  using assms(2)
proof (induction n arbitrary: w)
  case (Suc n)
  obtain v w' where run: "run_svc env (service_Renew cfg i False ''scheduler'' []) w = (v, w')" by fastforce
  have "refused (w'\<lparr>wd_tick := t\<rparr>) i" for t
    using Renew_then_refused [OF assms(1) run] Suc.prems by (simp add: refused_def)
  then show ?case
    using Suc.IH refused_no_call [OF assms(1) Suc.prems] run assms(1)
    by (simp add: scan_attempts.simps engine_calls_bind perform_def ok_reply_def)
qed (simp add: scan_attempts.simps engine_calls_bind refused_no_call [OF assms(1)] split: prod.splits)


text \<open>An engine that fails once and would work afterwards: three retries leave the certificate failed.\<close>

definition failing_once :: environment where
  "failing_once = steady\<lparr>en_engine := (\<lambda>t _. if t < 18 then Inl EngineOther else Inr (Some sample_result))\<rparr>"


end
