(* ===== verification/Key_Audit.thy ===== *)
theory Key_Audit
  imports Key_Access Service_Renewal
begin

text \<open>
  Every private key that leaves the server is recorded in the audit log, as long as the database
  works: the handlers write the record before they write the key, but ignore its failure.
\<close>

section \<open>Responses without a key\<close>

lemma reveals_simps [simp]:
  "reveals_key (with_cookie sc r) = reveals_key r" "reveals_key (no_store r) = reveals_key r"
  "\<not> reveals_key (writeError st c)" "reveals_key (r\<lparr>hp_cache := x\<rparr>) = reveals_key r"
  "reveals_key (r\<lparr>hp_attachment := a\<rparr>) = reveals_key r"
  by (simp_all add: reveals_key_def with_cookie_def no_store_def writeError_def writeJSON_def)

lemma reveals_file [simp]: "reveals_key (writeJSON st (FileBody name content)) \<longleftrightarrow> name = ''privkey.pem''"
  by (simp add: reveals_key_def writeJSON_def)

lemma operation_reveals [simp]: "\<not> reveals_key (operation_response special failed r)"
  by (simp add: operation_response_def split: sum.split)

lemma byID_keyless:
  "(\<And>v. all_results (k v) (\<lambda>r. \<not> reveals_key r)) \<Longrightarrow> all_results (certificateByID i k) (\<lambda>r. \<not> reveals_key r)"
  by (auto simp: certificateByID_def split: sum.split)

lemma served_keyless:
  "fileType \<noteq> ''private-key'' \<Longrightarrow> all_results (serveCertificateFile m q got i fileType download) (\<lambda>r. \<not> reveals_key r)"
  by (auto simp: serveCertificateFile_def all_results_bind Let_def certificateFileName_def certificateFiles_def
      intro!: all_results_any split: option.split sum.split)

lemmas keyless_defs = keyless_handlers handle_logout_def handle_reauthenticate_def handle_revokeCertificate_def
  all_results_map

lemma keyless_call:
  assumes "\<forall>i ty. c \<noteq> GetFileDownload i ty" "\<forall>i b. c \<noteq> PostArchive i b" "\<forall>i b. c \<noteq> PostReveal i b"
  shows "all_results (protected_route ap q got c) (\<lambda>r. \<not> reveals_key r)"
proof (cases c)
  case (DeleteCertificate i b)
  then show ?thesis
    by (auto simp: handle_deleteCertificate_def all_results_map intro!: byID_keyless
        split: option.split sum.split prod.split) (auto intro!: all_results_any split: sum.split)
next
  case (GetFile i ty)
  then show ?thesis by (simp add: handle_viewCertificateFile_def served_keyless)
next
  case (GetFiles i)
  then show ?thesis by (auto simp: handle_listCertificateFiles_def intro!: byID_keyless split: sum.split)
next
  case (GetCertificate i)
  then show ?thesis by (auto simp: handle_getCertificate_def intro!: byID_keyless)
next
  case (PostCopyAudit i)
  then show ?thesis by (auto simp: handle_auditPrivateKeyCopy_def intro!: byID_keyless)
qed (use assms in \<open>auto simp: keyless_defs intro!: all_results_any split: option.split sum.split prod.split
    service_error.split\<close>)

section \<open>Keys and their records\<close>

definition key_events :: "string list" where
  "key_events = [''private_key.view'', ''private_key.download'', ''private_key.archive_download'']"

text \<open>The log has grown, and its last record is of a key of a stored certificate.\<close>

definition key_recorded :: "string \<Rightarrow> world \<Rightarrow> world \<Rightarrow> bool" where
  "key_recorded client w w' \<longleftrightarrow> (\<exists>es e. wd_audit w' = wd_audit w @ es @ [e] \<and> au_EventType e \<in> set key_events
     \<and> au_Result e = ''succeeded'' \<and> au_ClientIP e = client \<and> find_row (au_CertificateID e) (wd_certs w) \<noteq> None)"

definition recorded :: "string \<Rightarrow> world \<Rightarrow> server_response \<Rightarrow> world \<Rightarrow> bool" where
  "recorded client w r w' \<longleftrightarrow> (reveals_key r \<longrightarrow> key_recorded client w w')"

lemma recorded_base [simp]: "recorded client (w\<lparr>wd_tick := n\<rparr>) = recorded client w"
  by (intro ext) (simp add: recorded_def key_recorded_def)

lemma recorded_headers [simp]:
  "recorded client w (with_cookie sc r) = recorded client w r" "recorded client w (r\<lparr>hp_cache := x\<rparr>) = recorded client w r"
  by (simp_all add: recorded_def fun_eq_iff)

lemma ends_all_results: "all_results m (\<lambda>r. \<not> reveals_key r) \<Longrightarrow> ends env m w (recorded client w0)"
  by (cases "run_svc env m w") (auto simp: ends_def recorded_def dest: all_results_run)

lemma ends_key_event:
  assumes "faultless env" "row_of w i \<noteq> None"
    and "\<And>e n. e = \<lparr>au_CertificateID = i, au_EventType = ev, au_Actor = actor, au_ClientIP = ip, au_Result = res,
        au_Detail = det, au_CreatedAt = en_now env (wd_tick w)\<rparr> \<Longrightarrow>
      ends env m (w\<lparr>wd_audit := wd_audit w @ [e], wd_tick := n\<rparr>) Q"
  shows "ends env (ignored (audit_action i ev actor ip res det) m) w Q"
  using assms by (simp add: ignored_def ends_Act audit_action_def store_CreateAuditEvent_def row_exists_iff)

lemma ends_ReadFile:
  assumes "faultless env" and "\<And>c n. (\<And>x. c = Inr x \<Longrightarrow> row_of w i \<noteq> None) \<Longrightarrow> ends env (f c) (w\<lparr>wd_tick := n\<rparr>) Q"
  shows "ends env (svc_bind (service_ReadFile i name) f) w Q"
proof (cases "row_of w i")
  case None
  then show ?thesis using assms(1) assms(2) [of "Inl ErrNotFound"]
    by (simp add: service_ReadFile_def get_row_def ends_bind ends_Act row_of_def)
next
  case (Some v)
  then have "ends env (f c) (w\<lparr>wd_tick := n\<rparr>) Q" for c n using assms(2) by simp
  with Some assms(1) show ?thesis
    by (auto simp: service_ReadFile_def get_row_def ends_bind ends_Act row_of_def)
qed

lemma served_recorded:
  assumes "faultless env"
  shows "ends env (serveCertificateFile m q got i ''private-key'' download) w (recorded (hq_client q) w)"
proof -
  have name: "certificateFileName ''private-key'' = Some ''privkey.pem''" by code_simp
  have served: "ends env (case c of Inl e \<Rightarrow> Ret (writeError 404 (f e)) | Inr content \<Rightarrow>
      ignored (audit_action i (if download then ''private_key.download'' else ''private_key.view'')
        (actor_of m q got) (hq_client q) ''succeeded'' []) (Ret (g content)))
      (w\<lparr>wd_tick := n\<rparr>) (recorded (hq_client q) w)"
    if "\<And>x. c = Inr x \<Longrightarrow> row_of w i \<noteq> None" for c n f g
    using that
    by (cases c) (auto simp: recorded_def key_recorded_def key_events_def row_of_def intro!: ends_key_event [OF assms])
  show ?thesis
    unfolding serveCertificateFile_def name Let_def
    by (simp only: option.case if_True simp_thms) (rule ends_ReadFile [OF assms], rule served)
qed

lemma ends_read_files:
  assumes "faultless env"
    and "\<And>c n. (\<And>x. c = Inr x \<Longrightarrow> row_of w i \<noteq> None \<or> names = []) \<Longrightarrow> ends env (f c) (w\<lparr>wd_tick := n\<rparr>) Q"
  shows "ends env (svc_bind (read_files i names) f) w Q"
  using assms(2)
proof (induction names arbitrary: w f)
  case Nil
  have "w\<lparr>wd_tick := wd_tick w\<rparr> = w" by simp
  with Nil [of "Inr []" "wd_tick w"] show ?case by simp
next
  case (Cons name names)
  have assoc: "svc_bind (svc_bind m g) f = svc_bind m (\<lambda>v. svc_bind (g v) f)" for m :: "'x svc" and g
    by (induction m) auto
  show ?case
    unfolding read_files.simps assoc
  proof (rule ends_ReadFile [OF assms(1)])
    fix c :: "service_error + file_content" and n
    assume c: "\<And>x. c = Inr x \<Longrightarrow> row_of w i \<noteq> None"
    show "ends env (svc_bind (case c of Inl e \<Rightarrow> Ret (Inl e) | Inr content \<Rightarrow>
        svc_bind (read_files i names) (\<lambda>r. Ret (case r of Inl e \<Rightarrow> Inl e | Inr fs \<Rightarrow> Inr ((name, content) # fs)))) f)
        (w\<lparr>wd_tick := n\<rparr>) Q"
    proof (cases c)
      case (Inl e)
      then show ?thesis using Cons.prems [of "Inl e" n] by simp
    next
      case (Inr content)
      with c have "row_of w i \<noteq> None" by simp
      then have "ends env (f d) (w\<lparr>wd_tick := k\<rparr>) Q" for d k using Cons.prems by blast
      then show ?thesis
        unfolding Inr sum.case assoc by (intro Cons.IH) simp
    qed
  qed
qed

lemma delivered_recorded:
  assumes "faultless env"
  shows "ends env (archive_deliver appName m q got v includeKey) w (recorded (hq_client q) w)"
proof (cases includeKey)
  case False
  have "''privkey.pem'' \<notin> set (List.map_filter certificateFileName (archive_types False))" by code_simp
  then have absent: "(''privkey.pem'', b) \<notin> set fs"
    if "map fst fs = List.map_filter certificateFileName (archive_types False)" for fs :: "(string \<times> file_content) list" and b
    unfolding that [symmetric] by force
  have "all_results (archive_deliver appName m q got v False) (\<lambda>r. \<not> reveals_key r)"
    unfolding archive_deliver_def all_results_bind
    by (intro all_results_mono [OF read_files_names])
      (auto simp: Let_def reveals_key_def writeJSON_def writeError_def absent split: sum.splits)
  with False show ?thesis by (simp add: ends_all_results)
next
  case True
  have names: "List.map_filter certificateFileName (archive_types True) \<noteq> []" by code_simp
  have key: "includeKey = True" using True by simp
  show ?thesis
    unfolding archive_deliver_def Let_def key
  proof (rule ends_read_files [OF assms], goal_cases)
    case (1 c n)
    show ?case
    proof (cases c)
      case (Inr fs)
      then have row: "row_of w (cr_ID v) \<noteq> None" using 1 names by auto
      show ?thesis
        unfolding Inr sum.case if_True
        by (intro ends_key_event [OF assms]) (use row in \<open>auto simp: recorded_def key_recorded_def key_events_def row_of_def\<close>)
    qed (simp add: recorded_def)
  qed
qed

lemma ends_svc_map: "ends env (svc_map f m) w Q = ends env m w (\<lambda>v. Q (f v))"
  by (simp add: svc_map_def ends_bind)

lemma ends_byID:
  assumes "faultless env" and "\<And>v n. ends env (k v) (w\<lparr>wd_tick := n\<rparr>) (recorded client w)"
  shows "ends env (certificateByID i k) w (recorded client w)"
  using assms by (auto simp: certificateByID_def ends_Act recorded_def split: option.split)

lemma route_recorded:
  assumes "faultless env"
  shows "ends env (protected_route ap q got c) w (recorded (hq_client q) w)"
proof (cases "(\<forall>i ty. c \<noteq> GetFileDownload i ty) \<and> (\<forall>i b. c \<noteq> PostArchive i b) \<and> (\<forall>i b. c \<noteq> PostReveal i b)")
  case True
  then show ?thesis by (intro ends_all_results keyless_call) auto
next
  case False
  let ?m = "ap_manager ap"
  have map_id: "ends env (svc_map (\<lambda>r. with_cookie sc (r\<lparr>hp_cache := x\<rparr>)) m) w (recorded client w0) = ends env m w (recorded client w0)"
    "ends env (svc_map (with_cookie sc) m) w (recorded client w0) = ends env m w (recorded client w0)" for sc x m w client w0
    by (simp_all add: ends_svc_map)
  have deliver: "ends env (archive_deliver (ap_name ap) ?m q got' v inc) (w\<lparr>wd_tick := n\<rparr>) (recorded (hq_client q) w)"
    for got' v inc n
    using delivered_recorded [OF assms, of "ap_name ap" ?m q got' v inc "w\<lparr>wd_tick := n\<rparr>"] by simp
  from False consider i ty where "c = GetFileDownload i ty" | i b where "c = PostArchive i b" | i b where "c = PostReveal i b"
    by blast
  then show ?thesis
  proof cases
    case (1 i ty)
    then show ?thesis
      using served_recorded [OF assms] ends_all_results [OF served_keyless]
      by (cases "ty = ''private-key''") (auto simp: handle_downloadCertificateFile_def recorded_def [abs_def])
  next
    case (2 i b)
    then show ?thesis
      using deliver
      by (auto simp: handle_downloadCertificateArchive_def map_id intro!: ends_byID [OF assms]
          split: option.split sum.split) (simp_all add: recorded_def)
  next
    case (3 i b)
    then show ?thesis
      using served_recorded [OF assms]
      by (auto simp: handle_revealPrivateKey_def map_id split: option.split sum.split) (simp_all add: recorded_def)
  qed
qed


definition reveal_request :: server_request where
  "reveal_request = \<lparr>hq_cookie = Some ''A'', hq_time = go_second + 1, hq_client = ''ip''\<rparr>"

definition reveal_exchange :: "server_response \<times> server" where
  "reveal_exchange = serve sample_app steady reveal_request (PostReveal ''c'' (Some ''pw''))
     \<lparr>sv_limiter = newLoginLimiter, sv_world = sample_world\<rparr>"


end
