(* ===== verification/Spec2Isabelle.thy ===== *)
theory Spec2Isabelle
  imports Csrf Request_Bodies Api_Results Create_Flow Renewal_Settings Dns_Page Detail_Page
    Admin_Properties Publisher_Properties Record_Queries
    Files_View App_Shell Operations_Pages Service_Stuck Key_Audit
begin

text \<open>
  CertMate, a certificate manager: a Go server that issues, renews, publishes and revokes
  certificates, and a React front end in TypeScript through which an administrator uses it. This
  development models the front end (\<open>web/src\<close>) and the server: sessions, the login limiter, the
  handlers, the certificate service with its locks, jobs, files and audit log, the engines that run
  \<open>acme.sh\<close> and \<open>openssl\<close>, the credential service, the publisher of directories, the renewal schedule
  and the queries of the lists.

  \<^bold>\<open>Parts of the program and how they interact.\<close> The pages (\<open>CertificatePages.tsx\<close>,
  \<open>DNSCredentialsPage.tsx\<close>, \<open>RenewalSettingsPage.tsx\<close>, \<open>OperationsPages.tsx\<close>, \<open>LoginPage.tsx\<close>) keep
  their state in component state and a query cache; \<open>App.tsx\<close> chooses the page by location and
  session. Pages call the operations of \<open>api.ts\<close>, which share one module variable, the CSRF token,
  and run asynchronously side by side. \<open>validation.ts\<close> checks domain names before the server does.
  On the server \<open>internal/httpapi\<close> routes and decodes the requests, \<open>internal/auth\<close> decides who may
  send them, \<open>internal/certificate\<close> validates and executes them over the store, the published
  directories, one lock per certificate and the engines; the renewal scan calls the same operations,
  started by the schedule of \<open>internal/scheduler\<close>. \<open>internal/credential\<close> keeps the values for DNS providers
  that the engine for public certificates hands to \<open>acme.sh\<close>.

  \<^bold>\<open>Theories.\<close>
  \<^item> \<open>Prelude\<close>: theorem collections and list operations (splitting, joining, trimming, first pair).
  \<^item> \<open>Js_Text\<close>: the ECMAScript and browser text functions, numbers and URL encoding; Go's \<open>TrimSpace\<close>
    and \<open>len\<close>.
  \<^item> \<open>Http_Io\<close>: values, requests, responses; client programs as a datatype of commands; \<open>run\<close> executes
    one program against a server function, \<open>pool_step\<close> interleaves any number of them.
  \<^item> \<open>Api_Types\<close>, \<open>Api\<close>: the types, the fetch helpers and all operations of \<open>api.ts\<close>. Shown in
    \<open>Csrf\<close> (the token discipline), \<open>Endpoints\<close> (routes of \<open>router.go\<close>), \<open>Request_Bodies\<close> (request
    structures of \<open>internal/httpapi\<close>) and \<open>Api_Results\<close> (results on every branch).
  \<^item> \<open>Domain_Policy\<close>: the wildcard rule as a specification, with a locale for a cover test and one
    for a search; \<open>Validation\<close> (\<open>validation.ts\<close>) and \<open>Go_Validation\<close> (\<open>validation.go\<close>, the directory
    rule of \<open>publisher.go\<close>) interpret them; \<open>Domain_Agreement\<close> compares the two.
  \<^item> \<open>Ui\<close>: pages as step functions from events to states and effects; the locales \<open>page_invariant\<close> and
    \<open>page_effects\<close>, interpreted by every page below.
  \<^item> \<open>Create_Form\<close> (schema and wizard of \<open>CreateCertificatePage\<close>), \<open>Go_Create\<close> (decoding and checks of
    \<open>CreateACME\<close> and \<open>CreateSelfSigned\<close>), \<open>Create_Flow\<close> (from the wizard to the stored record).
  \<^item> \<open>Renewal_Settings\<close>, \<open>Dns_Page\<close>, \<open>Detail_Page\<close> (with the status rules of \<open>service.go\<close>),
    \<open>Files_View\<close>, \<open>Certificate_List\<close>, \<open>Operations_Pages\<close> (with the job filter of \<open>records.go\<close>),
    \<open>App_Shell\<close> (routing, session, login).
  \<^item> \<open>Go_Rules\<close>: statuses and which operation is allowed in which.
  \<^item> \<open>Login_Limiter\<close> (\<open>limiter.go\<close>, \<open>Authenticate\<close>) and \<open>Session_Manager\<close> (the sessions of \<open>manager.go\<close>).
  \<^item> \<open>Service_World\<close> (the tables of \<open>store.go\<close>, the directories of \<open>publisher.go\<close>, the locks; each call as an
    atomic action with its failures) and \<open>Cert_Service\<close> (the operations of \<open>service.go\<close> as programs over
    these actions); \<open>Service_Sample\<close> is a concrete one.
  \<^item> \<open>Service_Discipline\<close> (a protocol that every operation except deletion follows),
    \<open>Service_Interleaving\<close> (any number of operations at the same time, failures, restarts, and the
    invariant), \<open>Service_Safety\<close> (what follows from it, and the race of deletion), \<open>Service_Properties\<close>
    (the locale \<open>kept_property\<close>, interpreted for the audit log), \<open>Service_Stuck\<close> (interpreted for
    interrupted certificates), \<open>Service_Renewal\<close> (the outcome of a renewal, retries).
  \<^item> \<open>Timestamps\<close> (the text columns for times and their order), \<open>Service_Status\<close> (which statuses are
    stored; a further instance of \<open>kept_property\<close>), \<open>Record_Queries\<close> (the lists of jobs and events and the
    dashboard, \<open>store.go\<close> and \<open>records.go\<close>).
  \<^item> \<open>Engine_Output\<close> (bounded and redacted output), \<open>Dns_Providers\<close> and \<open>Credential_Service\<close>
    (\<open>internal/credential\<close>), \<open>Cert_Parser\<close> (\<open>parser.go\<close>), \<open>Acme_Engine\<close> and \<open>Selfsigned_Engine\<close> (the two
    \<open>engine.go\<close>), \<open>Engine_Wiring\<close> (the engines attached to the service, as in \<open>app.go\<close>; an instance of
    \<open>kept_property\<close> for what is published) and \<open>Engine_Properties\<close>.
  \<^item> \<open>Publisher_Files\<close> (\<open>publisher.go\<close> as programs of file system calls, with a logic for what holds at
    every moment of a run) and \<open>Publisher_Properties\<close> (with the refinement to the action of
    \<open>Service_World\<close>).
  \<^item> \<open>Scheduler_Controller\<close> (\<open>controller.go\<close>: requests and scans as tasks that interleave step by step).
  \<^item> \<open>Admin_Handlers\<close> (\<open>credentials.go\<close>, \<open>scheduler.go\<close>, \<open>challenge.go\<close>) and \<open>Admin_Properties\<close> (two runs that
    differ in entered values compared).
  \<^item> \<open>Server_Handlers\<close> (\<open>auth.go\<close>, \<open>certificates.go\<close>), \<open>Key_Access\<close> (sequences of requests) and
    \<open>Key_Audit\<close> (records of released keys).

  \<^bold>\<open>How state and operations correspond.\<close> A component's state is a record with one field per
  \<open>useState\<close> and per mutation, named after the variable with a two-letter prefix. An event is a user
  action on a control or the settling of a request; the step function has one equation per handler,
  guarded by what renders or enables the control. Requests a handler starts are effects: values of
  \<open>api_call\<close>, whose programs are in \<open>Api\<close>. Errors are values: \<open>js_error\<close> for exceptions of the client,
  one datatype per Go function for the server, and \<open>service_error\<close> for its operations. On the server a
  call to the store, the files, a lock or an engine is an \<open>action\<close>, answered by \<open>perform_action\<close> in a
  \<open>world\<close>; an \<open>environment\<close> decides which calls fail and what the engines answer.

  \<^bold>\<open>What is shown.\<close> Safety of the CSRF token over all interleavings; that each request reaches its
  handler and decodes there; agreement of the two redundancy checks; that a confirmed wizard is
  accepted by the server, with the exact list of refusals that remain; normal forms of domain lists
  and safety of derived directories; that the editor saves the schedule it shows; that passwords and
  private keys do not outlive their dialogs and timeouts; that forced renewals reauthenticate first;
  list order, day counts, redirects, query strings. On the server: rows and published files agree and
  engines work on a certificate one at a time under every interleaving, with failures and restarts;
  the outcome of a renewal on every branch; the audit log only grows; private keys leave the server
  only after the password within five minutes and with a record, and nothing is answered without a
  login; how fast
  passwords can be guessed, and that lockouts end. With the engines: the row of an active certificate
  describes the published certificate and its key; values of credentials appear in no summary, make
  no difference to answers and audit events, and
  cannot change the path or libraries of the process; encrypted values come back; the two domain checks agree, and
  which checks are made too late. A publication leaves the old or the new directory wherever it stops,
  except between two renames, and is one action for its callers. At most one scan runs and one
  schedule is in force. And, stated as theorems, the places where the code
  does something else than it means to.

  \<^bold>\<open>Bounds.\<close> There is no fuel: programs of the service are finite trees, and the retries of a scan
  recurse over their number. Characters are U+0000 to U+00FF, so texts outside Latin-1 are not
  covered; numbers are rationals, without rounding to doubles. The timeout of the file view is the
  120000 milliseconds of the source; times of the server are nanoseconds as integers. A request of
  \<open>Key_Access\<close> is handled at one moment. A run of \<open>Publisher_Files\<close> has a list with the luck of its calls; a
  list that is used up means that the program was stopped, so all lists are considered. Timestamps
  are from 1970 to the year 9999.

  \<^bold>\<open>Not modelled.\<close> Layout, labels and styling; the focus handling of dialogs; lazy loading; caching
  and refetching by the query library beyond the effects a handler starts; on the server the
  configuration, the system information, opening and migrating the database, security headers and
  static files. Code of libraries enters as parameters (URL, date and mail parsers, cookie store,
  password hash, cipher, X.509, cron expressions, the programs \<open>acme.sh\<close> and \<open>openssl\<close>) or with the
  behaviour its users rely on (schema checks, path matching). The hypotheses on them are
  \<open>cookies_authentic\<close> (a cookie that decodes was sent by the server) and \<open>crypto_lib_ok\<close> (what was sealed
  and encoded opens and decodes). A removal that fails half way is one call of \<open>Publisher_Files\<close>; in
  \<open>Service_World\<close> a failing removal leaves the directory, whose row is gone by then.
\<close>

end
